(* ===== verification/Prelude.thy ===== *)
theory Prelude
  imports Main "HOL-Library.Word"
begin

text \<open>
  Shared vocabulary of the development: the error values that model the exceptions and
  rejected promises of \<^verbatim>\<open>src/src/index.ts\<close>, the few pieces of the JavaScript runtime
  that the code and its libraries rely on (\<^verbatim>\<open>parseInt\<close>, \<^verbatim>\<open>String.prototype.substring\<close>,
  white space), and generic lemmas on lists and options that the component theories use
  through the collection \<open>js_simps\<close>.
  JavaScript \<^verbatim>\<open>undefined\<close> is \<open>None\<close> wherever a value may be absent.
\<close>

named_theorems js_simps "evaluation rules of the modelled JavaScript runtime helpers"

section \<open>Errors\<close>

text \<open>
  Every \<^verbatim>\<open>throw\<close>, every runtime \<^verbatim>\<open>TypeError\<close> and every rejected promise of the program
  is a value of this type; the result of a fallible step is \<open>error + 'a\<close>.
  \<^item> \<open>TypeError\<close>: a method called on a value that does not have it
    (\<^verbatim>\<open>undefined.keySet()\<close>, \<^verbatim>\<open>undefined.replace(..)\<close>);
  \<^item> \<open>MalformedEnvelope\<close>: a JSON value that breaks the transit framing rules;
  \<^item> \<open>Unsupported\<close>: a transit value outside the modelled fragment of the format;
  \<^item> \<open>SyntaxError\<close>: \<^verbatim>\<open>JSON.parse\<close> of a text that is not JSON (the reader fed
    \<^verbatim>\<open>JSON.stringify(undefined)\<close>);
  \<^item> \<open>RequestFailed\<close>: an HTTP exchange that axios rejects;
  \<^item> \<open>InvalidCookie\<close>: the entry point's own \<^verbatim>\<open>throw new Error(..)\<close>;
  \<^item> \<open>FuelExhausted\<close>: not a JavaScript error but the value of a bounded recursion that
    ran out of fuel; the theorems show that the bounds chosen are never reached.
\<close>

datatype error =
    TypeError string
  | MalformedEnvelope string
  | Unsupported string
  | SyntaxError string
  | RequestFailed string
  | InvalidCookie
  | FuelExhausted

type_synonym 'a result = "error + 'a"

section \<open>JavaScript runtime helpers\<close>

text \<open>
  \<^verbatim>\<open>parseInt(s, r)\<close> as ECMAScript defines it: leading white space is skipped, one sign is
  read, for radix 16 a \<^verbatim>\<open>0x\<close>/\<^verbatim>\<open>0X\<close> prefix is dropped, then the longest prefix of digits
  of the radix is read; no digit at all gives \<^verbatim>\<open>NaN\<close>, here \<open>None\<close>. Strings are byte
  strings, so only the ASCII white-space characters are recognised.
\<close>

definition js_ws :: "char \<Rightarrow> bool" where
  "js_ws c \<longleftrightarrow> c \<in> {CHR '' '', CHR 0x09, CHR 0x0A, CHR 0x0B, CHR 0x0C, CHR 0x0D}"

definition digit_val :: "char \<Rightarrow> nat option" where
  "digit_val c =
     (let n = of_char c :: nat in
      if 48 \<le> n \<and> n \<le> 57 then Some (n - 48)
      else if 97 \<le> n \<and> n \<le> 122 then Some (n - 87)
      else if 65 \<le> n \<and> n \<le> 90 then Some (n - 55)
      else None)"

fun digits_prefix :: "nat \<Rightarrow> string \<Rightarrow> nat list" where
  "digits_prefix r [] = []"
| "digits_prefix r (c # cs) =
     (case digit_val c of
        Some d \<Rightarrow> if d < r then d # digits_prefix r cs else []
      | None \<Rightarrow> [])"

definition digits_value :: "nat \<Rightarrow> nat list \<Rightarrow> nat" where
  "digits_value r ds = foldl (\<lambda>acc d. acc * r + d) 0 ds"

definition parse_sign :: "string \<Rightarrow> bool \<times> string" where
  "parse_sign s =
     (case s of
        c # cs \<Rightarrow> if c = CHR ''-'' then (True, cs)
                else if c = CHR ''+'' then (False, cs) else (False, s)
      | [] \<Rightarrow> (False, []))"

definition strip_0x :: "nat \<Rightarrow> string \<Rightarrow> string" where
  "strip_0x r s = (if r = 16 \<and> (take 2 s = ''0x'' \<or> take 2 s = ''0X'') then drop 2 s else s)"

definition js_parseInt :: "nat \<Rightarrow> string \<Rightarrow> int option" where
  "js_parseInt r s =
     (case parse_sign (dropWhile js_ws s) of
        (neg, s2) \<Rightarrow>
          (let ds = digits_prefix r (strip_0x r s2)
           in if ds = [] then None
              else Some ((if neg then -1 else 1) * int (digits_value r ds))))"

text \<open>\<^verbatim>\<open>s.substring(i, j)\<close> for \<open>i \<le> j\<close>; indices past the end are clamped.\<close>

definition substring :: "string \<Rightarrow> nat \<Rightarrow> nat \<Rightarrow> string" where
  "substring s i j = take (j - i) (drop i s)"

text \<open>\<^verbatim>\<open>String(n)\<close> for an integer \<open>n\<close> of magnitude below \<open>10^21\<close>, where JavaScript prints
  plain decimal digits with a leading minus sign.\<close>

fun dec_digits :: "nat \<Rightarrow> nat list" where
  "dec_digits n = (if n < 10 then [n] else dec_digits (n div 10) @ [n mod 10])"

declare dec_digits.simps [simp del]

definition dec_char :: "nat \<Rightarrow> char" where
  "dec_char d = char_of (48 + d)"

definition int_dec :: "int \<Rightarrow> string" where
  "int_dec i =
     (if i < 0 then CHR ''-'' # map dec_char (dec_digits (nat (- i)))
      else map dec_char (dec_digits (nat i)))"

text \<open>\<^verbatim>\<open>Array.prototype.join(sep)\<close> on the printed elements.\<close>

fun js_join :: "string \<Rightarrow> string list \<Rightarrow> string" where
  "js_join sep [] = []"
| "js_join sep [x] = x"
| "js_join sep (x # xs) = x @ sep @ js_join sep xs"

section \<open>Sequencing fallible steps\<close>

text \<open>
  \<open>bindr r f\<close> runs \<open>f\<close> on the value of \<open>r\<close> and passes an error on unchanged: the
  model of one statement after another when the first may throw. \<open>map_result\<close> is
  \<^verbatim>\<open>_.map\<close> (or \<^verbatim>\<open>Array.prototype.map\<close>) with an iteratee that may throw: the elements
  are visited from the left and the first exception aborts the whole call.
\<close>

definition bindr :: "'a result \<Rightarrow> ('a \<Rightarrow> 'b result) \<Rightarrow> 'b result" where
  "bindr r f = (case r of Inl e \<Rightarrow> Inl e | Inr x \<Rightarrow> f x)"

lemma bindr_simps [simp]:
  "bindr (Inl e) f = Inl e"
  "bindr (Inr x) f = f x"
  by (simp_all add: bindr_def)

lemma bindr_eq_Inr [js_simps]:
  "bindr r f = Inr y \<longleftrightarrow> (\<exists>x. r = Inr x \<and> f x = Inr y)"
  by (cases r) simp_all

lemma bindr_InrE:
  assumes "bindr r f = Inr y"
  obtains x where "r = Inr x" "f x = Inr y"
  using assms by (cases r) simp_all

lemma bindr_Inl_iff:
  "bindr r f = Inl e \<longleftrightarrow> r = Inl e \<or> (\<exists>x. r = Inr x \<and> f x = Inl e)"
  by (cases r) simp_all

fun map_result :: "('a \<Rightarrow> 'b result) \<Rightarrow> 'a list \<Rightarrow> 'b list result" where
  "map_result f [] = Inr []"
| "map_result f (x # xs) = bindr (f x) (\<lambda>y. bindr (map_result f xs) (\<lambda>ys. Inr (y # ys)))"

section \<open>Generic lemmas\<close>

lemma js_parseInt_two_digits:
  assumes "digit_val c1 = Some d1" "d1 < r" "digit_val c2 = Some d2" "d2 < r"
    and "\<not> js_ws c1" "c1 \<noteq> CHR ''-''" "c1 \<noteq> CHR ''+''"
    and "r = 16 \<Longrightarrow> c2 \<noteq> CHR ''x'' \<and> c2 \<noteq> CHR ''X''"
  shows "js_parseInt r [c1, c2] = Some (int (d1 * r + d2))"
proof -
  have "dropWhile js_ws [c1, c2] = [c1, c2]" using assms(5) by simp
  moreover have "parse_sign [c1, c2] = (False, [c1, c2])"
    using assms(6,7) by (simp add: parse_sign_def)
  moreover have "strip_0x r [c1, c2] = [c1, c2]"
    using assms(8) by (auto simp: strip_0x_def)
  moreover have "digits_prefix r [c1, c2] = [d1, d2]"
    using assms(1-4) by simp
  ultimately show ?thesis by (simp add: js_parseInt_def digits_value_def)
qed

lemma js_ws_small: "js_ws c \<Longrightarrow> of_char c < (48::nat)"
  by (auto simp: js_ws_def)

lemma map_result_Inr_iff [js_simps]:
  "map_result f xs = Inr ys \<longleftrightarrow> list_all2 (\<lambda>x y. f x = Inr y) xs ys"
proof (induction xs arbitrary: ys)
  case Nil
  then show ?case by auto
next
  case (Cons x xs)
  then show ?case by (cases ys) (auto simp: js_simps)
qed

lemma map_result_Inl_first:
  "map_result f xs = Inl e \<longleftrightarrow>
     (\<exists>i < length xs. f (xs ! i) = Inl e \<and> (\<forall>j < i. \<exists>y. f (xs ! j) = Inr y))"
proof (induction xs)
  case Nil
  then show ?case by simp
next
  case (Cons x xs)
  show ?case
  proof (cases "f x")
    case (Inl e')
    then show ?thesis by (auto simp: nth_Cons')
  next
    case (Inr y)
    then have "map_result f (x # xs) = Inl e \<longleftrightarrow> map_result f xs = Inl e"
      by (cases "map_result f xs") simp_all
    also have "\<dots> \<longleftrightarrow> (\<exists>i < length xs. f (xs ! i) = Inl e \<and> (\<forall>j < i. \<exists>y. f (xs ! j) = Inr y))"
      by (rule Cons.IH)
    also have "\<dots> \<longleftrightarrow> (\<exists>i < length (x # xs). f ((x # xs) ! i) = Inl e \<and>
                          (\<forall>j < i. \<exists>y. f ((x # xs) ! j) = Inr y))"
    proof
      assume "\<exists>i < length xs. f (xs ! i) = Inl e \<and> (\<forall>j < i. \<exists>y. f (xs ! j) = Inr y)"
      then obtain i where i: "i < length xs" "f (xs ! i) = Inl e" "\<forall>j < i. \<exists>y. f (xs ! j) = Inr y"
        by blast
      have "\<forall>j < Suc i. \<exists>y. f ((x # xs) ! j) = Inr y"
        using i(3) Inr by (auto simp: less_Suc_eq_0_disj)
      with i show "\<exists>i < length (x # xs). f ((x # xs) ! i) = Inl e \<and>
                     (\<forall>j < i. \<exists>y. f ((x # xs) ! j) = Inr y)"
        by (intro exI [of _ "Suc i"]) simp
    next
      assume "\<exists>i < length (x # xs). f ((x # xs) ! i) = Inl e \<and>
                (\<forall>j < i. \<exists>y. f ((x # xs) ! j) = Inr y)"
      then obtain i where i: "i < length (x # xs)" "f ((x # xs) ! i) = Inl e"
          "\<forall>j < i. \<exists>y. f ((x # xs) ! j) = Inr y"
        by blast
      with Inr obtain i' where i': "i = Suc i'" by (cases i) auto
      have "\<forall>j < i'. \<exists>y. f (xs ! j) = Inr y"
        using i(3) i' by auto
      with i i' show "\<exists>i < length xs. f (xs ! i) = Inl e \<and> (\<forall>j < i. \<exists>y. f (xs ! j) = Inr y)"
        by auto
    qed
    finally show ?thesis .
  qed
qed

lemma dec_digits_nonempty: "dec_digits n \<noteq> []"
  by (subst dec_digits.simps) simp

lemma dec_digits_lt: "d \<in> set (dec_digits n) \<Longrightarrow> d < 10"
proof (induction n rule: dec_digits.induct)
  case (1 n)
  then show ?case by (subst (asm) dec_digits.simps) (auto split: if_splits)
qed

lemma digits_value_dec_digits: "digits_value 10 (dec_digits n) = n"
proof (induction n rule: dec_digits.induct)
  case (1 n)
  then show ?case by (subst dec_digits.simps) (simp add: digits_value_def)
qed

lemma digit_val_dec_char: "d < 10 \<Longrightarrow> digit_val (dec_char d) = Some d"
  by (simp add: digit_val_def dec_char_def Let_def)

lemma digits_prefix_dec_chars:
  "\<forall>d \<in> set ds. d < 10 \<Longrightarrow> digits_prefix 10 (map dec_char ds) = ds"
  by (induction ds) (simp_all add: digit_val_dec_char)

lemma of_char_dec_char: "d < 10 \<Longrightarrow> of_char (dec_char d) = 48 + d"
  by (simp add: dec_char_def)

lemma dec_char_ne: "d < 10 \<Longrightarrow> of_char c < (48::nat) \<Longrightarrow> dec_char d \<noteq> c"
  by (metis of_char_dec_char of_char_eq_iff less_not_refl2 le_add1 not_le)

text \<open>Printing an integer in decimal and reading it back with \<^verbatim>\<open>parseInt(.., 10)\<close> gives it
  back: the round trip of the \<^verbatim>\<open>~m\<close> (date) and \<^verbatim>\<open>~i\<close> (integer key) transit encodings.\<close>

lemma dec_chars_head:
  "dropWhile js_ws (map dec_char (dec_digits n)) = map dec_char (dec_digits n) \<and>
   parse_sign (map dec_char (dec_digits n)) = (False, map dec_char (dec_digits n))"
proof -
  obtain d ds where dd: "dec_digits n = d # ds"
    using dec_digits_nonempty by (cases "dec_digits n") auto
  have "d < 10" using dec_digits_lt [of d n] dd by simp
  then have "\<not> js_ws (dec_char d)" "dec_char d \<noteq> CHR ''-''" "dec_char d \<noteq> CHR ''+''"
    using js_ws_small dec_char_ne by (blast, simp_all add: dec_char_ne)
  then show ?thesis by (simp add: dd parse_sign_def)
qed

lemma parseInt_dec_digits:
  "digits_prefix 10 (strip_0x 10 (map dec_char (dec_digits n))) = dec_digits n"
  using dec_digits_lt digits_prefix_dec_chars by (simp add: strip_0x_def)

lemma parseInt_int_dec: "js_parseInt 10 (int_dec i) = Some i"
proof (cases "i < 0")
  case True
  have "\<not> js_ws (CHR ''-'')" by (simp add: js_ws_def)
  then show ?thesis
    using True dec_chars_head [of "nat (- i)"] parseInt_dec_digits [of "nat (- i)"]
      digits_value_dec_digits [of "nat (- i)"] dec_digits_nonempty [of "nat (- i)"]
    by (simp add: int_dec_def js_parseInt_def parse_sign_def)
next
  case False
  then show ?thesis
    using dec_chars_head [of "nat i"] parseInt_dec_digits [of "nat i"]
      digits_value_dec_digits [of "nat i"] dec_digits_nonempty [of "nat i"]
    by (simp add: int_dec_def js_parseInt_def)
qed

lemma substring_append_take [js_simps]:
  "length xs = j - i \<Longrightarrow> drop i s = xs @ ys \<Longrightarrow> substring s i j = xs"
  by (simp add: substring_def)

lemma find_SomeD: "find P xs = Some x \<Longrightarrow> P x \<and> x \<in> set xs"
  by (induction xs) (auto split: if_splits)

lemma filter_drop_one_sublist [js_simps]:
  "set (filter P (drop 1 xs)) \<subseteq> set xs"
  by (auto dest: in_set_dropD)

end
