(* ===== verification/Uuid.thy ===== *)
theory Uuid
  imports Prelude
begin

unbundle bit_operations_syntax

text \<open>
  The UUID values of the transit library that \<^verbatim>\<open>src/src/index.ts\<close> uses
  (\<^verbatim>\<open>transit.UUIDfromString\<close> at line 94, and the \<^verbatim>\<open>toString\<close> taken of the decoded
  \<^verbatim>\<open>workflow/id\<close> at line 76). transit-js keeps a UUID as two 64-bit longs; its
  \<^verbatim>\<open>toString\<close> prints the sixteen bytes, most significant first, as two lower-case hex
  digits each, grouped 8-4-4-4-12 by hyphens (\<^verbatim>\<open>util.hexFor\<close>). \<^verbatim>\<open>UUIDfromString\<close> drops
  every hyphen, reads each pair of characters with \<^verbatim>\<open>parseInt(.., 16)\<close>, shifts it into a
  32-bit JavaScript integer with \<^verbatim>\<open>|=\<close> and \<^verbatim>\<open><<\<close>, and joins two such integers with
  \<^verbatim>\<open>Long.fromBits\<close>. It validates nothing: a pair that does not parse contributes 0.
  The library is not under \<^verbatim>\<open>src/\<close>; this theory models it from its documented behaviour.
  The lemmas show both round trips: parsing the printed form of any UUID gives it back
  (\<open>uuid_roundtrip\<close>), the printed form is canonical (\<open>uuid_toString_shape\<close>), and
  printing what is parsed from a canonical string gives the string back
  (\<open>uuid_toString_of_shape\<close>).
\<close>

record uuid =
  uuid_high :: "64 word"
  uuid_low :: "64 word"

section \<open>Printing\<close>

definition hex_char :: "nat \<Rightarrow> char" where
  "hex_char d = (if d < 10 then char_of (48 + d) else char_of (87 + d))"

text \<open>Byte \<open>i\<close> of a long, counted from the most significant one.\<close>

definition byte_of :: "64 word \<Rightarrow> nat \<Rightarrow> 8 word" where
  "byte_of w i = ucast (drop_bit (8 * (7 - i)) w)"

text \<open>\<^verbatim>\<open>val.toString(16)\<close> padded to two digits, for a byte value \<^verbatim>\<open>val\<close>.\<close>

definition hex_byte :: "8 word \<Rightarrow> string" where
  "hex_byte b = [hex_char (unat b div 16), hex_char (unat b mod 16)]"

definition hexFor :: "64 word \<Rightarrow> nat \<Rightarrow> nat \<Rightarrow> string" where
  "hexFor w i j = concat (map (\<lambda>k. hex_byte (byte_of w k)) [i..<j])"

definition uuid_toString :: "uuid \<Rightarrow> string" where
  "uuid_toString u =
     hexFor (uuid_high u) 0 4 @ ''-'' @ hexFor (uuid_high u) 4 6 @ ''-'' @
     hexFor (uuid_high u) 6 8 @ ''-'' @ hexFor (uuid_low u) 0 2 @ ''-'' @
     hexFor (uuid_low u) 2 8"

section \<open>Parsing\<close>

text \<open>\<^verbatim>\<open>parseInt(..) << off\<close> on 32-bit integers: \<^verbatim>\<open>NaN\<close> becomes 0.\<close>

definition js_shl32 :: "int option \<Rightarrow> nat \<Rightarrow> 32 word" where
  "js_shl32 x off = (case x of None \<Rightarrow> 0 | Some n \<Rightarrow> push_bit off (word_of_int n))"

text \<open>One of the four loops of \<^verbatim>\<open>UUIDfromString\<close>: from index \<open>i0\<close>, four pairs, shifted
  by 24, 16, 8 and 0 bits.\<close>

definition word32_from :: "string \<Rightarrow> nat \<Rightarrow> 32 word" where
  "word32_from s i0 =
     fold (\<lambda>k acc. acc OR js_shl32 (js_parseInt 16 (substring s (i0 + 2 * k) (i0 + 2 * k + 2)))
                                  (24 - 8 * k))
       [0..<4] 0"

definition long_fromBits :: "32 word \<Rightarrow> 32 word \<Rightarrow> 64 word" where
  "long_fromBits lo hi = push_bit 32 (ucast hi) OR ucast lo"

definition UUIDfromString :: "string \<Rightarrow> uuid" where
  "UUIDfromString s =
     (let t = filter (\<lambda>c. c \<noteq> CHR ''-'') s in
      \<lparr>uuid_high = long_fromBits (word32_from t 8) (word32_from t 0),
       uuid_low = long_fromBits (word32_from t 24) (word32_from t 16)\<rparr>)"

text \<open>The canonical form of a UUID string: 8, 4, 4, 4 and 12 lowercase hex digits separated
  by dashes.\<close>

definition lower_hex :: "char \<Rightarrow> bool" where
  "lower_hex c \<longleftrightarrow> (let n = (of_char c :: nat) in 48 \<le> n \<and> n \<le> 57 \<or> 97 \<le> n \<and> n \<le> 102)"

definition uuid_shape :: "string \<Rightarrow> bool" where
  "uuid_shape s \<longleftrightarrow>
     list_all2 (\<lambda>m c. if m = CHR ''-'' then c = CHR ''-'' else lower_hex c)
       ''xxxxxxxx-xxxx-xxxx-xxxx-xxxxxxxxxxxx'' s"

text \<open>Four bytes assembled into a 32-bit word, most significant first, as the loops of
  \<^verbatim>\<open>UUIDfromString\<close> combine them.\<close>

definition asm32 :: "8 word \<Rightarrow> 8 word \<Rightarrow> 8 word \<Rightarrow> 8 word \<Rightarrow> 32 word" where
  "asm32 b0 b1 b2 b3 = push_bit 24 (ucast b0) OR push_bit 16 (ucast b1) OR push_bit 8 (ucast b2) OR ucast b3"

section \<open>Hex digits\<close>

lemma of_char_hex_char:
  "d < 16 \<Longrightarrow> of_char (hex_char d) = (if d < 10 then 48 + d else 87 + d)"
  by (simp add: hex_char_def)

lemma hex_char_digit: "d < 16 \<Longrightarrow> digit_val (hex_char d) = Some d"
  by (simp add: digit_val_def of_char_hex_char Let_def)

lemma hex_char_eq_iff:
  "d < 16 \<Longrightarrow> hex_char d = c \<longleftrightarrow> of_char c = (if d < 10 then 48 + d else 87 + (d::nat))"
  by (metis of_char_eq_iff of_char_hex_char)

lemma hex_char_ne: "d < 16 \<Longrightarrow> of_char c < (48::nat) \<Longrightarrow> hex_char d \<noteq> c"
  by (simp add: hex_char_eq_iff)

lemma hex_char_not_ws: "d < 16 \<Longrightarrow> \<not> js_ws (hex_char d)"
  using hex_char_ne js_ws_small by blast

lemma byte_digits: "unat (b :: 8 word) div 16 < 16" "unat b mod 16 < 16"
proof -
  have "unat b < 256" using unsigned_less [of b] by simp
  then show "unat b div 16 < 16" "unat b mod 16 < 16" by auto
qed

lemma parse_hex_byte: "js_parseInt 16 (hex_byte b) = Some (uint b)"
proof -
  note d = byte_digits [of b]
  have "js_parseInt 16 (hex_byte b) = Some (int (unat b div 16 * 16 + unat b mod 16))"
    unfolding hex_byte_def
  proof (rule js_parseInt_two_digits)
    show "\<not> js_ws (hex_char (unat b div 16))" using d(1) by (rule hex_char_not_ws)
    show "hex_char (unat b div 16) \<noteq> CHR ''-''" "hex_char (unat b div 16) \<noteq> CHR ''+''"
      using d(1) by (simp_all add: hex_char_ne)
    show "hex_char (unat b mod 16) \<noteq> CHR ''x'' \<and> hex_char (unat b mod 16) \<noteq> CHR ''X''"
      using d(2) by (auto simp: hex_char_eq_iff)
  qed (use d in \<open>simp_all add: hex_char_digit\<close>)
  moreover have "unat b div 16 * 16 + unat b mod 16 = unat b" by (rule div_mult_mod_eq)
  ultimately show ?thesis by simp
qed

lemma filter_hex_byte: "filter (\<lambda>c. c \<noteq> CHR ''-'') (hex_byte b) = hex_byte b"
  using byte_digits [of b] by (simp add: hex_byte_def hex_char_ne)

section \<open>Bytes of a long\<close>

lemma assemble_high:
  "(push_bit 24 (ucast (byte_of w 0)) OR push_bit 16 (ucast (byte_of w 1)) OR
    push_bit 8 (ucast (byte_of w 2)) OR ucast (byte_of w 3) :: 32 word) = ucast (drop_bit 32 w)"
proof (rule bit_word_eqI)
  fix n :: nat assume "n < LENGTH(32)"
  then consider "n < 8" | "8 \<le> n \<and> n < 16" | "16 \<le> n \<and> n < 24" | "24 \<le> n \<and> n < 32"
    by fastforce
  then show "bit (push_bit 24 (ucast (byte_of w 0)) OR push_bit 16 (ucast (byte_of w 1)) OR
    push_bit 8 (ucast (byte_of w 2)) OR ucast (byte_of w 3) :: 32 word) n =
    bit (ucast (drop_bit 32 w) :: 32 word) n"
    by cases (auto simp: bit_simps byte_of_def)
qed

lemma assemble_low:
  "(push_bit 24 (ucast (byte_of w 4)) OR push_bit 16 (ucast (byte_of w 5)) OR
    push_bit 8 (ucast (byte_of w 6)) OR ucast (byte_of w 7) :: 32 word) = ucast w"
proof (rule bit_word_eqI)
  fix n :: nat assume "n < LENGTH(32)"
  then consider "n < 8" | "8 \<le> n \<and> n < 16" | "16 \<le> n \<and> n < 24" | "24 \<le> n \<and> n < 32"
    by fastforce
  then show "bit (push_bit 24 (ucast (byte_of w 4)) OR push_bit 16 (ucast (byte_of w 5)) OR
    push_bit 8 (ucast (byte_of w 6)) OR ucast (byte_of w 7) :: 32 word) n = bit (ucast w :: 32 word) n"
    by cases (auto simp: bit_simps byte_of_def)
qed

lemma assemble_word32:
  assumes "i = 0 \<or> i = 4"
  shows "(push_bit 24 (ucast (byte_of w (i + 0))) OR push_bit 16 (ucast (byte_of w (i + 1))) OR
          push_bit 8 (ucast (byte_of w (i + 2))) OR ucast (byte_of w (i + 3)) :: 32 word) =
         ucast (drop_bit (8 * (4 - i)) w)"
proof -
  have n: "(0::nat) + 0 = 0" "(0::nat) + 1 = 1" "(0::nat) + 2 = 2" "(0::nat) + 3 = 3"
    "(4::nat) + 0 = 4" "(4::nat) + 1 = 5" "(4::nat) + 2 = 6" "(4::nat) + 3 = 7"
    "8 * (4 - (0::nat)) = 32" "drop_bit (8 * (4 - (4::nat))) w = w"
    by simp_all
  from assms show ?thesis
    by (elim disjE; simp only: n assemble_high assemble_low)
qed

lemma long_fromBits_halves: "long_fromBits (ucast w) (ucast (drop_bit 32 w)) = w"
  by (rule bit_word_eqI) (auto simp: bit_simps long_fromBits_def)

section \<open>Hex strings of byte lists\<close>

abbreviation hex_bytes :: "8 word list \<Rightarrow> string" where
  "hex_bytes bs \<equiv> concat (map hex_byte bs)"

lemma length_hex_byte [simp]: "length (hex_byte b) = 2"
  by (simp add: hex_byte_def)

lemma drop_hex_bytes:
  "k \<le> length bs \<Longrightarrow> drop (2 * k) (hex_bytes bs @ r) = hex_bytes (drop k bs) @ r"
proof (induction bs arbitrary: k)
  case Nil
  then show ?case by simp
next
  case (Cons b bs)
  then show ?case by (cases k) simp_all
qed

lemma substring_hex_bytes:
  assumes k: "k < length bs"
  shows "substring (hex_bytes bs @ r) (2 * k) (2 * k + 2) = hex_byte (bs ! k)"
proof -
  have "drop (2 * k) (hex_bytes bs @ r) = hex_bytes (drop k bs) @ r"
    using k by (intro drop_hex_bytes) simp
  also have "hex_bytes (drop k bs) = hex_byte (bs ! k) @ hex_bytes (drop (Suc k) bs)"
    using k by (simp add: Cons_nth_drop_Suc [symmetric])
  finally show ?thesis by (simp add: substring_def)
qed

lemma js_shl32_byte: "js_shl32 (js_parseInt 16 (hex_byte b)) off = push_bit off (ucast b)"
  unfolding js_shl32_def parse_hex_byte option.case by (simp only: ucast_eq)

lemma upt_4: "[0..<4] = [0::nat, 1, 2, 3]"
  by (simp add: upt_rec)

lemma word32_from_hex_bytes:
  assumes "j + 4 \<le> length bs"
  shows "word32_from (hex_bytes bs @ r) (2 * j) =
    push_bit 24 (ucast (bs ! (j + 0))) OR push_bit 16 (ucast (bs ! (j + 1))) OR
    push_bit 8 (ucast (bs ! (j + 2))) OR ucast (bs ! (j + 3))"
proof -
  have s: "substring (hex_bytes bs @ r) (2 * j + 2 * k) (2 * j + 2 * k + 2) = hex_byte (bs ! (j + k))"
    if "k < 4" for k
    using substring_hex_bytes [of "j + k" bs r] that assms by (simp add: distrib_left)
  have s0: "substring (hex_bytes bs @ r) (2 * j + 2 * 0) (2 * j + 2 * 0 + 2) = hex_byte (bs ! (j + 0))"
    and s1: "substring (hex_bytes bs @ r) (2 * j + 2 * 1) (2 * j + 2 * 1 + 2) = hex_byte (bs ! (j + 1))"
    and s2: "substring (hex_bytes bs @ r) (2 * j + 2 * 2) (2 * j + 2 * 2 + 2) = hex_byte (bs ! (j + 2))"
    and s3: "substring (hex_bytes bs @ r) (2 * j + 2 * 3) (2 * j + 2 * 3 + 2) = hex_byte (bs ! (j + 3))"
    by (rule s; simp)+
  show ?thesis
    unfolding word32_from_def upt_4 fold_simps
    by (simp only: s0 s1 s2 s3 js_shl32_byte) (simp add: or.assoc)
qed

lemma word32_from_bytes_of:
  assumes "j + 4 \<le> length bs" "i = 0 \<or> i = 4"
    and "\<And>k. k < 4 \<Longrightarrow> bs ! (j + k) = byte_of w (i + k)"
  shows "word32_from (hex_bytes bs @ r) (2 * j) = ucast (drop_bit (8 * (4 - i)) w)"
proof -
  have "bs ! (j + 0) = byte_of w (i + 0)" "bs ! (j + 1) = byte_of w (i + 1)"
    "bs ! (j + 2) = byte_of w (i + 2)" "bs ! (j + 3) = byte_of w (i + 3)"
    by (rule assms(3); simp)+
  then show ?thesis
    using word32_from_hex_bytes [OF assms(1), of r] assemble_word32 [OF assms(2), of w]
    by (simp only:)
qed

lemma hexFor_split: "i \<le> j \<Longrightarrow> j \<le> k \<Longrightarrow> hexFor w i j @ hexFor w j k = hexFor w i k"
proof -
  assume "i \<le> j" "j \<le> k"
  then have "[i..<k] = [i..<j] @ [j..<k]"
    using upt_add_eq_append [of i j "k - j"] by simp
  then show ?thesis by (simp add: hexFor_def)
qed

lemma filter_hexFor: "filter (\<lambda>c. c \<noteq> CHR ''-'') (hexFor w i j) = hexFor w i j"
  by (simp add: hexFor_def filter_concat filter_hex_byte comp_def)

lemma uuid_toString_nodash:
  "filter (\<lambda>c. c \<noteq> CHR ''-'') (uuid_toString u) =
     hex_bytes (map (byte_of (uuid_high u)) [0..<8]) @ hex_bytes (map (byte_of (uuid_low u)) [0..<8])"
proof -
  have "filter (\<lambda>c. c \<noteq> CHR ''-'') (uuid_toString u) =
     (hexFor (uuid_high u) 0 4 @ hexFor (uuid_high u) 4 6 @ hexFor (uuid_high u) 6 8) @
     (hexFor (uuid_low u) 0 2 @ hexFor (uuid_low u) 2 8)"
    by (simp add: uuid_toString_def filter_hexFor)
  also have "\<dots> = hexFor (uuid_high u) 0 8 @ hexFor (uuid_low u) 0 8"
    by (simp add: hexFor_split)
  finally show ?thesis by (simp add: hexFor_def comp_def)
qed

section \<open>Round trip and shape of the printed form\<close>

text \<open>Parsing the printed form of any UUID gives the UUID back.\<close>

lemma uuid_roundtrip: "UUIDfromString (uuid_toString u) = u"
proof -
  define bs where "bs = map (byte_of (uuid_high u)) [0..<8] @ map (byte_of (uuid_low u)) [0..<8]"
  have len: "length bs = 16" by (simp add: bs_def)
  have nth: "bs ! k = (if k < 8 then byte_of (uuid_high u) k else byte_of (uuid_low u) (k - 8))"
    if "k < 16" for k
    using that by (simp add: bs_def nth_append)
  have t: "filter (\<lambda>c. c \<noteq> CHR ''-'') (uuid_toString u) = hex_bytes bs @ []"
    by (simp add: uuid_toString_nodash bs_def)
  have w0: "word32_from (hex_bytes bs @ []) (2 * 0) = ucast (drop_bit (8 * (4 - 0)) (uuid_high u))"
    by (rule word32_from_bytes_of) (simp_all add: len nth)
  have w4: "word32_from (hex_bytes bs @ []) (2 * 4) = ucast (drop_bit (8 * (4 - 4)) (uuid_high u))"
    by (rule word32_from_bytes_of) (simp_all add: len nth)
  have w8: "word32_from (hex_bytes bs @ []) (2 * 8) = ucast (drop_bit (8 * (4 - 0)) (uuid_low u))"
    by (rule word32_from_bytes_of) (simp_all add: len nth)
  have w12: "word32_from (hex_bytes bs @ []) (2 * 12) = ucast (drop_bit (8 * (4 - 4)) (uuid_low u))"
    by (rule word32_from_bytes_of) (simp_all add: len nth)
  show ?thesis
    using w0 w4 w8 w12 unfolding UUIDfromString_def t by (simp add: long_fromBits_halves)
qed

lemma length_hexFor [simp]: "length (hexFor w i j) = 2 * (j - i)"
  by (simp add: hexFor_def length_concat comp_def sum_list_triv)

lemma length_uuid_toString: "length (uuid_toString u) = 36"
  by (simp add: uuid_toString_def)

lemma hex_char_lower: "d < 16 \<Longrightarrow> lower_hex (hex_char d)"
  by (simp add: lower_hex_def of_char_hex_char)

lemma hexFor_lower: "c \<in> set (hexFor w i j) \<Longrightarrow> lower_hex c"
  by (auto simp: hexFor_def hex_byte_def byte_digits intro: hex_char_lower)

lemma list_all2_replicate_left:
  "list_all2 P (replicate n x) s \<longleftrightarrow> length s = n \<and> (\<forall>c \<in> set s. P x c)"
proof (induction s arbitrary: n)
  case Nil
  then show ?case by auto
next
  case (Cons a s)
  then show ?case by (cases n) auto
qed

lemma uuid_toString_shape: "uuid_shape (uuid_toString u)"
proof -
  let ?P = "\<lambda>m c. if m = CHR ''-'' then c = CHR ''-'' else lower_hex c"
  have p: "''xxxxxxxx-xxxx-xxxx-xxxx-xxxxxxxxxxxx'' =
     replicate 8 CHR ''x'' @ ''-'' @ replicate 4 CHR ''x'' @ ''-'' @ replicate 4 CHR ''x'' @ ''-'' @
     replicate 4 CHR ''x'' @ ''-'' @ replicate 12 CHR ''x''"
    by (simp add: numeral_eq_Suc)
  have h: "n = 2 * (j - i) \<Longrightarrow> list_all2 ?P (replicate n CHR ''x'') (hexFor w i j)" for w i j n
    by (auto simp: list_all2_replicate_left dest: hexFor_lower)
  have d: "list_all2 ?P ''-'' ''-''" by simp
  show ?thesis
    unfolding uuid_shape_def p uuid_toString_def
    by (rule list_all2_appendI d h | simp)+
qed

section \<open>Canonical strings are read back\<close>

lemma byte_of_assembled:
  "k < 8 \<Longrightarrow>
   byte_of (long_fromBits (asm32 (bs ! (i + 4)) (bs ! (i + 5)) (bs ! (i + 6)) (bs ! (i + 7)))
                          (asm32 (bs ! i) (bs ! (i + 1)) (bs ! (i + 2)) (bs ! (i + 3)))) k = bs ! (i + k)"
  apply (simp add: less_Suc_eq numeral_eq_Suc)
  apply (elim disjE; simp; rule bit_word_eqI;
         auto simp: bit_simps byte_of_def long_fromBits_def asm32_def dest: bit_imp_le_length)
  done

lemma lower_hex_char: "lower_hex c \<Longrightarrow> \<exists>d < 16. hex_char d = c"
proof -
  assume "lower_hex c"
  then have "(48::nat) \<le> of_char c \<and> of_char c \<le> (57::nat) \<or> (97::nat) \<le> of_char c \<and> of_char c \<le> (102::nat)"
    by (simp add: lower_hex_def Let_def)
  then show ?thesis
  proof
    assume a: "(48::nat) \<le> of_char c \<and> of_char c \<le> (57::nat)"
    then have l: "of_char c - 48 < (16::nat)" by linarith
    then have "hex_char (of_char c - 48) = c" using a by (subst hex_char_eq_iff [OF l]) auto
    with l show ?thesis by blast
  next
    assume a: "(97::nat) \<le> of_char c \<and> of_char c \<le> (102::nat)"
    then have l: "of_char c - 87 < (16::nat)" by linarith
    then have "hex_char (of_char c - 87) = c" using a by (subst hex_char_eq_iff [OF l]) auto
    with l show ?thesis by blast
  qed
qed

lemma lower_hex_pair: "lower_hex c1 \<Longrightarrow> lower_hex c2 \<Longrightarrow> \<exists>b. hex_byte b = [c1, c2]"
proof -
  assume "lower_hex c1" "lower_hex c2"
  then obtain d1 d2 where d: "d1 < 16" "hex_char d1 = c1" "d2 < 16" "hex_char d2 = c2"
    using lower_hex_char by blast
  define n where "n = 16 * d1 + d2"
  have "n < 2 ^ LENGTH(8)" using d by (simp add: n_def)
  then have "unat (of_nat n :: 8 word) = n" by (simp add: unsigned_of_nat take_bit_nat_eq_self)
  moreover have "n div 16 = d1" "n mod 16 = d2" using d by (simp_all add: n_def)
  ultimately have "hex_byte (of_nat n) = [c1, c2]"
    using d by (simp add: hex_byte_def)
  then show ?thesis by blast
qed

lemma lower_hex_bytes:
  "length s = 2 * n \<Longrightarrow> list_all lower_hex s \<Longrightarrow> \<exists>bs. length bs = n \<and> hex_bytes bs = s"
proof (induction n arbitrary: s)
  case 0
  then show ?case by simp
next
  case (Suc n)
  then obtain c1 c2 r where s: "s = c1 # c2 # r" "length r = 2 * n"
    by (cases s; cases "tl s") auto
  with Suc.prems obtain b where "hex_byte b = [c1, c2]" using lower_hex_pair by auto
  moreover obtain bs where "length bs = n" "hex_bytes bs = r" using Suc.IH s Suc.prems by auto
  ultimately show ?case using s by (intro exI [of _ "b # bs"]) simp
qed

lemma take_hex_bytes: "take (2 * k) (hex_bytes bs) = hex_bytes (take k bs)"
proof (induction bs arbitrary: k)
  case Nil
  then show ?case by simp
next
  case (Cons b bs)
  then show ?case by (cases k) simp_all
qed

lemma map_nth_upt: "j \<le> length xs \<Longrightarrow> map (nth xs) [i..<j] = take (j - i) (drop i xs)"
  by (rule nth_equalityI) simp_all

lemma hexFor_bytes:
  "(\<And>k. k < 8 \<Longrightarrow> byte_of w k = bs ! (off + k)) \<Longrightarrow> j \<le> 8 \<Longrightarrow> off + 8 \<le> length bs \<Longrightarrow>
   hexFor w i j = hex_bytes (take (j - i) (drop (off + i) bs))"
proof -
  assume b: "\<And>k. k < 8 \<Longrightarrow> byte_of w k = bs ! (off + k)" and j: "j \<le> 8" and l: "off + 8 \<le> length bs"
  have "map (byte_of w) [i..<j] = map (nth bs) [off + i..<off + j]"
    using b j by (intro nth_equalityI) (simp_all add: add.assoc)
  also have "\<dots> = take (j - i) (drop (off + i) bs)" using j l by (simp add: map_nth_upt)
  moreover have "hexFor w i j = hex_bytes (map (byte_of w) [i..<j])" by (simp add: hexFor_def comp_def)
  ultimately show ?thesis by (simp only:)
qed


lemma shape_split_hex:
  assumes "list_all2 (\<lambda>m c. if m = CHR ''-'' then c = CHR ''-'' else lower_hex c) (replicate n CHR ''x'' @ rest) s"
  obtains g r where "s = g @ r" "length g = n" "list_all lower_hex g"
    "list_all2 (\<lambda>m c. if m = CHR ''-'' then c = CHR ''-'' else lower_hex c) rest r"
  using assms by (auto simp: list_all2_append1 list_all2_replicate_left list_all_iff intro: that)

lemma shape_split_dash:
  assumes "list_all2 (\<lambda>m c. if m = CHR ''-'' then c = CHR ''-'' else lower_hex c) (CHR ''-'' # rest) s"
  obtains r where "s = CHR ''-'' # r"
    "list_all2 (\<lambda>m c. if m = CHR ''-'' then c = CHR ''-'' else lower_hex c) rest r"
  using assms by (auto simp: list_all2_Cons1 intro: that)

lemma uuid_shape_split:
  assumes "uuid_shape s"
  obtains g1 g2 g3 g4 g5 where "s = g1 @ ''-'' @ g2 @ ''-'' @ g3 @ ''-'' @ g4 @ ''-'' @ g5"
    "length g1 = 8" "length g2 = 4" "length g3 = 4" "length g4 = 4" "length g5 = 12"
    "list_all lower_hex (g1 @ g2 @ g3 @ g4 @ g5)"
proof -
  have p: "''xxxxxxxx-xxxx-xxxx-xxxx-xxxxxxxxxxxx'' =
     replicate 8 CHR ''x'' @ CHR ''-'' # replicate 4 CHR ''x'' @ CHR ''-'' # replicate 4 CHR ''x'' @
     CHR ''-'' # replicate 4 CHR ''x'' @ CHR ''-'' # replicate 12 CHR ''x'' @ []"
    by (simp add: numeral_eq_Suc)
  from assms have a: "list_all2 (\<lambda>m c. if m = CHR ''-'' then c = CHR ''-'' else lower_hex c)
     (replicate 8 CHR ''x'' @ CHR ''-'' # replicate 4 CHR ''x'' @ CHR ''-'' # replicate 4 CHR ''x'' @
      CHR ''-'' # replicate 4 CHR ''x'' @ CHR ''-'' # replicate 12 CHR ''x'' @ []) s"
    by (simp only: uuid_shape_def p)
  obtain g1 r1 where 1: "s = g1 @ r1" "length g1 = 8" "list_all lower_hex g1" and a1:
    "list_all2 (\<lambda>m c. if m = CHR ''-'' then c = CHR ''-'' else lower_hex c)
       (CHR ''-'' # replicate 4 CHR ''x'' @ CHR ''-'' # replicate 4 CHR ''x'' @
        CHR ''-'' # replicate 4 CHR ''x'' @ CHR ''-'' # replicate 12 CHR ''x'' @ []) r1"
    using a by (rule shape_split_hex)
  obtain r2 where 2: "r1 = CHR ''-'' # r2" and a2:
    "list_all2 (\<lambda>m c. if m = CHR ''-'' then c = CHR ''-'' else lower_hex c)
       (replicate 4 CHR ''x'' @ CHR ''-'' # replicate 4 CHR ''x'' @
        CHR ''-'' # replicate 4 CHR ''x'' @ CHR ''-'' # replicate 12 CHR ''x'' @ []) r2"
    using a1 by (rule shape_split_dash)
  obtain g2 r3 where 3: "r2 = g2 @ r3" "length g2 = 4" "list_all lower_hex g2" and a3:
    "list_all2 (\<lambda>m c. if m = CHR ''-'' then c = CHR ''-'' else lower_hex c)
       (CHR ''-'' # replicate 4 CHR ''x'' @ CHR ''-'' # replicate 4 CHR ''x'' @ CHR ''-'' # replicate 12 CHR ''x'' @ []) r3"
    using a2 by (rule shape_split_hex)
  obtain r4 where 4: "r3 = CHR ''-'' # r4" and a4:
    "list_all2 (\<lambda>m c. if m = CHR ''-'' then c = CHR ''-'' else lower_hex c)
       (replicate 4 CHR ''x'' @ CHR ''-'' # replicate 4 CHR ''x'' @ CHR ''-'' # replicate 12 CHR ''x'' @ []) r4"
    using a3 by (rule shape_split_dash)
  obtain g3 r5 where 5: "r4 = g3 @ r5" "length g3 = 4" "list_all lower_hex g3" and a5:
    "list_all2 (\<lambda>m c. if m = CHR ''-'' then c = CHR ''-'' else lower_hex c)
       (CHR ''-'' # replicate 4 CHR ''x'' @ CHR ''-'' # replicate 12 CHR ''x'' @ []) r5"
    using a4 by (rule shape_split_hex)
  obtain r6 where 6: "r5 = CHR ''-'' # r6" and a6:
    "list_all2 (\<lambda>m c. if m = CHR ''-'' then c = CHR ''-'' else lower_hex c)
       (replicate 4 CHR ''x'' @ CHR ''-'' # replicate 12 CHR ''x'' @ []) r6"
    using a5 by (rule shape_split_dash)
  obtain g4 r7 where 7: "r6 = g4 @ r7" "length g4 = 4" "list_all lower_hex g4" and a7:
    "list_all2 (\<lambda>m c. if m = CHR ''-'' then c = CHR ''-'' else lower_hex c)
       (CHR ''-'' # replicate 12 CHR ''x'' @ []) r7"
    using a6 by (rule shape_split_hex)
  obtain r8 where 8: "r7 = CHR ''-'' # r8" and a8:
    "list_all2 (\<lambda>m c. if m = CHR ''-'' then c = CHR ''-'' else lower_hex c) (replicate 12 CHR ''x'' @ []) r8"
    using a7 by (rule shape_split_dash)
  obtain g5 r9 where 9: "r8 = g5 @ r9" "length g5 = 12" "list_all lower_hex g5" and
    "list_all2 (\<lambda>m c. if m = CHR ''-'' then c = CHR ''-'' else lower_hex c) [] r9"
    using a8 by (rule shape_split_hex)
  then have "r9 = []" by simp
  show ?thesis
    by (rule that [of g1 g2 g3 g4 g5]) (simp_all add: 1 2 3 4 5 6 7 8 9 \<open>r9 = []\<close>)
qed

lemma filter_lower_hex: "list_all lower_hex g \<Longrightarrow> filter (\<lambda>c. c \<noteq> CHR ''-'') g = g"
  by (induction g) (auto simp: lower_hex_def)

text \<open>Printing the UUID read from a string in canonical form gives the string back.\<close>

lemma uuid_toString_of_shape:
  assumes "uuid_shape s"
  shows "uuid_toString (UUIDfromString s) = s"
proof -
  obtain g1 g2 g3 g4 g5 where s: "s = g1 @ ''-'' @ g2 @ ''-'' @ g3 @ ''-'' @ g4 @ ''-'' @ g5"
    and l: "length g1 = 8" "length g2 = 4" "length g3 = 4" "length g4 = 4" "length g5 = 12"
    and h: "list_all lower_hex (g1 @ g2 @ g3 @ g4 @ g5)"
    using assms by (rule uuid_shape_split)
  define t where "t = g1 @ g2 @ g3 @ g4 @ g5"
  obtain bs where bs: "length bs = 16" "hex_bytes bs = t"
    using lower_hex_bytes [of t 16] h l by (auto simp: t_def)
  have f: "filter (\<lambda>c. c \<noteq> CHR ''-'') s = hex_bytes bs @ []"
    using h by (simp add: s bs t_def filter_lower_hex)
  have w: "word32_from (hex_bytes bs @ []) (2 * j) =
      asm32 (bs ! (j + 0)) (bs ! (j + 1)) (bs ! (j + 2)) (bs ! (j + 3))" if "j + 4 \<le> 16" for j
    using word32_from_hex_bytes [of j bs "[]"] that bs(1) by (simp add: asm32_def)
  have hi: "uuid_high (UUIDfromString s) =
      long_fromBits (asm32 (bs ! (0 + 4)) (bs ! (0 + 5)) (bs ! (0 + 6)) (bs ! (0 + 7)))
                    (asm32 (bs ! 0) (bs ! (0 + 1)) (bs ! (0 + 2)) (bs ! (0 + 3)))"
    using w [of 0] w [of 4] by (simp add: UUIDfromString_def f Let_def)
  have lo: "uuid_low (UUIDfromString s) =
      long_fromBits (asm32 (bs ! (8 + 4)) (bs ! (8 + 5)) (bs ! (8 + 6)) (bs ! (8 + 7)))
                    (asm32 (bs ! 8) (bs ! (8 + 1)) (bs ! (8 + 2)) (bs ! (8 + 3)))"
    using w [of 8] w [of 12] by (simp add: UUIDfromString_def f Let_def)
  have bh: "byte_of (uuid_high (UUIDfromString s)) k = bs ! (0 + k)" if "k < 8" for k
    unfolding hi by (rule byte_of_assembled [OF that])
  have bl: "byte_of (uuid_low (UUIDfromString s)) k = bs ! (8 + k)" if "k < 8" for k
    unfolding lo by (rule byte_of_assembled [OF that])
  have gh: "hexFor (uuid_high (UUIDfromString s)) i j = take (2 * (j - i)) (drop (2 * i) t)"
    if "i \<le> j" "j \<le> 8" for i j
  proof -
    have "drop (2 * i) t = hex_bytes (drop i bs)"
      using drop_hex_bytes [of i bs "[]"] that bs by simp
    then show ?thesis
      using hexFor_bytes [of "uuid_high (UUIDfromString s)" bs 0 j i, OF bh that(2)] bs
      by (simp add: take_hex_bytes [symmetric])
  qed
  have gl: "hexFor (uuid_low (UUIDfromString s)) i j = take (2 * (j - i)) (drop (16 + 2 * i) t)"
    if "i \<le> j" "j \<le> 8" for i j
  proof -
    have "drop (2 * (8 + i)) t = hex_bytes (drop (8 + i) bs)"
      using drop_hex_bytes [of "8 + i" bs "[]"] that bs by simp
    then show ?thesis
      using hexFor_bytes [of "uuid_low (UUIDfromString s)" bs 8 j i, OF bl that(2)] bs
      by (simp add: take_hex_bytes [symmetric])
  qed
  have e: "hexFor (uuid_high (UUIDfromString s)) 0 4 = g1" "hexFor (uuid_high (UUIDfromString s)) 4 6 = g2"
    "hexFor (uuid_high (UUIDfromString s)) 6 8 = g3" "hexFor (uuid_low (UUIDfromString s)) 0 2 = g4"
    "hexFor (uuid_low (UUIDfromString s)) 2 8 = g5"
    using gh [of 0 4] gh [of 4 6] gh [of 6 8] gl [of 0 2] gl [of 2 8] l by (simp_all add: t_def)
  show ?thesis
    unfolding uuid_toString_def e by (simp add: s)
qed

end
