(* ===== verification/Transit_Value.thy ===== *)
theory Transit_Value
  imports Uuid
begin

text \<open>
  The values the program handles: JSON values as \<^verbatim>\<open>JSON.parse\<close> yields them (the
  request and response bodies that axios carries) and the decoded transit values of the
  \<^verbatim>\<open>transit-js\<close> library (the \<^verbatim>\<open>transitReader.read\<close> results of \<^verbatim>\<open>src/src/index.ts\<close>
  lines 64 and 90). A transit map (\<^verbatim>\<open>TransitArrayMap\<close>) is kept as its list of entries in
  insertion order, which is the order \<^verbatim>\<open>keySet()\<close> returns; keys are arbitrary values.
  Numbers are the integers JavaScript represents exactly (magnitude below \<open>2^53\<close>);
  floating-point numbers are not modelled.
\<close>

datatype json =
    JNull
  | JBool bool
  | JNum int
  | JStr string
  | JArr "json list"
  | JObj "(string \<times> json) list"

text \<open>
  Decoded values: \<^verbatim>\<open>null\<close>, booleans, integers, strings, keywords (\<^verbatim>\<open>transit.keyword\<close>,
  whose field \<^verbatim>\<open>_name\<close> is the namespaced name such as \<^verbatim>\<open>workflow/status\<close>), symbols,
  UUIDs, dates (milliseconds since the epoch), arrays, maps and tagged values
  (\<^verbatim>\<open>TaggedValue\<close> with fields \<^verbatim>\<open>tag\<close> and \<^verbatim>\<open>rep\<close>).
\<close>

datatype tv =
    TNull
  | TBool bool
  | TInt int
  | TStr string
  | TKw string
  | TSym string
  | TUuid uuid
  | TDate int
  | TArr "tv list"
  | TMap "(tv \<times> tv) list"
  | TTagged string tv

text \<open>
  \<^verbatim>\<open>_.invoke(v, 'toString')\<close> (line 76): \<^verbatim>\<open>undefined\<close> for \<^verbatim>\<open>undefined\<close> and \<^verbatim>\<open>null\<close>,
  otherwise the value's own \<^verbatim>\<open>toString\<close>. Strings, numbers, booleans, keywords
  (\<^verbatim>\<open>":" + _name\<close>), symbols (\<^verbatim>\<open>_name\<close>), UUIDs and arrays (\<^verbatim>\<open>join(",")\<close>, with
  \<^verbatim>\<open>null\<close> elements printed empty) are printed as transit-js and ECMAScript define.
  Dates, maps and tagged values print in a form that depends on the runtime (time zone,
  library version): the parameter \<open>rt\<close> stands for that rendering.
\<close>

fun js_toString :: "(tv \<Rightarrow> string) \<Rightarrow> tv \<Rightarrow> string" where
  "js_toString rt TNull = ''null''"
| "js_toString rt (TBool b) = (if b then ''true'' else ''false'')"
| "js_toString rt (TInt i) = int_dec i"
| "js_toString rt (TStr s) = s"
| "js_toString rt (TKw n) = CHR '':'' # n"
| "js_toString rt (TSym n) = n"
| "js_toString rt (TUuid u) = uuid_toString u"
| "js_toString rt (TDate ms) = rt (TDate ms)"
| "js_toString rt (TArr vs) =
     js_join '','' (map (\<lambda>v. if v = TNull then [] else js_toString rt v) vs)"
| "js_toString rt (TMap m) = rt (TMap m)"
| "js_toString rt (TTagged t v) = rt (TTagged t v)"

definition invoke_toString :: "(tv \<Rightarrow> string) \<Rightarrow> tv option \<Rightarrow> string option" where
  "invoke_toString rt v =
     (case v of None \<Rightarrow> None | Some TNull \<Rightarrow> None | Some x \<Rightarrow> Some (js_toString rt x))"

lemma invoke_toString_uuid [simp]: "invoke_toString rt (Some (TUuid u)) = Some (uuid_toString u)"
  by (simp add: invoke_toString_def)

lemma invoke_toString_str [simp]: "invoke_toString rt (Some (TStr s)) = Some s"
  by (simp add: invoke_toString_def)

lemma invoke_toString_None [simp]: "invoke_toString rt None = None"
  by (simp add: invoke_toString_def)

end
