(* ===== verification/Accessor.thy ===== *)
theory Accessor
  imports Transit_Value
begin

text \<open>
  \<^verbatim>\<open>extractFromTransitMapByName(transitMap, _name)\<close> (\<^verbatim>\<open>src/src/index.ts\<close> lines 84-87):
  \<^verbatim>\<open>_.find(transitMap.keySet(), { _name })\<close> picks the first key, in \<^verbatim>\<open>keySet()\<close> order,
  that is an object whose field \<^verbatim>\<open>_name\<close> is strictly equal to the name; transit
  keywords and symbols both carry that field, every other value fails the match. Then
  \<^verbatim>\<open>transitMap.get(key)\<close> returns the value of the first entry whose key equals the found
  key, or \<^verbatim>\<open>undefined\<close> when no key was found. A first argument that is not a transit map
  (\<^verbatim>\<open>undefined\<close>, \<^verbatim>\<open>null\<close>, a string, an array, ...) has no \<^verbatim>\<open>keySet\<close> method: the call
  throws a \<^verbatim>\<open>TypeError\<close>.
\<close>

fun key_name :: "tv \<Rightarrow> string option" where
  "key_name (TKw n) = Some n"
| "key_name (TSym n) = Some n"
| "key_name _ = None"

definition keySet :: "(tv \<times> tv) list \<Rightarrow> tv list" where
  "keySet m = map fst m"

definition map_get :: "(tv \<times> tv) list \<Rightarrow> tv option \<Rightarrow> tv option" where
  "map_get m k =
     (case k of None \<Rightarrow> None | Some key \<Rightarrow> map_option snd (find (\<lambda>e. fst e = key) m))"

definition extractFromTransitMapByName :: "tv option \<Rightarrow> string \<Rightarrow> (tv option) result" where
  "extractFromTransitMapByName transitMap name =
     (case transitMap of
        Some (TMap m) \<Rightarrow> Inr (map_get m (find (\<lambda>k. key_name k = Some name) (keySet m)))
      | _ \<Rightarrow> Inl (TypeError ''transitMap.keySet is not a function''))"

text \<open>
  The contract of the accessor (spec \<section>4.2): the value of the first entry whose key
  carries the name, looked up directly by name rather than through a key object.
\<close>

definition field_by_name :: "(tv \<times> tv) list \<Rightarrow> string \<Rightarrow> tv option" where
  "field_by_name m name = map_option snd (find (\<lambda>e. key_name (fst e) = Some name) m)"

section \<open>Lemmas\<close>

lemma find_map_fst:
  "find P (map fst m) = map_option fst (find (\<lambda>e. P (fst e)) m)"
  by (induction m) auto

lemma find_first_eq_key:
  assumes "find (\<lambda>e. key_name (fst e) = Some name) m = Some (k, v)"
  shows "find (\<lambda>e. fst e = k) m = Some (k, v)"
  using assms
proof (induction m)
  case Nil
  then show ?case by simp
next
  case (Cons e m)
  show ?case
  proof (cases "key_name (fst e) = Some name")
    case True
    with Cons.prems show ?thesis by simp
  next
    case False
    with Cons.prems have m: "find (\<lambda>e. key_name (fst e) = Some name) m = Some (k, v)"
      by simp
    then have "key_name k = Some name" by (auto dest: find_SomeD)
    with False have "fst e \<noteq> k" by auto
    with m Cons.IH show ?thesis by simp
  qed
qed

lemma extract_TMap:
  "extractFromTransitMapByName (Some (TMap m)) name = Inr (field_by_name m name)"
proof (cases "find (\<lambda>e. key_name (fst e) = Some name) m")
  case None
  then show ?thesis
    by (simp add: extractFromTransitMapByName_def keySet_def find_map_fst map_get_def
        field_by_name_def)
next
  case (Some e)
  obtain k v where e: "e = (k, v)" by (cases e)
  with Some have "find (\<lambda>e. fst e = k) m = Some (k, v)"
    by (simp add: find_first_eq_key)
  with Some e show ?thesis
    by (simp add: extractFromTransitMapByName_def keySet_def find_map_fst map_get_def
        field_by_name_def)
qed

lemma field_by_name_absent:
  "(\<forall>k \<in> fst ` set m. key_name k \<noteq> Some name) \<Longrightarrow> field_by_name m name = None"
  by (force simp: field_by_name_def find_None_iff)

lemma field_by_name_unique:
  assumes "(k, v) \<in> set m" "key_name k = Some name"
    and "\<forall>e \<in> set m. key_name (fst e) = Some name \<longrightarrow> e = (k, v)"
  shows "field_by_name m name = Some v"
proof -
  have "find (\<lambda>e. key_name (fst e) = Some name) m \<noteq> None"
    using assms(1,2) unfolding find_None_iff by fastforce
  then obtain e where "find (\<lambda>e. key_name (fst e) = Some name) m = Some e" by blast
  moreover from this have "e = (k, v)" using assms(3) by (auto dest: find_SomeD)
  ultimately show ?thesis by (simp add: field_by_name_def)
qed

lemma extract_not_map:
  "(\<forall>m. v \<noteq> Some (TMap m)) \<Longrightarrow>
   extractFromTransitMapByName v name = Inl (TypeError ''transitMap.keySet is not a function'')"
  by (auto simp: extractFromTransitMapByName_def split: option.splits tv.splits)

text \<open>C3 (refinement): the library composition \<^verbatim>\<open>transitMap.get(_.find(transitMap.keySet(),
  { _name }))\<close> implements the accessor contract of spec \<section>4.2, lookup by name: on a transit
  map it returns the value of the first entry whose key is a keyword or symbol with that
  name (\<^verbatim>\<open>undefined\<close> when there is none); on any other value it throws a \<^verbatim>\<open>TypeError\<close>.\<close>

theorem extract_refinement:
  "extractFromTransitMapByName v name =
     (case v of
        Some (TMap m) \<Rightarrow> Inr (field_by_name m name)
      | _ \<Rightarrow> Inl (TypeError ''transitMap.keySet is not a function''))"
proof (cases "\<exists>m. v = Some (TMap m)")
  case True
  then show ?thesis by (auto simp: extract_TMap)
next
  case False
  then show ?thesis
    by (simp add: extract_not_map) (auto split: option.splits tv.splits)
qed

end
