(* ===== verification/Json_Text.thy ===== *)
theory Json_Text
  imports Transit_Value
begin

text \<open>
  The JSON text layer that \<^verbatim>\<open>src/src/index.ts\<close> crosses three times: the transit reader
  parses a text with \<^verbatim>\<open>JSON.parse\<close> before decoding it (lines 64 and 90), the response body
  is turned back into text with \<^verbatim>\<open>JSON.stringify\<close> (line 64), and the writer's text is parsed
  with \<^verbatim>\<open>JSON.parse\<close> (line 98). The two built-ins are modelled from ECMA-262
  (\<^verbatim>\<open>JSON.stringify\<close>, \<^verbatim>\<open>QuoteJSONString\<close>) and ECMA-404 (the JSON grammar) on the
  \<open>json\<close> values of the development. A character is one code unit below 256. Numbers are
  integers: a fraction or an exponent is outside the fragment (\<open>Unsupported\<close>), as is a
  \<^verbatim>\<open>\u\<close> escape of a code unit above 255. \<^verbatim>\<open>JSON.parse\<close> keeps the first position and
  the last value of a repeated member name.

  The parser descends into arrays and objects with a fuel argument that bounds the number of
  nested calls; running out is the value \<open>Inl FuelExhausted\<close>, which no JavaScript run
  produces. \<open>json_parse\<close> starts with one more than the length of the text, which is
  always enough: every call consumes at least one character (\<open>parse_consumes\<close>), so the
  fuel never reaches zero (\<open>parse_fuel_enough\<close>, \<open>json_parse_total\<close>). Printing a
  value and parsing the text gives the value back whenever its objects have distinct member
  names, as JavaScript objects do (\<open>json_parse_stringify\<close>).
\<close>

section \<open>JSON.stringify\<close>

text \<open>\<^verbatim>\<open>QuoteJSONString\<close>: the short escapes, \<^verbatim>\<open>\u00xx\<close> with lowercase hex digits for the
  other control characters, every other code unit as it is.\<close>

definition quote_char :: "char \<Rightarrow> string" where
  "quote_char c =
     (let n = (of_char c :: nat) in
      if n = 8 then [CHR 0x5C, CHR ''b'']
      else if n = 9 then [CHR 0x5C, CHR ''t'']
      else if n = 10 then [CHR 0x5C, CHR ''n'']
      else if n = 12 then [CHR 0x5C, CHR ''f'']
      else if n = 13 then [CHR 0x5C, CHR ''r'']
      else if n = 34 then [CHR 0x5C, CHR 0x22]
      else if n = 92 then [CHR 0x5C, CHR 0x5C]
      else if n < 32 then [CHR 0x5C, CHR ''u'', CHR ''0'', CHR ''0'', hex_char (n div 16), hex_char (n mod 16)]
      else [c])"

definition quote_json :: "string \<Rightarrow> string" where
  "quote_json s = CHR 0x22 # concat (map quote_char s) @ [CHR 0x22]"

fun json_stringify :: "json \<Rightarrow> string" where
  "json_stringify JNull = ''null''"
| "json_stringify (JBool b) = (if b then ''true'' else ''false'')"
| "json_stringify (JNum i) = int_dec i"
| "json_stringify (JStr s) = quote_json s"
| "json_stringify (JArr xs) = CHR ''['' # js_join '','' (map json_stringify xs) @ '']''"
| "json_stringify (JObj kvs) =
     CHR ''{'' # js_join '','' (map (\<lambda>(k, v). quote_json k @ CHR '':'' # json_stringify v) kvs) @ ''}''"

section \<open>JSON.parse\<close>

definition json_ws :: "char \<Rightarrow> bool" where
  "json_ws c \<longleftrightarrow> c \<in> {CHR '' '', CHR 0x09, CHR 0x0A, CHR 0x0D}"

definition skip_ws :: "string \<Rightarrow> string" where
  "skip_ws s = dropWhile json_ws s"

definition is_digit :: "char \<Rightarrow> bool" where
  "is_digit c \<longleftrightarrow> 48 \<le> (of_char c :: nat) \<and> (of_char c :: nat) \<le> 57"

definition hex_val :: "char \<Rightarrow> nat option" where
  "hex_val c = (case digit_val c of Some d \<Rightarrow> if d < 16 then Some d else None | None \<Rightarrow> None)"

definition hex4 :: "string \<Rightarrow> nat option" where
  "hex4 cs =
     (case map hex_val cs of
        [Some a, Some b, Some c, Some d] \<Rightarrow> Some (((a * 16 + b) * 16 + c) * 16 + d)
      | _ \<Rightarrow> None)"

definition short_escape :: "char \<Rightarrow> char option" where
  "short_escape e =
     (if e = CHR 0x22 then Some (CHR 0x22) else if e = CHR 0x5C then Some (CHR 0x5C)
      else if e = CHR ''/'' then Some (CHR ''/'') else if e = CHR ''b'' then Some (CHR 0x08)
      else if e = CHR ''f'' then Some (CHR 0x0C) else if e = CHR ''n'' then Some (CHR 0x0A)
      else if e = CHR ''r'' then Some (CHR 0x0D) else if e = CHR ''t'' then Some (CHR 0x09)
      else None)"

text \<open>The characters of a string literal after its opening quote, up to the closing one.\<close>

fun parse_chars :: "string \<Rightarrow> (string \<times> string) result" where
  "parse_chars [] = Inl (SyntaxError ''Unterminated string in JSON'')"
| "parse_chars (c # cs) =
     (if c = CHR 0x22 then Inr ([], cs)
      else if c = CHR 0x5C then
        (case cs of
           [] \<Rightarrow> Inl (SyntaxError ''Unterminated string in JSON'')
         | e # cs' \<Rightarrow>
             if e = CHR ''u'' then
               (case hex4 (take 4 cs') of
                  None \<Rightarrow> Inl (SyntaxError ''Bad Unicode escape in JSON'')
                | Some n \<Rightarrow>
                    if n < 256 then bindr (parse_chars (drop 4 cs')) (\<lambda>(s, r). Inr (char_of n # s, r))
                    else Inl (Unsupported ''code unit above 255''))
             else
               (case short_escape e of
                  None \<Rightarrow> Inl (SyntaxError ''Bad escaped character in JSON'')
                | Some ch \<Rightarrow> bindr (parse_chars cs') (\<lambda>(s, r). Inr (ch # s, r))))
      else if (of_char c :: nat) < 32 then Inl (SyntaxError ''Bad control character in string literal'')
      else bindr (parse_chars cs) (\<lambda>(s, r). Inr (c # s, r)))"

text \<open>A number: an optional minus sign, then \<^verbatim>\<open>0\<close> or a digit sequence not starting with
  \<^verbatim>\<open>0\<close>.\<close>

definition parse_number :: "string \<Rightarrow> (json \<times> string) result" where
  "parse_number s =
     (let (neg, s1) = (case s of c # t \<Rightarrow> if c = CHR ''-'' then (True, t) else (False, s) | [] \<Rightarrow> (False, s));
          ds = (if take 1 s1 = ''0'' then ''0'' else takeWhile is_digit s1);
          r = drop (length ds) s1 in
      if ds = [] then Inl (SyntaxError ''No number after minus sign in JSON'')
      else if take 1 r = ''.'' \<or> take 1 r = ''e'' \<or> take 1 r = ''E''
      then Inl (Unsupported ''number with a fraction or an exponent'')
      else Inr (JNum ((if neg then -1 else 1) * int (digits_value 10 (map (\<lambda>c. of_char c - 48) ds))), r))"

text \<open>Member insertion of \<^verbatim>\<open>JSON.parse\<close> (\<^verbatim>\<open>CreateDataProperty\<close>): a repeated name keeps its
  position and takes the later value.\<close>

definition put_member :: "(string \<times> json) list \<Rightarrow> string \<Rightarrow> json \<Rightarrow> (string \<times> json) list" where
  "put_member kvs k v =
     (if k \<in> set (map fst kvs) then map (\<lambda>(k', v'). if k' = k then (k', v) else (k', v')) kvs
      else kvs @ [(k, v)])"

definition members_object :: "(string \<times> json) list \<Rightarrow> (string \<times> json) list" where
  "members_object kvs = foldl (\<lambda>acc (k, v). put_member acc k v) [] kvs"

text \<open>A value that is neither a string, an array nor an object: a literal name or a
  number.\<close>

definition parse_scalar :: "string \<Rightarrow> (json \<times> string) result" where
  "parse_scalar s =
     (case s of
        [] \<Rightarrow> Inl (SyntaxError ''Unexpected end of JSON input'')
      | c # cs \<Rightarrow>
          if c = CHR ''n'' then (if take 3 cs = ''ull'' then Inr (JNull, drop 3 cs)
                                  else Inl (SyntaxError ''Unexpected token in JSON''))
          else if c = CHR ''t'' then (if take 3 cs = ''rue'' then Inr (JBool True, drop 3 cs)
                                  else Inl (SyntaxError ''Unexpected token in JSON''))
          else if c = CHR ''f'' then (if take 4 cs = ''alse'' then Inr (JBool False, drop 4 cs)
                                  else Inl (SyntaxError ''Unexpected token in JSON''))
          else if c = CHR ''-'' \<or> is_digit c then parse_number s
          else Inl (SyntaxError ''Unexpected token in JSON''))"

text \<open>
  A value, the elements of an array after its \<^verbatim>\<open>[\<close> and the members of an object after
  its \<^verbatim>\<open>{\<close>, each starting at a character that is not white space. The fuel decreases
  on entering an array or an object and after each element or member.
\<close>

function parse_value :: "nat \<Rightarrow> string \<Rightarrow> (json \<times> string) result"
and parse_elems :: "nat \<Rightarrow> string \<Rightarrow> (json list \<times> string) result"
and parse_members :: "nat \<Rightarrow> string \<Rightarrow> ((string \<times> json) list \<times> string) result"
where
  "parse_value 0 s = Inl FuelExhausted"
| "parse_value (Suc n) s =
     (case s of
        [] \<Rightarrow> Inl (SyntaxError ''Unexpected end of JSON input'')
      | c # cs \<Rightarrow>
          if c = CHR 0x22 then bindr (parse_chars cs) (\<lambda>(str, r). Inr (JStr str, r))
          else if c = CHR ''['' then
            (let t = skip_ws cs in
             if take 1 t = '']'' then Inr (JArr [], drop 1 t)
             else bindr (parse_elems n t) (\<lambda>(xs, r). Inr (JArr xs, r)))
          else if c = CHR ''{'' then
            (let t = skip_ws cs in
             if take 1 t = ''}'' then Inr (JObj [], drop 1 t)
             else bindr (parse_members n t) (\<lambda>(kvs, r). Inr (JObj (members_object kvs), r)))
          else parse_scalar s)"
| "parse_elems 0 s = Inl FuelExhausted"
| "parse_elems (Suc n) s =
     bindr (parse_value (Suc n) s) (\<lambda>(v, r).
       (case skip_ws r of
          c # t \<Rightarrow>
            if c = CHR '','' then bindr (parse_elems n (skip_ws t)) (\<lambda>(vs, r'). Inr (v # vs, r'))
            else if c = CHR '']'' then Inr ([v], t)
            else Inl (SyntaxError ''Unexpected token in JSON'')
        | [] \<Rightarrow> Inl (SyntaxError ''Unexpected end of JSON input'')))"
| "parse_members 0 s = Inl FuelExhausted"
| "parse_members (Suc n) s =
     (case s of
        c # cs \<Rightarrow>
          if c = CHR 0x22 then
            bindr (parse_chars cs) (\<lambda>(k, r).
              (case skip_ws r of
                 d # t \<Rightarrow>
                   if d = CHR '':'' then
                     bindr (parse_value (Suc n) (skip_ws t)) (\<lambda>(v, r2).
                       (case skip_ws r2 of
                          e # t2 \<Rightarrow>
                            if e = CHR '','' then bindr (parse_members n (skip_ws t2)) (\<lambda>(kvs, r3). Inr ((k, v) # kvs, r3))
                            else if e = CHR ''}'' then Inr ([(k, v)], t2)
                            else Inl (SyntaxError ''Unexpected token in JSON'')
                        | [] \<Rightarrow> Inl (SyntaxError ''Unexpected end of JSON input'')))
                   else Inl (SyntaxError ''Unexpected token in JSON'')
               | [] \<Rightarrow> Inl (SyntaxError ''Unexpected end of JSON input'')))
          else Inl (SyntaxError ''Unexpected token in JSON'')
      | [] \<Rightarrow> Inl (SyntaxError ''Unexpected end of JSON input''))"
  by pat_completeness auto
termination
  by (relation "measure (case_sum (\<lambda>(n, s). 2 * n) (case_sum (\<lambda>(n, s). 2 * n + 1) (\<lambda>(n, s). 2 * n + 1)))")
    auto

definition json_parse :: "string \<Rightarrow> json result" where
  "json_parse s =
     bindr (parse_value (Suc (length s)) (skip_ws s)) (\<lambda>(j, r).
       if skip_ws r = [] then Inr j
       else Inl (SyntaxError ''Unexpected non-whitespace character after JSON''))"

section \<open>Vocabulary of the proofs\<close>

text \<open>What may follow a value inside a text: nothing, or the punctuation that closes or
  continues the enclosing array or object.\<close>

definition value_end :: "string \<Rightarrow> bool" where
  "value_end r \<longleftrightarrow> take 1 r \<in> {[], '','', '']'', ''}''}"

text \<open>The values \<^verbatim>\<open>JSON.stringify\<close> receives from a JavaScript program: the member names
  of an object are distinct.\<close>

fun unique_keys :: "json \<Rightarrow> bool" where
  "unique_keys (JArr xs) = list_all unique_keys xs"
| "unique_keys (JObj kvs) = (distinct (map fst kvs) \<and> list_all (\<lambda>(k, v). unique_keys v) kvs)"
| "unique_keys _ = True"

section \<open>Termination: the fuel is enough\<close>

lemma length_skip_ws: "length (skip_ws s) \<le> length s"
  by (simp add: skip_ws_def length_dropWhile_le)

lemma parse_chars_consumes: "parse_chars s = Inr (x, r) \<Longrightarrow> length r < length s"
proof (induction s arbitrary: x r rule: parse_chars.induct)
  case 1
  then show ?case by simp
next
  case (2 c cs)
  then show ?case
    by (auto simp: js_simps split: if_splits list.splits option.splits prod.splits) fastforce+
qed

lemma parse_number_consumes: "parse_number s = Inr (x, r) \<Longrightarrow> length r < length s"
  by (auto simp: parse_number_def Let_def split: list.splits if_splits prod.splits)

lemma parse_scalar_consumes: "parse_scalar s = Inr (x, r) \<Longrightarrow> length r < length s"
  by (auto simp: parse_scalar_def split: list.splits if_splits dest: parse_number_consumes)

lemma skip_ws_le: "length r < length (skip_ws t) \<Longrightarrow> length r < length t"
  using length_skip_ws [of t] by simp

lemma skip_ws_Cons_less: "skip_ws r = c # t \<Longrightarrow> length t < length r"
  using length_skip_ws [of r] by simp

lemma parse_members_SucE:
  assumes "parse_members (Suc n) s = Inr (kvs, r)"
  shows "\<exists>cs k r0 t v r2 e t2. s = CHR 0x22 # cs \<and> parse_chars cs = Inr (k, r0) \<and>
           skip_ws r0 = CHR '':'' # t \<and> parse_value (Suc n) (skip_ws t) = Inr (v, r2) \<and>
           skip_ws r2 = e # t2 \<and>
           ((e = CHR '','' \<and> (\<exists>kvs'. parse_members n (skip_ws t2) = Inr (kvs', r) \<and> kvs = (k, v) # kvs')) \<or>
            (e = CHR ''}'' \<and> r = t2 \<and> kvs = [(k, v)]))"
proof -
  obtain cs where s: "s = CHR 0x22 # cs"
    using assms by (cases s) (auto split: if_split_asm)
  with assms obtain k r0 where pc: "parse_chars cs = Inr (k, r0)"
    and m1: "(case skip_ws r0 of
                 d # t \<Rightarrow>
                   if d = CHR '':'' then
                     bindr (parse_value (Suc n) (skip_ws t)) (\<lambda>(v, r2).
                       (case skip_ws r2 of
                          e # t2 \<Rightarrow>
                            if e = CHR '','' then bindr (parse_members n (skip_ws t2)) (\<lambda>(kvs, r3). Inr ((k, v) # kvs, r3))
                            else if e = CHR ''}'' then Inr ([(k, v)], t2)
                            else Inl (SyntaxError ''Unexpected token in JSON'')
                        | [] \<Rightarrow> Inl (SyntaxError ''Unexpected end of JSON input'')))
                   else Inl (SyntaxError ''Unexpected token in JSON'')
               | [] \<Rightarrow> Inl (SyntaxError ''Unexpected end of JSON input'')) = Inr (kvs, r)"
    by (auto simp del: parse_value.simps elim!: bindr_InrE)
  then obtain t where d: "skip_ws r0 = CHR '':'' # t"
    by (auto split: list.split_asm if_split_asm)
  with m1 obtain v r2 where v: "parse_value (Suc n) (skip_ws t) = Inr (v, r2)"
    and m2: "(case skip_ws r2 of
                e # t2 \<Rightarrow>
                  if e = CHR '','' then bindr (parse_members n (skip_ws t2)) (\<lambda>(kvs, r3). Inr ((k, v) # kvs, r3))
                  else if e = CHR ''}'' then Inr ([(k, v)], t2)
                  else Inl (SyntaxError ''Unexpected token in JSON'')
              | [] \<Rightarrow> Inl (SyntaxError ''Unexpected end of JSON input'')) = Inr (kvs, r)"
    by (auto simp del: parse_value.simps elim!: bindr_InrE)
  then obtain e t2 where e: "skip_ws r2 = e # t2"
    by (auto split: list.split_asm)
  with m2 have "(e = CHR '','' \<and> (\<exists>kvs'. parse_members n (skip_ws t2) = Inr (kvs', r) \<and> kvs = (k, v) # kvs')) \<or>
            (e = CHR ''}'' \<and> r = t2 \<and> kvs = [(k, v)])"
    by (auto simp: js_simps split: if_split_asm)
  with s pc d v e show ?thesis by blast
qed

lemma parse_consumes:
  "parse_value n s = Inr (j, r) \<Longrightarrow> length r < length s"
  "parse_elems n s = Inr (xs, r) \<Longrightarrow> length r < length s"
  "parse_members n s = Inr (kvs, r) \<Longrightarrow> length r < length s"
proof (induction n s and n s and n s arbitrary: j r and xs r and kvs r
       rule: parse_value_parse_elems_parse_members.induct)
  case (2 n s)
  show ?case
  proof (cases s)
    case Nil
    with "2.prems" show ?thesis by simp
  next
    case (Cons c cs)
    have le: "length (skip_ws cs) < length s" using length_skip_ws [of cs] Cons by simp
    consider (arr) "c = CHR ''[''" | (obj) "c = CHR ''{''" | (str) "c = CHR 0x22"
      | (other) "c \<noteq> CHR ''[''" "c \<noteq> CHR ''{''" "c \<noteq> CHR 0x22" by blast
    then show ?thesis
    proof cases
      case arr
      show ?thesis
      proof (cases "take 1 (skip_ws cs) = '']''")
        case True
        with "2.prems" Cons arr le show ?thesis by auto
      next
        case False
        with "2.prems" Cons arr obtain xs where e: "parse_elems n (skip_ws cs) = Inr (xs, r)"
          by (auto simp: js_simps Let_def split: prod.splits)
        have "length r < length (skip_ws cs)"
          using "2.IH"(1) [of c cs "skip_ws cs" xs r] Cons arr False e by simp
        with le show ?thesis by simp
      qed
    next
      case obj
      show ?thesis
      proof (cases "take 1 (skip_ws cs) = ''}''")
        case True
        with "2.prems" Cons obj le show ?thesis by auto
      next
        case False
        with "2.prems" Cons obj obtain kvs where e: "parse_members n (skip_ws cs) = Inr (kvs, r)"
          by (auto simp: js_simps Let_def split: prod.splits)
        have "length r < length (skip_ws cs)"
          using "2.IH"(2) [of c cs "skip_ws cs" kvs r] Cons obj False e by simp
        with le show ?thesis by simp
      qed
    next
      case str
      with "2.prems" Cons obtain x where "parse_chars cs = Inr (x, r)"
        by (auto simp: js_simps split: prod.splits)
      with Cons show ?thesis by (auto dest: parse_chars_consumes)
    next
      case other
      with "2.prems" Cons have "parse_scalar (c # cs) = Inr (j, r)" by simp
      then have "length r < length (c # cs)" by (rule parse_scalar_consumes)
      with Cons show ?thesis by simp
    qed
  qed
next
  case (4 n s)
  from "4.prems" obtain v r1 where v: "parse_value (Suc n) s = Inr (v, r1)"
    and k: "(case skip_ws r1 of
          c # t \<Rightarrow>
            if c = CHR '','' then bindr (parse_elems n (skip_ws t)) (\<lambda>(vs, r'). Inr (v # vs, r'))
            else if c = CHR '']'' then Inr ([v], t)
            else Inl (SyntaxError ''Unexpected token in JSON'')
        | [] \<Rightarrow> Inl (SyntaxError ''Unexpected end of JSON input'')) = Inr (xs, r)"
    by (auto simp: js_simps simp del: parse_value.simps)
  have r1: "length r1 < length s" using "4.IH"(1) [OF v] .
  show ?case
  proof (cases "skip_ws r1")
    case Nil
    with k show ?thesis by simp
  next
    case (Cons c t)
    have t: "length t < length r1" using Cons by (rule skip_ws_Cons_less)
    show ?thesis
    proof (cases "c = CHR '',''")
      case True
      with k Cons obtain vs where e: "parse_elems n (skip_ws t) = Inr (vs, r)"
        by (auto simp: js_simps)
      have "length r < length (skip_ws t)" using "4.IH"(2) [OF Cons True e] .
      with t r1 length_skip_ws [of t] show ?thesis by simp
    next
      case False
      with k Cons have "r = t" by (auto split: if_splits)
      with t r1 show ?thesis by simp
    qed
  qed
next
  case (6 n s)
  from parse_members_SucE [OF "6.prems"] obtain cs k r0 t v r2 e t2 where
    s: "s = CHR 0x22 # cs" and pc: "parse_chars cs = Inr (k, r0)" and d: "skip_ws r0 = CHR '':'' # t"
    and v: "parse_value (Suc n) (skip_ws t) = Inr (v, r2)" and e: "skip_ws r2 = e # t2"
    and tl: "(e = CHR '','' \<and> (\<exists>kvs'. parse_members n (skip_ws t2) = Inr (kvs', r) \<and> kvs = (k, v) # kvs')) \<or>
             (e = CHR ''}'' \<and> r = t2 \<and> kvs = [(k, v)])"
    by blast
  have l0: "length r0 < length cs" using pc by (rule parse_chars_consumes)
  have lt: "length t < length r0" using d by (rule skip_ws_Cons_less)
  have l2: "length r2 < length (skip_ws t)" using "6.IH"(1) [OF s refl d refl v] .
  have lt2: "length t2 < length r2" using e by (rule skip_ws_Cons_less)
  have "length r < length (skip_ws t2) \<or> r = t2" using tl "6.IH"(2) [OF s refl d refl e] by auto
  then show ?case using s l0 lt l2 lt2 length_skip_ws [of t] length_skip_ws [of t2] by auto
qed simp_all

lemma parse_chars_not_fuel: "parse_chars s \<noteq> Inl FuelExhausted"
  by (induction s rule: parse_chars.induct) (auto simp: bindr_Inl_iff split: list.splits option.splits)

lemma parse_scalar_not_fuel: "parse_scalar s \<noteq> Inl FuelExhausted"
  by (simp add: parse_scalar_def parse_number_def Let_def split: list.splits prod.splits)

lemma parse_fuel_enough:
  "length s < n \<Longrightarrow> parse_value n s \<noteq> Inl FuelExhausted"
  "length s < n \<Longrightarrow> parse_elems n s \<noteq> Inl FuelExhausted"
  "length s < n \<Longrightarrow> parse_members n s \<noteq> Inl FuelExhausted"
proof (induction n s and n s and n s rule: parse_value_parse_elems_parse_members.induct)
  case (2 n s)
  show ?case
  proof (cases s)
    case Nil
    then show ?thesis by simp
  next
    case (Cons c cs)
    have ln: "length (skip_ws cs) < n" using "2.prems" Cons length_skip_ws [of cs] by simp
    consider (str) "c = CHR 0x22" | (arr) "c \<noteq> CHR 0x22" "c = CHR ''[''"
      | (obj) "c \<noteq> CHR 0x22" "c \<noteq> CHR ''[''" "c = CHR ''{''"
      | (other) "c \<noteq> CHR 0x22" "c \<noteq> CHR ''[''" "c \<noteq> CHR ''{''" by blast
    then show ?thesis
    proof cases
      case str
      then show ?thesis using Cons parse_chars_not_fuel by (auto simp: bindr_Inl_iff)
    next
      case arr
      have "take 1 (skip_ws cs) \<noteq> '']'' \<Longrightarrow> parse_elems n (skip_ws cs) \<noteq> Inl FuelExhausted"
        using "2.IH"(1) [OF Cons arr refl _ ln] by blast
      then show ?thesis using Cons arr by (auto simp: bindr_Inl_iff Let_def)
    next
      case obj
      have "take 1 (skip_ws cs) \<noteq> ''}'' \<Longrightarrow> parse_members n (skip_ws cs) \<noteq> Inl FuelExhausted"
        using "2.IH"(2) [OF Cons obj refl _ ln] by blast
      then show ?thesis using Cons obj by (auto simp: bindr_Inl_iff Let_def)
    next
      case other
      then show ?thesis using Cons parse_scalar_not_fuel by simp
    qed
  qed
next
  case (4 n s)
  have step: "parse_elems n (skip_ws t) \<noteq> Inl FuelExhausted"
    if pv: "parse_value (Suc n) s = Inr (v, r)" and st: "skip_ws r = CHR '','' # t" for v r t
  proof -
    have "length (skip_ws t) < n"
      using parse_consumes(1) [OF pv] skip_ws_Cons_less [OF st] length_skip_ws [of t] "4.prems" by simp
    then show ?thesis using "4.IH"(2) [OF st refl] by blast
  qed
  show ?case
    using "4.IH"(1) "4.prems" step by (auto simp: bindr_Inl_iff simp del: parse_value.simps split: list.splits)
next
  case (6 n s)
  show ?case
  proof (cases s)
    case Nil
    then show ?thesis by simp
  next
    case (Cons c cs)
    show ?thesis
    proof (cases "c = CHR 0x22")
      case False
      with Cons show ?thesis by simp
    next
      case True
      have len: "length (skip_ws t) < length s"
        if pc: "parse_chars cs = Inr (k, r0)" and d: "skip_ws r0 = CHR '':'' # t" for k r0 t
        using parse_chars_consumes [OF pc] skip_ws_Cons_less [OF d] length_skip_ws [of t] Cons by simp
      have st1: "parse_value (Suc n) (skip_ws t) \<noteq> Inl FuelExhausted"
        if pc: "parse_chars cs = Inr (k, r0)" and d: "skip_ws r0 = CHR '':'' # t" for k r0 t
        using "6.IH"(1) [OF Cons True d refl] len [OF pc d] "6.prems" by simp
      have st2: "parse_members n (skip_ws t2) \<noteq> Inl FuelExhausted"
        if pc: "parse_chars cs = Inr (k, r0)" and d: "skip_ws r0 = CHR '':'' # t"
          and pv: "parse_value (Suc n) (skip_ws t) = Inr (v, r2)" and e: "skip_ws r2 = CHR '','' # t2"
        for k r0 t v r2 t2
      proof -
        have "length (skip_ws t2) < n"
          using len [OF pc d] parse_consumes(1) [OF pv] skip_ws_Cons_less [OF e] length_skip_ws [of t2] "6.prems"
          by simp
        then show ?thesis using "6.IH"(2) [OF Cons True d refl e refl] by blast
      qed
      show ?thesis
        using Cons True parse_chars_not_fuel st1 st2
        by (auto simp: bindr_Inl_iff simp del: parse_value.simps split: list.splits)
    qed
  qed
qed simp_all

section \<open>The round trip\<close>

lemma hex_val_hex_char: "d < 16 \<Longrightarrow> hex_val (hex_char d) = Some d"
  by (simp add: hex_val_def hex_char_digit)

lemma parse_chars_quote_char:
  "parse_chars (quote_char c @ s) = bindr (parse_chars s) (\<lambda>(t, r). Inr (c # t, r))"
proof -
  define n where "n = (of_char c :: nat)"
  have c: "c = char_of n" by (simp add: n_def)
  have n256: "n < 256" by (simp add: n_def)
  consider "n = 8" | "n = 9" | "n = 10" | "n = 12" | "n = 13" | "n = 34" | "n = 92"
    | (ctl) "n < 32" "n \<notin> {8, 9, 10, 12, 13}" | (plain) "32 \<le> n" "n \<noteq> 34" "n \<noteq> 92"
    by fastforce
  then show ?thesis
  proof cases
    case ctl
    have "hex_val (CHR ''0'') = Some 0" by (simp add: hex_val_def digit_val_def)
    moreover have "hex_val (hex_char (n div 16)) = Some (n div 16)" "hex_val (hex_char (n mod 16)) = Some (n mod 16)"
      using ctl by (simp_all add: hex_val_hex_char)
    ultimately have "hex4 [CHR ''0'', CHR ''0'', hex_char (n div 16), hex_char (n mod 16)] = Some n"
      by (simp add: hex4_def)
    moreover have "char_of n = c" by (simp add: n_def)
    moreover have "quote_char c = [CHR 0x5C, CHR ''u'', CHR ''0'', CHR ''0'', hex_char (n div 16), hex_char (n mod 16)]"
      using ctl by (simp add: quote_char_def n_def [symmetric])
    ultimately show ?thesis using n256 by simp
  next
    case plain
    then have "c \<noteq> CHR 0x22" "c \<noteq> CHR 0x5C" "\<not> (of_char c :: nat) < 32"
      by (auto simp: n_def)
    then show ?thesis using plain by (simp add: quote_char_def n_def [symmetric])
  qed (simp_all add: quote_char_def c short_escape_def char_of_def bit_simps)
qed

lemma parse_chars_quoted:
  "parse_chars (concat (map quote_char s) @ CHR 0x22 # rest) = Inr (s, rest)"
  by (induction s) (simp_all add: parse_chars_quote_char)

lemma dec_digits_hd_zero: "hd (dec_digits m) = 0 \<Longrightarrow> m = 0"
proof (induction m rule: dec_digits.induct)
  case (1 m)
  show ?case
  proof (cases "m < 10")
    case True
    with "1.prems" show ?thesis by (subst (asm) dec_digits.simps) simp
  next
    case False
    with "1.prems" have "hd (dec_digits (m div 10)) = 0"
      using dec_digits_nonempty [of "m div 10"] by (subst (asm) dec_digits.simps) simp
    with "1.IH" False have "m div 10 = 0" by blast
    with False show ?thesis by simp
  qed
qed

lemma is_digit_dec_char: "d < 10 \<Longrightarrow> is_digit (dec_char d)"
  by (simp add: is_digit_def of_char_dec_char)

lemma dec_char_0: "dec_char 0 = CHR ''0''"
  by (simp add: dec_char_def char_of_def bit_simps)

lemma dec_char_zero: "d < 10 \<Longrightarrow> dec_char d = CHR ''0'' \<longleftrightarrow> d = 0"
proof
  assume "d < 10" "dec_char d = CHR ''0''"
  then have "48 + d = (of_char (CHR ''0'') :: nat)" by (metis of_char_dec_char)
  then show "d = 0" by simp
qed (simp add: dec_char_0)

lemma value_end_not_digit: "value_end rest \<Longrightarrow> takeWhile is_digit rest = []"
  by (cases rest) (auto simp: value_end_def is_digit_def)

lemma number_digits:
  assumes "value_end rest"
  shows "(if take 1 (map dec_char (dec_digits m) @ rest) = ''0'' then ''0''
          else takeWhile is_digit (map dec_char (dec_digits m) @ rest)) = map dec_char (dec_digits m)"
proof -
  obtain d ds where dd: "dec_digits m = d # ds"
    using dec_digits_nonempty by (cases "dec_digits m") auto
  have lt: "\<forall>x \<in> set (dec_digits m). x < 10" using dec_digits_lt by blast
  show ?thesis
  proof (cases "d = 0")
    case True
    then have "m = 0" using dd dec_digits_hd_zero [of m] by simp
    then show ?thesis by (simp add: dec_digits.simps dec_char_0)
  next
    case False
    then have "dec_char d \<noteq> CHR ''0''" using lt dd dec_char_zero [of d] by simp
    moreover have "takeWhile is_digit (map dec_char (dec_digits m) @ rest) = map dec_char (dec_digits m)"
      using lt value_end_not_digit [OF assms] by (subst takeWhile_append2) (auto simp: is_digit_dec_char)
    ultimately show ?thesis by (simp add: dd)
  qed
qed

lemma digits_of_dec_chars:
  "map (\<lambda>c. of_char c - 48) (map dec_char (dec_digits m)) = dec_digits m"
  using dec_digits_lt [of _ m] by (simp add: map_idI of_char_dec_char)

lemma sign_dec_chars:
  "(case map dec_char (dec_digits m) @ rest of
      c # t \<Rightarrow> if c = CHR ''-'' then (True, t) else (False, map dec_char (dec_digits m) @ rest)
    | [] \<Rightarrow> (False, map dec_char (dec_digits m) @ rest)) = (False, map dec_char (dec_digits m) @ rest)"
  using dec_digits_nonempty [of m] dec_digits_lt [of _ m] dec_char_ne [of _ "CHR ''-''"]
  by (cases "dec_digits m") auto

lemma value_end_number_end:
  "value_end rest \<Longrightarrow> take (Suc 0) rest \<noteq> ''.'' \<and> take (Suc 0) rest \<noteq> ''e'' \<and> take (Suc 0) rest \<noteq> ''E''"
  by (auto simp: value_end_def)

lemma parse_number_eqI:
  assumes "(case s of c # t \<Rightarrow> if c = CHR ''-'' then (True, t) else (False, s) | [] \<Rightarrow> (False, s)) = (neg, s1)"
    and "(if take 1 s1 = ''0'' then ''0'' else takeWhile is_digit s1) = ds"
    and "drop (length ds) s1 = r" "ds \<noteq> []" "\<not> (take 1 r = ''.'' \<or> take 1 r = ''e'' \<or> take 1 r = ''E'')"
  shows "parse_number s = Inr (JNum ((if neg then -1 else 1) * int (digits_value 10 (map (\<lambda>c. of_char c - 48) ds))), r)"
  unfolding parse_number_def Let_def assms(1) prod.case assms(2) assms(3) using assms(4,5) by simp

lemma parse_number_dec_digits:
  assumes "value_end rest"
  shows "parse_number (map dec_char (dec_digits m) @ rest) = Inr (JNum (int m), rest)"
proof -
  have "parse_number (map dec_char (dec_digits m) @ rest) =
      Inr (JNum ((if False then -1 else 1) * int (digits_value 10 (map (\<lambda>c. of_char c - 48) (map dec_char (dec_digits m))))), rest)"
    by (rule parse_number_eqI [OF sign_dec_chars number_digits [OF assms]])
      (simp_all add: dec_digits_nonempty value_end_number_end [OF assms])
  then show ?thesis unfolding digits_of_dec_chars digits_value_dec_digits by simp
qed

lemma parse_number_neg_dec_digits:
  assumes "value_end rest"
  shows "parse_number (CHR ''-'' # map dec_char (dec_digits m) @ rest) = Inr (JNum (- int m), rest)"
proof -
  have "parse_number (CHR ''-'' # map dec_char (dec_digits m) @ rest) =
      Inr (JNum ((if True then -1 else 1) * int (digits_value 10 (map (\<lambda>c. of_char c - 48) (map dec_char (dec_digits m))))), rest)"
    by (rule parse_number_eqI [OF _ number_digits [OF assms]])
      (simp_all add: dec_digits_nonempty value_end_number_end [OF assms])
  then show ?thesis unfolding digits_of_dec_chars digits_value_dec_digits by simp
qed

lemma parse_number_int_dec:
  assumes "value_end rest"
  shows "parse_number (int_dec i @ rest) = Inr (JNum i, rest)"
  using parse_number_dec_digits [OF assms, of "nat i"] parse_number_neg_dec_digits [OF assms, of "nat (- i)"]
  by (simp add: int_dec_def)

lemma dec_char_not_ws: "d < 10 \<Longrightarrow> \<not> json_ws (dec_char d)"
  by (auto simp: json_ws_def dec_char_ne)

lemma not_ws_chars:
  "\<not> json_ws (CHR ''n'')" "\<not> json_ws (CHR ''t'')" "\<not> json_ws (CHR ''f'')" "\<not> json_ws (CHR ''-'')"
  "\<not> json_ws (CHR 0x22)" "\<not> json_ws (CHR ''['')" "\<not> json_ws (CHR ''{'')" "\<not> json_ws (CHR '':'')"
  "\<not> json_ws (CHR '','')" "\<not> json_ws (CHR '']'')" "\<not> json_ws (CHR ''}'')"
  by (simp_all add: json_ws_def)

lemma int_dec_Cons: "\<exists>c t. int_dec i = c # t \<and> \<not> json_ws c \<and> (c = CHR ''-'' \<or> is_digit c)"
proof -
  obtain d ds where "dec_digits (nat i) = d # ds" using dec_digits_nonempty by (cases "dec_digits (nat i)") auto
  moreover have "d \<in> set (dec_digits (nat i)) \<Longrightarrow> d < 10" by (rule dec_digits_lt)
  ultimately show ?thesis
    by (auto simp: int_dec_def not_ws_chars dec_char_not_ws is_digit_dec_char)
qed

lemma stringify_Cons:
  "\<exists>c t. json_stringify j = c # t \<and> \<not> json_ws c \<and> c \<noteq> CHR '']'' \<and> c \<noteq> CHR ''}''"
proof (cases j)
  case (JNum i)
  then show ?thesis using int_dec_Cons [of i] by (auto simp: is_digit_def)
qed (simp_all add: not_ws_chars quote_json_def)

lemma stringify_ne: "json_stringify j \<noteq> []"
  using stringify_Cons [of j] by auto

lemma skip_ws_stringify: "skip_ws (json_stringify j @ rest) = json_stringify j @ rest"
  using stringify_Cons [of j] by (auto simp: skip_ws_def)

lemma parse_value_int_dec:
  assumes "value_end rest"
  shows "parse_value (Suc m) (int_dec i @ rest) = Inr (JNum i, rest)"
proof -
  obtain c t where ct: "int_dec i = c # t" and h: "c = CHR ''-'' \<or> is_digit c"
    using int_dec_Cons [of i] by blast
  then have "c \<noteq> CHR 0x22 \<and> c \<noteq> CHR ''['' \<and> c \<noteq> CHR ''{'' \<and> c \<noteq> CHR ''n'' \<and> c \<noteq> CHR ''t'' \<and> c \<noteq> CHR ''f''"
    by (auto simp: is_digit_def)
  then have "parse_value (Suc m) (int_dec i @ rest) = parse_number (int_dec i @ rest)"
    using h by (simp add: ct parse_scalar_def)
  then show ?thesis using parse_number_int_dec [OF assms] by simp
qed

lemma members_object_distinct:
  "distinct (map fst (acc @ kvs)) \<Longrightarrow> foldl (\<lambda>acc (k, v). put_member acc k v) acc kvs = acc @ kvs"
  by (induction kvs arbitrary: acc) (auto simp: put_member_def)

lemma skip_ws_join:
  "skip_ws (js_join sep (map json_stringify (y # ys)) @ rest) = js_join sep (map json_stringify (y # ys)) @ rest"
  by (cases ys) (simp_all add: skip_ws_stringify)

lemma skip_ws_punct:
  "skip_ws (CHR '','' # s) = CHR '','' # s" "skip_ws (CHR '']'' # s) = CHR '']'' # s"
  "skip_ws (CHR ''}'' # s) = CHR ''}'' # s" "skip_ws (CHR '':'' # s) = CHR '':'' # s"
  "skip_ws (CHR 0x22 # s) = CHR 0x22 # s"
  by (simp_all add: skip_ws_def not_ws_chars)

lemma value_end_punct: "value_end (CHR '','' # s)" "value_end (CHR '']'' # s)" "value_end (CHR ''}'' # s)"
  by (simp_all add: value_end_def)

lemma parse_elems_join:
  assumes "\<forall>x\<in>set (x0 # xs). \<forall>n rest. value_end rest \<longrightarrow> length (json_stringify x @ rest) < n \<longrightarrow>
             parse_value n (json_stringify x @ rest) = Inr (x, rest)"
    and "length (js_join '','' (map json_stringify (x0 # xs)) @ CHR '']'' # rest) < n"
  shows "parse_elems n (js_join '','' (map json_stringify (x0 # xs)) @ CHR '']'' # rest) = Inr (x0 # xs, rest)"
  using assms
proof (induction xs arbitrary: x0 n)
  case Nil
  obtain m where n: "n = Suc m" using Nil.prems(2) by (cases n) auto
  have "parse_value (Suc m) (json_stringify x0 @ CHR '']'' # rest) = Inr (x0, CHR '']'' # rest)"
    using Nil.prems n value_end_punct by (simp del: parse_value.simps)
  then show ?case by (simp add: n skip_ws_punct del: parse_value.simps)
next
  case (Cons y ys)
  obtain m where n: "n = Suc m" using Cons.prems(2) by (cases n) auto
  define T where "T = js_join '','' (map json_stringify (y # ys)) @ CHR '']'' # rest"
  have eq: "js_join '','' (map json_stringify (x0 # y # ys)) @ CHR '']'' # rest = json_stringify x0 @ CHR '','' # T"
    by (simp add: T_def)
  have lT: "length T < m" using Cons.prems(2) n by (simp add: T_def)
  have lw: "length (json_stringify x0 @ CHR '','' # T) < Suc m" using Cons.prems(2) n by (simp add: T_def)
  have pv: "parse_value (Suc m) (json_stringify x0 @ CHR '','' # T) = Inr (x0, CHR '','' # T)"
    using Cons.prems(1) lw value_end_punct(1) [of T] by (simp only: list.set ball_simps)
  have sT: "skip_ws T = T" unfolding T_def by (rule skip_ws_join)
  have "parse_elems m T = Inr (y # ys, rest)"
    using Cons.IH [of y m] Cons.prems(1) lT unfolding T_def by (simp del: parse_value.simps)
  then show ?case using pv sT by (simp only: n eq parse_elems.simps(2)) (simp add: skip_ws_punct del: parse_value.simps)
qed


lemma skip_ws_join_members:
  "skip_ws (js_join sep (map (\<lambda>(k, v). quote_json k @ CHR '':'' # json_stringify v) (kv # kvs)) @ rest) = js_join sep (map (\<lambda>(k, v). quote_json k @ CHR '':'' # json_stringify v) (kv # kvs)) @ rest"
  by (cases kv; cases kvs) (auto simp: quote_json_def skip_ws_punct)

lemma take1_js_join:
  "take (Suc 0) (js_join sep ((c # t) # xs)) = [c]" "Suc 0 - length (js_join sep ((c # t) # xs)) = 0"
  by (cases xs; simp)+

lemma parse_members_join:
  assumes "\<forall>(k, v)\<in>set (kv0 # kvs). \<forall>n rest. value_end rest \<longrightarrow> length (json_stringify v @ rest) < n \<longrightarrow>
             parse_value n (json_stringify v @ rest) = Inr (v, rest)"
    and "length (js_join '','' (map (\<lambda>(k, v). quote_json k @ CHR '':'' # json_stringify v) (kv0 # kvs)) @ CHR ''}'' # rest) < n"
  shows "parse_members n (js_join '','' (map (\<lambda>(k, v). quote_json k @ CHR '':'' # json_stringify v) (kv0 # kvs)) @ CHR ''}'' # rest) = Inr (kv0 # kvs, rest)"
  using assms
proof (induction kvs arbitrary: kv0 n)
  case Nil
  obtain m where n: "n = Suc m" using Nil.prems(2) by (cases n) auto
  obtain k0 v0 where kv0: "kv0 = (k0, v0)" by fastforce
  define V where "V = json_stringify v0 @ CHR ''}'' # rest"
  have eq: "js_join '','' (map (\<lambda>(k, v). quote_json k @ CHR '':'' # json_stringify v) [kv0]) @ CHR ''}'' # rest =
      CHR 0x22 # concat (map quote_char k0) @ CHR 0x22 # CHR '':'' # V"
    by (simp add: kv0 V_def quote_json_def)
  have lw: "length V < Suc m" using Nil.prems(2) n by (simp add: kv0 V_def quote_json_def)
  have pv: "parse_value (Suc m) V = Inr (v0, CHR ''}'' # rest)"
    using Nil.prems(1) lw value_end_punct(3) [of rest] unfolding V_def kv0 by (simp only: list.set ball_simps) (simp del: parse_value.simps)
  have sV: "skip_ws V = V" unfolding V_def by (rule skip_ws_stringify)
  show ?case
    using pv sV by (simp only: n eq parse_members.simps(2)) (simp add: parse_chars_quoted skip_ws_punct kv0 del: parse_value.simps)
next
  case (Cons kv1 kvs)
  obtain m where n: "n = Suc m" using Cons.prems(2) by (cases n) auto
  obtain k0 v0 where kv0: "kv0 = (k0, v0)" by fastforce
  define T where "T = js_join '','' (map (\<lambda>(k, v). quote_json k @ CHR '':'' # json_stringify v) (kv1 # kvs)) @ CHR ''}'' # rest"
  define V where "V = json_stringify v0 @ CHR '','' # T"
  have eq: "js_join '','' (map (\<lambda>(k, v). quote_json k @ CHR '':'' # json_stringify v) (kv0 # kv1 # kvs)) @ CHR ''}'' # rest =
      CHR 0x22 # concat (map quote_char k0) @ CHR 0x22 # CHR '':'' # V"
    by (simp add: kv0 V_def T_def quote_json_def)
  have lw: "length V < Suc m" using Cons.prems(2) n by (simp add: kv0 V_def T_def quote_json_def)
  have lT: "length T < m" using lw by (simp add: V_def)
  have pv: "parse_value (Suc m) V = Inr (v0, CHR '','' # T)"
    using Cons.prems(1) lw value_end_punct(1) [of T] unfolding V_def kv0 by (simp only: list.set ball_simps) (simp del: parse_value.simps)
  have sV: "skip_ws V = V" unfolding V_def by (rule skip_ws_stringify)
  have sT: "skip_ws T = T" unfolding T_def by (rule skip_ws_join_members)
  have "parse_members m T = Inr (kv1 # kvs, rest)"
    using Cons.IH [of kv1 m] Cons.prems(1) lT unfolding T_def by (simp del: parse_value.simps)
  then show ?case
    using pv sV sT by (simp only: n eq parse_members.simps(2)) (simp add: parse_chars_quoted skip_ws_punct kv0 del: parse_value.simps)
qed

lemma parse_value_stringify:
  "unique_keys j \<Longrightarrow> value_end rest \<Longrightarrow> length (json_stringify j @ rest) < n \<Longrightarrow>
   parse_value n (json_stringify j @ rest) = Inr (j, rest)"
proof (induction j arbitrary: n rest)
  case (JArr xs)
  obtain m where n: "n = Suc m" using JArr.prems(3) by (cases n) auto
  show ?case
  proof (cases xs)
    case Nil
    then show ?thesis by (simp add: n skip_ws_punct)
  next
    case (Cons x0 xs')
    have all: "\<forall>x\<in>set (x0 # xs'). \<forall>n rest. value_end rest \<longrightarrow> length (json_stringify x @ rest) < n \<longrightarrow>
             parse_value n (json_stringify x @ rest) = Inr (x, rest)"
      using JArr.IH JArr.prems(1) Cons by (auto simp: list_all_iff)
    have "parse_elems m (js_join '','' (map json_stringify (x0 # xs')) @ CHR '']'' # rest) = Inr (x0 # xs', rest)"
      using parse_elems_join [OF all] JArr.prems(3) n Cons by simp
    moreover obtain c t where "json_stringify x0 = c # t" "c \<noteq> CHR '']''"
      using stringify_Cons [of x0] by blast
    ultimately show ?thesis
      using skip_ws_join [of "CHR '','' # []" x0 xs' "CHR '']'' # rest"]
      by (simp only: n Cons json_stringify.simps append_Cons parse_value.simps(2) list.case)
        (simp add: Let_def take1_js_join del: parse_value.simps)
  qed
next
  case (JObj kvs)
  obtain m where n: "n = Suc m" using JObj.prems(3) by (cases n) auto
  show ?case
  proof (cases kvs)
    case Nil
    then show ?thesis by (simp add: n skip_ws_punct)
  next
    case (Cons kv0 kvs')
    have all: "\<forall>(k, v)\<in>set (kv0 # kvs'). \<forall>n rest. value_end rest \<longrightarrow> length (json_stringify v @ rest) < n \<longrightarrow>
             parse_value n (json_stringify v @ rest) = Inr (v, rest)"
      using JObj.IH JObj.prems(1) Cons by (fastforce simp: list_all_iff)
    have "parse_members m (js_join '','' (map (\<lambda>(k, v). quote_json k @ CHR '':'' # json_stringify v) (kv0 # kvs')) @ CHR ''}'' # rest) = Inr (kv0 # kvs', rest)"
      using parse_members_join [OF all] JObj.prems(3) n Cons by simp
    moreover obtain k0 v0 where "kv0 = (k0, v0)" by fastforce
    moreover have "members_object (kv0 # kvs') = kv0 # kvs'"
      using members_object_distinct [of "[]" "kv0 # kvs'"] JObj.prems(1) Cons by (simp add: members_object_def)
    ultimately show ?thesis
      using skip_ws_join_members [of "CHR '','' # []" kv0 kvs' "CHR ''}'' # rest"]
      by (simp only: n Cons json_stringify.simps append_Cons parse_value.simps(2) list.case)
        (simp add: Let_def quote_json_def take1_js_join del: parse_value.simps)
  qed
next
  case JNull
  then show ?case by (cases n) (simp_all add: parse_scalar_def)
next
  case (JBool b)
  then show ?case by (cases n; cases b) (simp_all add: parse_scalar_def)
next
  case (JNum i)
  then show ?case by (cases n) (simp_all add: parse_value_int_dec del: parse_value.simps)
next
  case (JStr s)
  then show ?case by (cases n) (simp_all add: quote_json_def parse_chars_quoted)
qed

section \<open>The two built-ins together\<close>

lemma json_parse_stringify: "unique_keys j \<Longrightarrow> json_parse (json_stringify j) = Inr j"
  using parse_value_stringify [of j "[]" "Suc (length (json_stringify j))"] skip_ws_stringify [of j "[]"]
  by (simp add: json_parse_def value_end_def skip_ws_def del: parse_value.simps)

lemma json_parse_total: "json_parse s \<noteq> Inl FuelExhausted"
  using parse_fuel_enough(1) [of "skip_ws s" "Suc (length s)"] length_skip_ws [of s]
  by (auto simp: json_parse_def bindr_Inl_iff split: if_splits simp del: parse_value.simps)

end
