(* ===== verification/Transit_Codec.thy ===== *)
theory Transit_Codec
  imports Json_Text
begin

text \<open>
  The transit JSON codec that \<^verbatim>\<open>src/src/index.ts\<close> calls as \<^verbatim>\<open>transit.reader('json')\<close>
  and \<^verbatim>\<open>transit.writer('json')\<close> (lines 6-7, used at lines 64, 90 and 98). The library is
  not under \<^verbatim>\<open>src/\<close>: this theory models the behaviour of transit-js's reader, writer and
  caches as the transit format specifies it, for the non-verbose JSON encoding:
  \<^item> a string that starts with \<^verbatim>\<open>~\<close> carries a one-character type tag (\<^verbatim>\<open>~:name\<close> a keyword,
    \<^verbatim>\<open>~$name\<close> a symbol, \<^verbatim>\<open>~u\<close> a UUID, \<^verbatim>\<open>~m\<close> a date, \<^verbatim>\<open>~i\<close> an integer, \<^verbatim>\<open>~_\<close> null,
    \<^verbatim>\<open>~?t\<close> a boolean, \<^verbatim>\<open>~#tag\<close> a tag marker); a user string that starts with \<^verbatim>\<open>~\<close>,
    \<^verbatim>\<open>^\<close> or \<^verbatim>\<open>`\<close> is escaped by one more \<^verbatim>\<open>~\<close>;
  \<^item> a map is an array whose first element is the marker \<^verbatim>\<open>"^ "\<close> followed by keys and
    values; a map whose keys are not all scalars is the tagged array \<^verbatim>\<open>["~#cmap", [..]]\<close>;
  \<^item> a tagged value is a two-element array \<^verbatim>\<open>["~#tag", rep]\<close>; a scalar at the top is
    quoted as \<^verbatim>\<open>["~#'", v]\<close>;
  \<^item> both sides keep a cache of the strings longer than three characters that are map keys
    or keywords, symbols or tags: the writer replaces a repeated one by \<^verbatim>\<open>^\<close> and its index
    in base 44 (digits from character 48), the reader keeps the decoded value of each such
    string at the next index; both restart at index 0 after \<open>44 * 44\<close> entries.
  \<^item> a JSON object (the verbose encoding, and the usual shape of an error body) is a
    map with its keys decoded as map keys, or, when its only key is a tag marker, a tagged
    value (\<^verbatim>\<open>Decoder.decodeHash\<close>); its keys come in the order of \<^verbatim>\<open>Object.keys\<close>
    as \<open>json_parse\<close> builds them (integer-like keys, which JavaScript lists first, are
    kept in insertion order).
  Values outside this fragment (floats, big integers, binary, characters, URIs, sets,
  links) are \<open>Unsupported\<close>. A framing violation that transit-js would
  let through as \<^verbatim>\<open>undefined\<close> or as a stray tag object (an odd-length map, an unknown cache
  code, a tag marker outside the first position of a pair) is \<open>MalformedEnvelope\<close>, as
  spec \<section>4.1 requires.
\<close>

section \<open>Caches\<close>

definition cache_max :: nat where
  "cache_max = 44 * 44"

definition is_cacheable :: "string \<Rightarrow> bool \<Rightarrow> bool" where
  "is_cacheable s asMapKey \<longleftrightarrow>
     3 < length s \<and>
     (asMapKey \<or>
      (case s of
         c0 # c1 # _ \<Rightarrow> c0 = CHR ''~'' \<and> (c1 = CHR '':'' \<or> c1 = CHR ''$'' \<or> c1 = CHR ''#'')
       | _ \<Rightarrow> False))"

definition idx_to_code :: "nat \<Rightarrow> string" where
  "idx_to_code i =
     (let hi = i div 44; lo = i mod 44 in
      if hi = 0 then [CHR ''^'', char_of (lo + 48)]
      else [CHR ''^'', char_of (hi + 48), char_of (lo + 48)])"

definition is_cache_code :: "string \<Rightarrow> bool" where
  "is_cache_code s \<longleftrightarrow> take 1 s = ''^'' \<and> take 1 (drop 1 s) \<noteq> '' ''"

text \<open>\<^verbatim>\<open>codeToIdx\<close>: one digit for a code of length 2, two otherwise; a code too short or
  with a digit below character 48 names no index.\<close>

definition code_to_idx :: "string \<Rightarrow> nat option" where
  "code_to_idx s =
     (case s of
        [c0, c1] \<Rightarrow> if 48 \<le> (of_char c1 :: nat) then Some (of_char c1 - 48) else None
      | c0 # c1 # c2 # _ \<Rightarrow>
          if 48 \<le> (of_char c1 :: nat) \<and> 48 \<le> (of_char c2 :: nat)
          then Some ((of_char c1 - 48) * 44 + (of_char c2 - 48)) else None
      | _ \<Rightarrow> None)"

record wcache =
  wc_map :: "string \<Rightarrow> nat option"
  wc_idx :: nat

definition wcache_empty :: wcache where
  "wcache_empty = \<lparr>wc_map = Map.empty, wc_idx = 0\<rparr>"

text \<open>\<^verbatim>\<open>WriteCache.write\<close>: a full cache starts a new generation, in which every earlier
  entry counts as absent.\<close>

definition wcache_write :: "wcache \<Rightarrow> bool \<Rightarrow> string \<Rightarrow> string \<times> wcache" where
  "wcache_write c asMapKey s =
     (if is_cacheable s asMapKey then
        (let c1 = (if wc_idx c = cache_max then wcache_empty else c) in
         case wc_map c1 s of
           None \<Rightarrow> (s, \<lparr>wc_map = (wc_map c1)(s \<mapsto> wc_idx c1), wc_idx = Suc (wc_idx c1)\<rparr>)
         | Some i \<Rightarrow> (idx_to_code i, c1))
      else (s, c))"

text \<open>A decoded string is a value or a tag marker (\<^verbatim>\<open>decoder.Tag\<close>).\<close>

datatype dval = DVal tv | DTag string

record rcache =
  rc_tab :: "nat \<Rightarrow> dval option"
  rc_idx :: nat

definition rcache_empty :: rcache where
  "rcache_empty = \<lparr>rc_tab = Map.empty, rc_idx = 0\<rparr>"

definition rcache_write :: "rcache \<Rightarrow> dval \<Rightarrow> rcache" where
  "rcache_write c x =
     (let i = (if rc_idx c = cache_max then 0 else rc_idx c) in
      \<lparr>rc_tab = (rc_tab c)(i \<mapsto> x), rc_idx = Suc i\<rparr>)"

definition rcache_read :: "rcache \<Rightarrow> string \<Rightarrow> dval result" where
  "rcache_read c s =
     (case code_to_idx s of
        Some i \<Rightarrow> (case rc_tab c i of
                    Some x \<Rightarrow> Inr x
                  | None \<Rightarrow> Inl (MalformedEnvelope ''unknown cache code''))
      | None \<Rightarrow> Inl (MalformedEnvelope ''unknown cache code''))"

section \<open>Reading\<close>

text \<open>The decoders of transit-js by tag name, applied to the decoded representation.\<close>

definition reserved_tags :: "string list" where
  "reserved_tags =
     [''_'', ''?'', ''i'', '':'', ''$'', ''u'', ''m'', [CHR 0x27], ''b'', ''n'', ''d'', ''f'', ''c'',
      ''r'', ''z'', ''t'', ''set'', ''list'', ''link'', ''cmap'']"

fun pairs_of :: "tv list \<Rightarrow> ((tv \<times> tv) list) result" where
  "pairs_of [] = Inr []"
| "pairs_of [k] = Inl (MalformedEnvelope ''odd number of map elements'')"
| "pairs_of (k # v # rest) = bindr (pairs_of rest) (\<lambda>ps. Inr ((k, v) # ps))"

definition apply_decoder :: "string \<Rightarrow> dval \<Rightarrow> tv result" where
  "apply_decoder t r =
     (case r of
        DTag _ \<Rightarrow> Inl (MalformedEnvelope ''stray tag'')
      | DVal v \<Rightarrow>
          if t = ''_'' then Inr TNull
          else if t = ''?'' then Inr (TBool (v = TStr ''t''))
          else if t = [CHR 0x27] then Inr v
          else if t = '':'' then (case v of TStr s \<Rightarrow> Inr (TKw s) | _ \<Rightarrow> Inl (Unsupported t))
          else if t = ''$'' then (case v of TStr s \<Rightarrow> Inr (TSym s) | _ \<Rightarrow> Inl (Unsupported t))
          else if t = ''u'' then
            (case v of TStr s \<Rightarrow> Inr (TUuid (UUIDfromString s))
                     | _ \<Rightarrow> Inl (TypeError ''s.replace is not a function''))
          else if t = ''i'' then
            (case v of TInt n \<Rightarrow> Inr (TInt n)
                     | TStr s \<Rightarrow> (case js_parseInt 10 s of Some n \<Rightarrow> Inr (TInt n)
                                                    | None \<Rightarrow> Inl (Unsupported t))
                     | _ \<Rightarrow> Inl (Unsupported t))
          else if t = ''m'' then
            (case v of TInt n \<Rightarrow> Inr (TDate n)
                     | TStr s \<Rightarrow> (case js_parseInt 10 s of Some n \<Rightarrow> Inr (TDate n)
                                                    | None \<Rightarrow> Inl (Unsupported t))
                     | _ \<Rightarrow> Inl (Unsupported t))
          else if t = ''list'' then Inr (TTagged ''list'' v)
          else if t = ''cmap'' then
            (case v of TArr xs \<Rightarrow> bindr (pairs_of xs) (\<lambda>ps. Inr (TMap ps))
                     | _ \<Rightarrow> Inl (Unsupported t))
          else Inl (Unsupported t))"

text \<open>\<^verbatim>\<open>Decoder.parseString\<close>: escapes, tag markers, one-character decoders, and the
  default decoder \<^verbatim>\<open>TaggedValue(c, rest)\<close> for an unknown character.\<close>

definition parse_string :: "string \<Rightarrow> dval result" where
  "parse_string s =
     (case s of
        c0 # rest \<Rightarrow>
          if c0 = CHR ''~'' then
            (case rest of
               [] \<Rightarrow> Inr (DVal (TTagged [] (TStr [])))
             | c # v \<Rightarrow>
                 if c = CHR ''~'' \<or> c = CHR ''^'' \<or> c = CHR ''`'' then Inr (DVal (TStr rest))
                 else if c = CHR ''#'' then Inr (DTag v)
                 else if [c] \<in> set reserved_tags then
                   bindr (apply_decoder [c] (DVal (TStr v))) (\<lambda>x. Inr (DVal x))
                 else Inr (DVal (TTagged [c] (TStr v))))
          else Inr (DVal (TStr s))
      | [] \<Rightarrow> Inr (DVal (TStr [])))"

text \<open>\<^verbatim>\<open>Decoder.decodeString\<close>: a cacheable string is parsed and cached, a cache code is
  looked up, anything else is parsed.\<close>

definition decode_string :: "rcache \<Rightarrow> bool \<Rightarrow> string \<Rightarrow> (dval \<times> rcache) result" where
  "decode_string c asMapKey s =
     (if is_cacheable s asMapKey then bindr (parse_string s) (\<lambda>x. Inr (x, rcache_write c x))
      else if is_cache_code s then bindr (rcache_read c s) (\<lambda>x. Inr (x, c))
      else bindr (parse_string s) (\<lambda>x. Inr (x, c)))"

text \<open>
  \<^verbatim>\<open>Decoder.decode\<close> with its flags \<open>asMapKey\<close> and \<open>tagValue\<close>: an array that starts
  with \<^verbatim>\<open>"^ "\<close> is a map (keys decoded as map keys); otherwise, unless the array is the
  representation of a tagged value (\<open>tagValue\<close>), a pair whose first element is a string
  is tried as \<^verbatim>\<open>[tag, rep]\<close>: the first element is decoded, and if it is no tag marker the
  cache index is rewound and the array is decoded element by element. A JSON object with a
  single key decodes that key first (not as a map key) to test for a tag marker; when it is
  none, the object is read as a map from the cache as that test left it, every key decoded
  again as a map key (\<open>decode_hash\<close>).
\<close>

fun decode :: "rcache \<Rightarrow> bool \<Rightarrow> bool \<Rightarrow> json \<Rightarrow> (dval \<times> rcache) result"
and decode_array :: "rcache \<Rightarrow> bool \<Rightarrow> bool \<Rightarrow> json list \<Rightarrow> (dval \<times> rcache) result"
and decode_elems :: "rcache \<Rightarrow> bool \<Rightarrow> json list \<Rightarrow> (tv list \<times> rcache) result"
and decode_kvs :: "rcache \<Rightarrow> json list \<Rightarrow> ((tv \<times> tv) list \<times> rcache) result"
and decode_hash :: "rcache \<Rightarrow> (string \<times> json) list \<Rightarrow> ((tv \<times> tv) list \<times> rcache) result"
where
  "decode c km tg JNull = Inr (DVal TNull, c)"
| "decode c km tg (JBool b) = Inr (DVal (TBool b), c)"
| "decode c km tg (JNum n) = Inr (DVal (TInt n), c)"
| "decode c km tg (JStr s) = decode_string c km s"
| "decode c km tg (JObj kvs) =
     (case kvs of
        [(k, v)] \<Rightarrow>
          (case decode_string c False k of
             Inl e \<Rightarrow> Inl e
           | Inr (DTag t, c1) \<Rightarrow>
               if t \<in> set reserved_tags then
                 bindr (decode c1 False True v)
                   (\<lambda>(r, c2). bindr (apply_decoder t r) (\<lambda>x. Inr (DVal x, c2)))
               else
                 bindr (decode c1 False False v)
                   (\<lambda>(r, c2). case r of DVal x \<Rightarrow> Inr (DVal (TTagged t x), c2)
                                     | DTag _ \<Rightarrow> Inl (MalformedEnvelope ''stray tag''))
           | Inr (DVal _, c1) \<Rightarrow> bindr (decode_hash c1 kvs) (\<lambda>(ps, c'). Inr (DVal (TMap ps), c')))
      | _ \<Rightarrow> bindr (decode_hash c kvs) (\<lambda>(ps, c'). Inr (DVal (TMap ps), c')))"
| "decode c km tg (JArr js) =
     (case js of
        JStr s # rest \<Rightarrow>
          if s = ''^ '' then bindr (decode_kvs c rest) (\<lambda>(ps, c'). Inr (DVal (TMap ps), c'))
          else decode_array c km tg js
      | _ \<Rightarrow> decode_array c km tg js)"
| "decode_array c km True js = bindr (decode_elems c km js) (\<lambda>(vs, c'). Inr (DVal (TArr vs), c'))"
| "decode_array c km False [JStr s0, rep] =
     (case decode_string c False s0 of
        Inl e \<Rightarrow> Inl e
      | Inr (DTag t, c1) \<Rightarrow>
          if t \<in> set reserved_tags then
            bindr (decode c1 km True rep)
              (\<lambda>(r, c2). bindr (apply_decoder t r) (\<lambda>x. Inr (DVal x, c2)))
          else
            bindr (decode c1 km False rep)
              (\<lambda>(r, c2). case r of DVal x \<Rightarrow> Inr (DVal (TTagged t x), c2)
                                | DTag _ \<Rightarrow> Inl (MalformedEnvelope ''stray tag''))
      | Inr (DVal _, c1) \<Rightarrow>
          bindr (decode_elems (c1\<lparr>rc_idx := rc_idx c\<rparr>) km [JStr s0, rep])
            (\<lambda>(vs, c'). Inr (DVal (TArr vs), c')))"
| "decode_array c km False js = bindr (decode_elems c km js) (\<lambda>(vs, c'). Inr (DVal (TArr vs), c'))"
| "decode_elems c km [] = Inr ([], c)"
| "decode_elems c km (j # js) =
     bindr (decode c km False j)
       (\<lambda>(d, c1). case d of
          DTag _ \<Rightarrow> Inl (MalformedEnvelope ''stray tag'')
        | DVal v \<Rightarrow> bindr (decode_elems c1 km js) (\<lambda>(vs, c2). Inr (v # vs, c2)))"
| "decode_kvs c [] = Inr ([], c)"
| "decode_kvs c [k] = Inl (MalformedEnvelope ''odd number of map elements'')"
| "decode_kvs c (k # v # rest) =
     bindr (decode c True False k)
       (\<lambda>(dk, c1). bindr (decode c1 False False v)
          (\<lambda>(dv, c2). case (dk, dv) of
             (DVal kk, DVal vv) \<Rightarrow> bindr (decode_kvs c2 rest) (\<lambda>(ps, c3). Inr ((kk, vv) # ps, c3))
           | _ \<Rightarrow> Inl (MalformedEnvelope ''stray tag'')))"
| "decode_hash c [] = Inr ([], c)"
| "decode_hash c ((k, v) # rest) =
     bindr (decode_string c True k)
       (\<lambda>(dk, c1). bindr (decode c1 False False v)
          (\<lambda>(dv, c2). case (dk, dv) of
             (DVal kk, DVal vv) \<Rightarrow> bindr (decode_hash c2 rest) (\<lambda>(ps, c3). Inr ((kk, vv) # ps, c3))
           | _ \<Rightarrow> Inl (MalformedEnvelope ''stray tag'')))"

section \<open>Writing\<close>

text \<open>\<^verbatim>\<open>writer.escape\<close>: a string that starts with a reserved character gets a \<^verbatim>\<open>~\<close>.\<close>

definition escape :: "string \<Rightarrow> string" where
  "escape s =
     (case s of
        c # _ \<Rightarrow> if c = CHR ''~'' \<or> c = CHR ''^'' \<or> c = CHR ''`'' then CHR ''~'' # s else s
      | [] \<Rightarrow> [])"

text \<open>A value whose handler tag has one character: it can be written as a string, as a map
  key or, at the top, quoted.\<close>

fun stringable :: "tv \<Rightarrow> bool" where
  "stringable (TArr vs) = False"
| "stringable (TMap ps) = False"
| "stringable (TTagged t rep) = (length t = 1)"
| "stringable _ = True"

definition emit :: "wcache \<Rightarrow> bool \<Rightarrow> string \<Rightarrow> json \<times> wcache" where
  "emit c asMapKey s = (case wcache_write c asMapKey s of (s', c') \<Rightarrow> (JStr s', c'))"

text \<open>
  \<^verbatim>\<open>writer.marshal\<close>: scalars as JSON scalars, or as tagged strings where they are map keys;
  arrays element by element; maps with scalar keys in the \<^verbatim>\<open>"^ "\<close> form and other maps as
  \<^verbatim>\<open>cmap\<close>; a date, whose tag has one character, as the string \<^verbatim>\<open>"~m<ms>"\<close> of its
  \<^verbatim>\<open>stringRep\<close> in every position (\<^verbatim>\<open>emitEncoded\<close>: the JSON emitter prefers strings);
  every other tagged value whose representation is not a string under a one-character tag as
  \<^verbatim>\<open>["~#tag", rep]\<close> (the tag string is written as a map key).
  Strings pass through the write cache in the order they are written.
\<close>

function (sequential) marshal :: "wcache \<Rightarrow> bool \<Rightarrow> tv \<Rightarrow> json \<times> wcache"
and marshal_elems :: "wcache \<Rightarrow> tv list \<Rightarrow> json list \<times> wcache"
and marshal_kvs :: "wcache \<Rightarrow> bool \<Rightarrow> (tv \<times> tv) list \<Rightarrow> json list \<times> wcache"
where
  "marshal c km TNull = (if km then emit c km ''~_'' else (JNull, c))"
| "marshal c km (TBool b) = (if km then emit c km (if b then ''~?t'' else ''~?f'') else (JBool b, c))"
| "marshal c km (TInt i) = (if km then emit c km (''~i'' @ int_dec i) else (JNum i, c))"
| "marshal c km (TStr s) = emit c km (escape s)"
| "marshal c km (TKw n) = emit c km (''~:'' @ n)"
| "marshal c km (TSym n) = emit c km (''~$'' @ n)"
| "marshal c km (TUuid u) = emit c km (''~u'' @ uuid_toString u)"
| "marshal c km (TDate ms) = emit c km (''~m'' @ int_dec ms)"
| "marshal c km (TArr vs) = (case marshal_elems c vs of (js, c') \<Rightarrow> (JArr js, c'))"
| "marshal c km (TMap ps) =
     (if list_all (\<lambda>e. stringable (fst e)) ps
      then (case marshal_kvs c True ps of (js, c') \<Rightarrow> (JArr (JStr ''^ '' # js), c'))
      else (case emit c True ''~#cmap'' of
              (tg, c1) \<Rightarrow> (case marshal_kvs c1 False ps of (js, c2) \<Rightarrow> (JArr [tg, JArr js], c2))))"
| "marshal c km (TTagged t rep) =
     (case rep of
        TStr s \<Rightarrow>
          if length t = 1 then emit c km (CHR ''~'' # t @ s)
          else (case emit c True (''~#'' @ t) of
                  (tg, c1) \<Rightarrow> (case marshal c1 False rep of (r, c2) \<Rightarrow> (JArr [tg, r], c2)))
      | _ \<Rightarrow> (case emit c True (''~#'' @ t) of
               (tg, c1) \<Rightarrow> (case marshal c1 False rep of (r, c2) \<Rightarrow> (JArr [tg, r], c2))))"
| "marshal_elems c [] = ([], c)"
| "marshal_elems c (v # vs) =
     (case marshal c False v of (j, c1) \<Rightarrow> (case marshal_elems c1 vs of (js, c2) \<Rightarrow> (j # js, c2)))"
| "marshal_kvs c km [] = ([], c)"
| "marshal_kvs c km ((k, v) # ps) =
     (case marshal c km k of
        (jk, c1) \<Rightarrow> (case marshal c1 False v of
                      (jv, c2) \<Rightarrow> (case marshal_kvs c2 km ps of (js, c3) \<Rightarrow> (jk # jv # js, c3))))"
  by pat_completeness auto
termination
  by (relation "measure (case_sum (\<lambda>(c, km, v). size v)
                  (case_sum (\<lambda>(c, vs). size_list size vs)
                     (\<lambda>(c, km, ps). size_list (size_prod size size) ps)))") auto

text \<open>\<^verbatim>\<open>writer.marshalTop\<close>: a scalar at the top is quoted.\<close>

definition transit_write :: "tv \<Rightarrow> json" where
  "transit_write v =
     (if stringable v
      then (case emit wcache_empty True (''~#'' @ [CHR 0x27]) of
              (tg, c1) \<Rightarrow> JArr [tg, fst (marshal c1 False v)])
      else fst (marshal wcache_empty False v))"

definition transit_read :: "json \<Rightarrow> tv result" where
  "transit_read j =
     (case decode rcache_empty False False j of
        Inl e \<Rightarrow> Inl e
      | Inr (DVal v, _) \<Rightarrow> Inr v
      | Inr (DTag _, _) \<Rightarrow> Inl (MalformedEnvelope ''stray tag''))"


text \<open>The module's reader and writer, \<^verbatim>\<open>transit.reader('json')\<close> and
  \<^verbatim>\<open>transit.writer('json')\<close> (lines 6-7): \<^verbatim>\<open>read\<close> parses the text with
  \<^verbatim>\<open>JSON.parse\<close> and decodes the JSON value; \<^verbatim>\<open>write\<close> marshals the value and returns
  its JSON text.\<close>

definition transitReader_read :: "string \<Rightarrow> tv result" where
  "transitReader_read s = bindr (json_parse s) transit_read"

definition transitWriter_write :: "tv \<Rightarrow> string" where
  "transitWriter_write v = json_stringify (transit_write v)"

text \<open>The errors of the transit format: the decoder fails with no other.\<close>

definition transit_error :: "error \<Rightarrow> bool" where
  "transit_error e \<longleftrightarrow>
     (case e of TypeError _ \<Rightarrow> True | MalformedEnvelope _ \<Rightarrow> True | Unsupported _ \<Rightarrow> True | _ \<Rightarrow> False)"

section \<open>Lemmas\<close>

text \<open>The writer emits arrays, strings and scalars only, never a JSON object.\<close>

lemma marshal_unique_keys:
  "unique_keys (fst (marshal c km v))"
  "list_all unique_keys (fst (marshal_elems c vs))"
  "list_all unique_keys (fst (marshal_kvs c km ps))"
  by (induction c km v and c vs and c km ps rule: marshal_marshal_elems_marshal_kvs.induct)
    (auto simp: emit_def case_prod_beta split: tv.splits, (metis prod.collapse)+)

lemma transit_write_unique_keys: "unique_keys (transit_write v)"
  using marshal_unique_keys(1) by (simp add: transit_write_def emit_def split: prod.splits)

lemma json_parse_write: "json_parse (transitWriter_write v) = Inr (transit_write v)"
  by (simp add: transitWriter_write_def json_parse_stringify transit_write_unique_keys)

lemma decode_helpers_errors:
  assumes x: "\<not> transit_error x"
  shows "pairs_of xs \<noteq> Inl x" "apply_decoder t r \<noteq> Inl x"
    "parse_string s \<noteq> Inl x" "decode_string c km s \<noteq> Inl x"
proof -
  have n: "x \<noteq> TypeError m" "x \<noteq> MalformedEnvelope m" "x \<noteq> Unsupported m" for m
    using x by (auto simp: transit_error_def)
  show p: "pairs_of xs \<noteq> Inl x" for xs
    by (induction xs rule: pairs_of.induct) (simp_all add: bindr_Inl_iff n [symmetric])
  show a: "apply_decoder t r \<noteq> Inl x" for t r
    using p by (auto simp: apply_decoder_def bindr_Inl_iff n [symmetric] split: dval.splits tv.splits option.splits)
  show ps: "parse_string s \<noteq> Inl x" for s
    using a by (auto simp: parse_string_def bindr_Inl_iff split: list.splits)
  show "decode_string c km s \<noteq> Inl x"
    using ps by (auto simp: decode_string_def rcache_read_def bindr_Inl_iff n [symmetric] split: option.splits)
qed

lemma decode_errors:
  assumes x: "\<not> transit_error x"
  shows "decode c km tg j \<noteq> Inl x"
  "decode_array c km tg js \<noteq> Inl x"
  "decode_elems c km js \<noteq> Inl x"
  "decode_kvs c js \<noteq> Inl x"
  "decode_hash c kvs \<noteq> Inl x"
proof -
  note h = decode_helpers_errors [OF x]
  have n: "x \<noteq> TypeError m" "x \<noteq> MalformedEnvelope m" "x \<noteq> Unsupported m" for m
    using x by (auto simp: transit_error_def)
  show "decode c km tg j \<noteq> Inl x" "decode_array c km tg js \<noteq> Inl x" "decode_elems c km js \<noteq> Inl x"
    "decode_kvs c js \<noteq> Inl x" "decode_hash c kvs \<noteq> Inl x"
    apply (induction c km tg j and c km tg js and c km js and c js and c kvs
        rule: decode_decode_array_decode_elems_decode_kvs_decode_hash.induct)
    apply (simp_all add: bindr_Inl_iff h case_prod_beta n [symmetric] split: dval.split)
    subgoal for c kvs
      by (cases kvs rule: remdups_adj.cases)
        (auto simp: bindr_Inl_iff h case_prod_beta n [symmetric] simp del: decode_hash.simps(2)
          split: sum.split dval.split prod.split)
    subgoal for c km tg js by (cases js rule: list.exhaust) (auto simp: bindr_Inl_iff n [symmetric] split: json.split)
    subgoal by (auto simp: bindr_Inl_iff h case_prod_beta n [symmetric] split: sum.split dval.split)
    done
qed

lemma decode_not_fuel: "decode c km tg j \<noteq> Inl FuelExhausted"
  by (rule decode_errors(1)) (simp add: transit_error_def)

text \<open>
  Adequacy of the fuel: the module's reader never exhausts the fuel of the JSON parser, whose
  bound (one more than the length of the text) is therefore no restriction of the model.
\<close>

lemma transitReader_read_total: "transitReader_read s \<noteq> Inl FuelExhausted"
  using json_parse_total [of s] decode_not_fuel(1) [of rcache_empty False False]
  by (auto simp: transitReader_read_def transit_read_def bindr_Inl_iff split: sum.splits prod.splits dval.splits)

end
