(* ===== verification/Query.thy ===== *)
theory Query
  imports Accessor Transit_Codec
begin

text \<open>
  The module state and the list-workflows query of \<^verbatim>\<open>src/src/index.ts\<close>: the module-level
  \<^verbatim>\<open>let cookie\<close> and \<^verbatim>\<open>REQUEST_HEADERS\<close> (lines 9-18), the environment read at load time
  (line 39) and \<^verbatim>\<open>getRawWorkflows\<close> (lines 41-66). An HTTP exchange is a value of
  \<open>request\<close>; the transport is a function from the request to the response body that
  axios resolves to (\<^verbatim>\<open>_.get(res, 'data')\<close>, \<open>None\<close> for \<^verbatim>\<open>undefined\<close>) or to the error it
  rejects with. The request body is the JSON value axios serialises: \<^verbatim>\<open>undefined\<close> inside
  an array is written as \<^verbatim>\<open>null\<close>.
\<close>

record env =
  CIRCLE_BRANCH :: "string option"
  CIRCLE_PROJECT_USERNAME :: "string option"
  CIRCLE_PROJECT_REPONAME :: "string option"

record request =
  req_url :: string
  req_data :: json
  req_headers :: "(string \<times> string option) list"

type_synonym transport = "request \<Rightarrow> (json option) result"

definition CIRCLE_QUERY_API :: string where
  "CIRCLE_QUERY_API = ''https://circleci.com/query-api''"

text \<open>The header object of lines 12-18, built from the value of \<^verbatim>\<open>cookie\<close> at the moment
  the object literal is evaluated.\<close>

definition request_headers :: "string option \<Rightarrow> (string \<times> string option) list" where
  "request_headers c =
     [(''Host'', Some ''circleci.com''),
      (''Accept'', Some ''application/transit+json''),
      (''Origin'', Some ''https://circleci.com''),
      (''Content-Type'', Some ''application/transit+json; charset=UTF-8''),
      (''Cookie'', c)]"

record module_state =
  cookie :: "string option"
  REQUEST_HEADERS :: "(string \<times> string option) list"
  process_env :: env

text \<open>Module evaluation: \<^verbatim>\<open>cookie\<close> is declared without a value, so the header object is
  built with \<^verbatim>\<open>Cookie: undefined\<close>; the environment is destructured once.\<close>

definition module_init :: "env \<Rightarrow> module_state" where
  "module_init e =
     (let c = None in \<lparr>cookie = c, REQUEST_HEADERS = request_headers c, process_env = e\<rparr>)"

definition env_json :: "string option \<Rightarrow> json" where
  "env_json v = (case v of None \<Rightarrow> JNull | Some s \<Rightarrow> JStr s)"

text \<open>The hand-written transit payload of lines 44-60.\<close>

definition list_query_data :: "string option \<Rightarrow> string option \<Rightarrow> json" where
  "list_query_data user repo =
     JArr [JStr ''^ '', JStr ''~:type'', JStr ''~:get-project-workflows'', JStr ''~:params'',
       JArr [JStr ''^ '', JStr ''~:organization/vcs-type'', JStr ''~:github'',
         JStr ''~:organization/name'', env_json user,
         JStr ''~:project/name'', env_json repo,
         JStr ''~:opts'', JArr [JStr ''^ '', JStr ''~:offset'', JNum 0, JStr ''~:limit'', JNum 30]]]"

definition list_request :: "module_state \<Rightarrow> request" where
  "list_request st =
     \<lparr>req_url = CIRCLE_QUERY_API,
      req_data = list_query_data (CIRCLE_PROJECT_USERNAME (process_env st))
                   (CIRCLE_PROJECT_REPONAME (process_env st)),
      req_headers = REQUEST_HEADERS st\<rparr>"

text \<open>\<^verbatim>\<open>transitReader.read(JSON.stringify(data))\<close>: the response body is printed as JSON text
  and read back by the module's reader; \<^verbatim>\<open>JSON.stringify(undefined)\<close> is \<^verbatim>\<open>undefined\<close>,
  which \<^verbatim>\<open>JSON.parse\<close> rejects.\<close>

definition read_response :: "json option \<Rightarrow> tv result" where
  "read_response data =
     (case data of
        None \<Rightarrow> Inl (SyntaxError ''undefined is not valid JSON'')
      | Some j \<Rightarrow> transitReader_read (json_stringify j))"

definition getRawWorkflows :: "module_state \<Rightarrow> transport \<Rightarrow> (tv option) result" where
  "getRawWorkflows st net =
     bindr (net (list_request st)) (\<lambda>data.
     bindr (read_response data) (\<lambda>transitParsed.
     extractFromTransitMapByName (Some transitParsed) ''results''))"

text \<open>The query that spec \<section>4.3 describes, as a transit value, with an unset variable read
  as \<^verbatim>\<open>null\<close>.\<close>

definition env_value :: "string option \<Rightarrow> tv" where
  "env_value v = (case v of None \<Rightarrow> TNull | Some s \<Rightarrow> TStr s)"

definition list_query_tree :: "string option \<Rightarrow> string option \<Rightarrow> tv" where
  "list_query_tree user repo =
     TMap [(TKw ''type'', TKw ''get-project-workflows''),
           (TKw ''params'', TMap
              [(TKw ''organization/vcs-type'', TKw ''github''),
               (TKw ''organization/name'', env_value user),
               (TKw ''project/name'', env_value repo),
               (TKw ''opts'', TMap [(TKw ''offset'', TInt 0), (TKw ''limit'', TInt 30)])])]"

text \<open>A string the reader takes literally in value position: it neither starts with the
  escape character \<^verbatim>\<open>~\<close> nor with the cache prefix \<^verbatim>\<open>^\<close>.\<close>

definition literal_safe :: "string option \<Rightarrow> bool" where
  "literal_safe v = (case v of None \<Rightarrow> True | Some s \<Rightarrow> take 1 s \<noteq> ''~'' \<and> take 1 s \<noteq> ''^'')"

section \<open>Lemmas\<close>

text \<open>The detour through JSON text is transparent for every body whose objects have distinct
  member names, which holds of every body axios produces by parsing a response.\<close>

lemma read_response_Some: "unique_keys j \<Longrightarrow> read_response (Some j) = transit_read j"
  by (simp add: read_response_def transitReader_read_def json_parse_stringify)

lemma decode_literal:
  assumes "literal_safe (Some s)"
  shows "decode_string c False s = Inr (DVal (TStr s), c)"
proof -
  have "\<not> is_cacheable s False"
    using assms by (cases s rule: list.exhaust; auto simp: is_cacheable_def literal_safe_def split: list.splits)
  moreover have "\<not> is_cache_code s" using assms by (simp add: is_cache_code_def literal_safe_def)
  moreover have "parse_string s = Inr (DVal (TStr s))"
    using assms by (cases s) (auto simp: parse_string_def literal_safe_def)
  ultimately show ?thesis by (simp add: decode_string_def)
qed

lemma decode_env_json:
  "literal_safe v \<Longrightarrow> decode c False False (env_json v) = Inr (DVal (env_value v), c)"
  by (cases v) (simp_all add: env_json_def env_value_def decode_literal)

text \<open>A keyword longer than three characters is cached wherever it occurs.\<close>

lemma decode_keyword:
  "Suc 0 < length n \<Longrightarrow>
   decode_string c km (CHR ''~'' # CHR '':'' # n) = Inr (DVal (TKw n), rcache_write c (DVal (TKw n)))"
  by (simp add: decode_string_def is_cacheable_def parse_string_def reserved_tags_def apply_decoder_def)

text \<open>
  C6 (functional): the hand-written payload of \<^verbatim>\<open>getRawWorkflows\<close> is the transit encoding of
  the list-workflows query of spec \<section>4.3 -- a map of \<^verbatim>\<open>type\<close> and \<^verbatim>\<open>params\<close>, with the
  organisation and project names from the environment and \<^verbatim>\<open>opts\<close> offset 0, limit 30 --
  whenever the names are unset or do not start with \<^verbatim>\<open>~\<close> or \<^verbatim>\<open>^\<close>.
\<close>

theorem list_query_read:
  assumes "literal_safe user" "literal_safe repo"
  shows "transit_read (list_query_data user repo) = Inr (list_query_tree user repo)"
  using assms by (simp add: transit_read_def list_query_data_def list_query_tree_def decode_env_json decode_keyword)

theorem list_query_read_witness:
  "literal_safe (Some ''vinsidious'') \<and> literal_safe (Some ''cancel-circle-workflows'') \<and>
   transit_read (list_query_data (Some ''vinsidious'') (Some ''cancel-circle-workflows'')) =
     Inr (list_query_tree (Some ''vinsidious'') (Some ''cancel-circle-workflows''))"
  using list_query_read [of "Some ''vinsidious''" "Some ''cancel-circle-workflows''"]
  by (simp add: literal_safe_def)

text \<open>
  C14 (equivalence): reading a response body as the code does -- printing it with
  \<^verbatim>\<open>JSON.stringify\<close> and reading the text with the transit reader (line 64) -- is
  equivalent to decoding the JSON value directly, for every body whose objects have distinct
  member names (every body axios produces by parsing a response); an absent body is the
  \<^verbatim>\<open>SyntaxError\<close> of \<^verbatim>\<open>JSON.parse(undefined)\<close>.
\<close>

theorem read_response_equiv:
  assumes "\<forall>j. d = Some j \<longrightarrow> unique_keys j"
  shows "read_response d =
           (case d of None \<Rightarrow> Inl (SyntaxError ''undefined is not valid JSON'') | Some j \<Rightarrow> transit_read j)"
  using assms read_response_Some by (cases d) (simp_all add: read_response_def)

theorem read_response_equiv_witness:
  "unique_keys (JArr [JStr ''^ '', JStr ''~:results'', JArr []]) \<and>
   read_response (Some (JArr [JStr ''^ '', JStr ''~:results'', JArr []])) =
     transit_read (JArr [JStr ''^ '', JStr ''~:results'', JArr []])"
  using read_response_equiv [of "Some (JArr [JStr ''^ '', JStr ''~:results'', JArr []])"] by simp

end
