(* ===== verification/Workflow.thy ===== *)
theory Workflow
  imports Accessor
begin

text \<open>
  The workflow records of \<^verbatim>\<open>src/src/index.ts\<close>: the \<^verbatim>\<open>WorkflowStatus\<close> enum (lines 20-26),
  the \<^verbatim>\<open>WorkflowInfo\<close> interface (lines 28-35), \<^verbatim>\<open>getInfoForWorkflow\<close> (lines 72-82) and
  \<^verbatim>\<open>convertRawWorkflows\<close> (lines 68-70). The TypeScript types of the record are casts
  (\<^verbatim>\<open>as Date\<close>, \<^verbatim>\<open>as WorkflowStatus\<close>, \<^verbatim>\<open>as string\<close>): at run time each field holds whatever
  the accessor returned, \<^verbatim>\<open>undefined\<close> included, so the record keeps the decoded values
  (\<open>tv option\<close>); only \<^verbatim>\<open>id\<close> is converted, by \<^verbatim>\<open>_.invoke(.., 'toString')\<close>.
\<close>

datatype WorkflowStatus = SUCCESS | CANCELED | BLOCKED | RUNNING | FAILED

fun status_value :: "WorkflowStatus \<Rightarrow> string" where
  "status_value SUCCESS = ''success''"
| "status_value CANCELED = ''canceled''"
| "status_value BLOCKED = ''blocked''"
| "status_value RUNNING = ''running''"
| "status_value FAILED = ''failed''"

record WorkflowInfo =
  id' :: "string option"
  status :: "tv option"
  commitSha :: "tv option"
  branchName :: "tv option"
  workflowName :: "tv option"
  createdAt :: "tv option"

text \<open>The statements of lines 73-81 in their order; each call may throw.\<close>

definition getInfoForWorkflow :: "(tv \<Rightarrow> string) \<Rightarrow> tv option \<Rightarrow> WorkflowInfo result" where
  "getInfoForWorkflow rt workflow =
     bindr (extractFromTransitMapByName workflow ''workflow/created-at'') (\<lambda>ca.
     bindr (extractFromTransitMapByName workflow ''workflow/status'') (\<lambda>st.
     bindr (extractFromTransitMapByName workflow ''workflow/name'') (\<lambda>nm.
     bindr (extractFromTransitMapByName workflow ''workflow/id'') (\<lambda>iv.
     bindr (extractFromTransitMapByName workflow ''workflow/trigger-info'') (\<lambda>ti.
     bindr (extractFromTransitMapByName ti ''trigger-info/vcs-revision'') (\<lambda>sha.
     bindr (extractFromTransitMapByName ti ''trigger-info/branch'') (\<lambda>br.
     Inr \<lparr>id' = invoke_toString rt iv, status = st, commitSha = sha, branchName = br,
          workflowName = nm, createdAt = ca\<rparr>)))))))"

text \<open>
  The elements \<^verbatim>\<open>_.map(collection, f)\<close> visits: the elements of an array, the
  one-character strings of a string, nothing for \<^verbatim>\<open>undefined\<close>, \<^verbatim>\<open>null\<close>, numbers,
  booleans and dates (no own enumerable properties). Keywords, symbols, UUIDs, transit
  maps and tagged values are visited through their own fields (\<^verbatim>\<open>_name\<close>, \<^verbatim>\<open>high\<close>,
  \<^verbatim>\<open>_entries\<close>, \<^verbatim>\<open>tag\<close>, ...), none of which is a transit map, so the first call of
  \<^verbatim>\<open>getInfoForWorkflow\<close> on them throws.
\<close>

fun lodash_elements :: "tv option \<Rightarrow> (tv list) result" where
  "lodash_elements None = Inr []"
| "lodash_elements (Some TNull) = Inr []"
| "lodash_elements (Some (TBool b)) = Inr []"
| "lodash_elements (Some (TInt i)) = Inr []"
| "lodash_elements (Some (TDate ms)) = Inr []"
| "lodash_elements (Some (TStr s)) = Inr (map (\<lambda>c. TStr [c]) s)"
| "lodash_elements (Some (TArr xs)) = Inr xs"
| "lodash_elements (Some (TKw n)) = Inl (TypeError ''transitMap.keySet is not a function'')"
| "lodash_elements (Some (TSym n)) = Inl (TypeError ''transitMap.keySet is not a function'')"
| "lodash_elements (Some (TUuid u)) = Inl (TypeError ''transitMap.keySet is not a function'')"
| "lodash_elements (Some (TMap m)) = Inl (TypeError ''transitMap.keySet is not a function'')"
| "lodash_elements (Some (TTagged t v)) = Inl (TypeError ''transitMap.keySet is not a function'')"

definition convertRawWorkflows :: "(tv \<Rightarrow> string) \<Rightarrow> tv option \<Rightarrow> (WorkflowInfo list) result" where
  "convertRawWorkflows rt rawWorkflows =
     bindr (lodash_elements rawWorkflows) (map_result (\<lambda>w. getInfoForWorkflow rt (Some w)))"

text \<open>
  The typed reading of a status that the interface promises (spec \<section>4.4): one of the five
  enum strings. The code never performs it.
\<close>

definition parse_status :: "tv option \<Rightarrow> WorkflowStatus option" where
  "parse_status v =
     find (\<lambda>s. v = Some (TStr (status_value s))) [SUCCESS, CANCELED, BLOCKED, RUNNING, FAILED]"

section \<open>Lemmas\<close>

text \<open>The record that spec \<section>4.4 describes, read from an entry \<open>m\<close> whose trigger
  information is the map \<open>t\<close>.\<close>

definition info_of :: "(tv \<Rightarrow> string) \<Rightarrow> (tv \<times> tv) list \<Rightarrow> (tv \<times> tv) list \<Rightarrow> WorkflowInfo" where
  "info_of rt m t =
     \<lparr>id' = invoke_toString rt (field_by_name m ''workflow/id''),
      status = field_by_name m ''workflow/status'',
      commitSha = field_by_name t ''trigger-info/vcs-revision'',
      branchName = field_by_name t ''trigger-info/branch'',
      workflowName = field_by_name m ''workflow/name'',
      createdAt = field_by_name m ''workflow/created-at''\<rparr>"

text \<open>An entry that \<^verbatim>\<open>getInfoForWorkflow\<close> accepts: a transit map whose
  \<^verbatim>\<open>workflow/trigger-info\<close> is a transit map; and the record it makes of it.\<close>

definition workflow_entry :: "tv \<Rightarrow> bool" where
  "workflow_entry v =
     (case v of
        TMap m \<Rightarrow> (case field_by_name m ''workflow/trigger-info'' of Some (TMap t) \<Rightarrow> True | _ \<Rightarrow> False)
      | _ \<Rightarrow> False)"

definition entry_info :: "(tv \<Rightarrow> string) \<Rightarrow> tv \<Rightarrow> WorkflowInfo" where
  "entry_info rt v =
     (case v of
        TMap m \<Rightarrow> info_of rt m (case field_by_name m ''workflow/trigger-info'' of Some (TMap t) \<Rightarrow> t | _ \<Rightarrow> [])
      | _ \<Rightarrow> info_of rt [] [])"

lemma getInfoForWorkflow_TMap:
  "field_by_name m ''workflow/trigger-info'' = Some (TMap t) \<Longrightarrow>
   getInfoForWorkflow rt (Some (TMap m)) = Inr (info_of rt m t)"
  by (simp add: getInfoForWorkflow_def extract_TMap info_of_def)

lemma getInfoForWorkflow_no_trigger:
  "(\<forall>t. field_by_name m ''workflow/trigger-info'' \<noteq> Some (TMap t)) \<Longrightarrow>
   getInfoForWorkflow rt (Some (TMap m)) = Inl (TypeError ''transitMap.keySet is not a function'')"
  by (simp add: getInfoForWorkflow_def extract_TMap extract_not_map)

lemma getInfoForWorkflow_not_map:
  "(\<forall>m. v \<noteq> Some (TMap m)) \<Longrightarrow>
   getInfoForWorkflow rt v = Inl (TypeError ''transitMap.keySet is not a function'')"
  by (simp add: getInfoForWorkflow_def extract_not_map)

text \<open>C4 (functional, errors included): \<^verbatim>\<open>getInfoForWorkflow\<close> reads the six fields of
  spec \<section>4.4 from a workflow map whose \<^verbatim>\<open>workflow/trigger-info\<close> is a map, and throws a
  \<^verbatim>\<open>TypeError\<close> exactly when the entry or its trigger information is not a map. A
  missing field is \<^verbatim>\<open>undefined\<close> in the record, not an error.\<close>

theorem getInfoForWorkflow_spec:
  "getInfoForWorkflow rt v =
     (case v of
        Some (TMap m) \<Rightarrow>
          (case field_by_name m ''workflow/trigger-info'' of
             Some (TMap t) \<Rightarrow> Inr (info_of rt m t)
           | _ \<Rightarrow> Inl (TypeError ''transitMap.keySet is not a function''))
      | _ \<Rightarrow> Inl (TypeError ''transitMap.keySet is not a function''))"
proof (cases "\<exists>m. v = Some (TMap m)")
  case True
  then obtain m where v: "v = Some (TMap m)" by blast
  show ?thesis
  proof (cases "\<exists>t. field_by_name m ''workflow/trigger-info'' = Some (TMap t)")
    case True
    then show ?thesis using v by (auto simp: getInfoForWorkflow_TMap)
  next
    case False
    then show ?thesis using v
      by (simp add: getInfoForWorkflow_no_trigger) (auto split: option.splits tv.splits)
  qed
next
  case False
  then show ?thesis
    by (simp add: getInfoForWorkflow_not_map) (auto split: option.splits tv.splits)
qed

lemma getInfoForWorkflow_entry:
  "getInfoForWorkflow rt (Some v) =
     (if workflow_entry v then Inr (entry_info rt v) else Inl (TypeError ''transitMap.keySet is not a function''))"
proof (cases "\<exists>m. v = TMap m")
  case True
  then obtain m where v: "v = TMap m" by blast
  show ?thesis
  proof (cases "\<exists>t. field_by_name m ''workflow/trigger-info'' = Some (TMap t)")
    case True
    then show ?thesis
      using v by (auto simp: getInfoForWorkflow_TMap workflow_entry_def entry_info_def)
  next
    case False
    then show ?thesis using v getInfoForWorkflow_no_trigger [of m rt]
      by (auto simp: workflow_entry_def split: option.splits tv.splits)
  qed
next
  case False
  then show ?thesis
    by (simp add: getInfoForWorkflow_not_map) (auto simp: workflow_entry_def split: tv.splits)
qed

lemma convertRawWorkflows_entries:
  "convertRawWorkflows rt (Some (TArr xs)) =
     (if list_all workflow_entry xs then Inr (map (entry_info rt) xs)
      else Inl (TypeError ''transitMap.keySet is not a function''))"
  by (induction xs) (simp_all add: convertRawWorkflows_def getInfoForWorkflow_entry)

text \<open>
  C12 (errors; all or nothing): converting the fetched array either turns every entry into
  its record, in order, or -- as soon as one entry is not a map with a trigger-information
  map -- throws the \<^verbatim>\<open>TypeError\<close> of that entry: \<^verbatim>\<open>_.map\<close> does not skip a malformed entry,
  so a single one stops the whole invocation before any cancellation.
\<close>

theorem convertRawWorkflows_spec:
  "convertRawWorkflows rt (Some (TArr xs)) =
     (if list_all workflow_entry xs then Inr (map (entry_info rt) xs)
      else Inl (TypeError ''transitMap.keySet is not a function''))"
  by (rule convertRawWorkflows_entries)

lemma convertRawWorkflows_array:
  "convertRawWorkflows rt (Some (TArr xs)) = map_result (\<lambda>w. getInfoForWorkflow rt (Some w)) xs"
  by (simp add: convertRawWorkflows_def)

end
