(* ===== verification/Cancel.thy ===== *)
theory Cancel
  imports Query Workflow "HOL-Library.AList"
begin

text \<open>
  \<^verbatim>\<open>cancelBuild\<close> (\<^verbatim>\<open>src/src/index.ts\<close> lines 89-101). The function reads a fixed transit
  text with the module's reader, takes the map at \<^verbatim>\<open>rep.1\<close> of the decoded tagged value, destructures its first
  two keys, sets their values through those key objects, writes the whole template back and
  issues one request. The map is shared between \<^verbatim>\<open>cancelQuery\<close> and \<^verbatim>\<open>transitMap\<close>: the
  two \<^verbatim>\<open>set\<close> calls change the template in place, which \<open>set_rep1\<close> makes explicit by
  putting the updated map back at position 1 of the representation. An \<^verbatim>\<open>undefined\<close>
  workflow name is written by transit-js's null handler, as \<open>TNull\<close>. The body of the
  request is \<^verbatim>\<open>JSON.parse(transitWriter.write(..))\<close>: the writer's text parsed back into a
  JSON value.
  The function is \<^verbatim>\<open>async\<close>: what it computes before its \<^verbatim>\<open>await\<close> is the request it issues,
  or the error its promise rejects with before any request is made.
\<close>

text \<open>The literal of line 90.\<close>

definition cancel_template :: string where
  \<open>cancel_template = ''["~#list",["~$run/cancel",["^ ","~:run/id","","~:run/name",""]]]''\<close>

text \<open>\<^verbatim>\<open>_.get(cancelQuery, 'rep.1')\<close>: element 1 of the representation of a tagged value
  whose representation is an array; \<^verbatim>\<open>undefined\<close> on any other path.\<close>

definition lodash_get_rep1 :: "tv \<Rightarrow> tv option" where
  "lodash_get_rep1 v =
     (case v of
        TTagged t (TArr xs) \<Rightarrow> (if 1 < length xs then Some (xs ! 1) else None)
      | _ \<Rightarrow> None)"

definition set_rep1 :: "tv \<Rightarrow> tv \<Rightarrow> tv" where
  "set_rep1 v x = (case v of TTagged t (TArr xs) \<Rightarrow> TTagged t (TArr (xs[1 := x])) | _ \<Rightarrow> v)"

text \<open>\<^verbatim>\<open>transitMap.keySet()\<close> on the value \<^verbatim>\<open>_.get\<close> returned.\<close>

definition map_keySet :: "tv option \<Rightarrow> (tv list) result" where
  "map_keySet v =
     (case v of
        Some (TMap m) \<Rightarrow> Inr (keySet m)
      | None \<Rightarrow> Inl (TypeError ''Cannot read properties of undefined (reading keySet)'')
      | Some _ \<Rightarrow> Inl (TypeError ''transitMap.keySet is not a function''))"

text \<open>\<^verbatim>\<open>TransitArrayMap.set\<close>: the entries are scanned in order and the first one whose key
  equals the given key gets the new value, keeping the key object and the order of the
  entries; when no key is equal, the entry is appended.\<close>

fun map_set :: "(tv \<times> tv) list \<Rightarrow> tv \<Rightarrow> tv \<Rightarrow> (tv \<times> tv) list" where
  "map_set [] k v = [(k, v)]"
| "map_set ((k', v') # m) k v = (if k' = k then (k', v) # m else (k', v') # map_set m k v)"

definition undefined_as_null :: "tv option \<Rightarrow> tv" where
  "undefined_as_null v = (case v of None \<Rightarrow> TNull | Some x \<Rightarrow> x)"

text \<open>The whole function. The destructuring \<^verbatim>\<open>[idKey, nameKey]\<close> of a key set with fewer
  than two keys cannot happen: the template is a constant whose map has two keys
  (\<open>cancel_template_read\<close>); that branch is \<open>MalformedEnvelope\<close>.\<close>

definition cancelBuild :: "module_state \<Rightarrow> WorkflowInfo \<Rightarrow> request result" where
  "cancelBuild st w =
     bindr (transitReader_read cancel_template) (\<lambda>cancelQuery.
     (let transitMap = lodash_get_rep1 cancelQuery in
      bindr (map_keySet transitMap) (\<lambda>keys.
      case (transitMap, keys) of
        (Some (TMap m), idKey # nameKey # _) \<Rightarrow>
          (case id' w of
             None \<Rightarrow> Inl (TypeError ''Cannot read properties of undefined (reading replace)'')
           | Some i \<Rightarrow>
               (let m1 = map_set m idKey (TUuid (UUIDfromString i));
                    m2 = map_set m1 nameKey (undefined_as_null (workflowName w));
                    q = set_rep1 cancelQuery (TMap m2) in
                bindr (json_parse (transitWriter_write q)) (\<lambda>data.
                Inr \<lparr>req_url = CIRCLE_QUERY_API, req_data = data, req_headers = REQUEST_HEADERS st\<rparr>)))
      | _ \<Rightarrow> Inl (MalformedEnvelope ''cancel template''))))"

text \<open>The cancel command of spec \<section>3: the template with the run id and the run name
  filled in under the template's keys.\<close>

definition cancel_command :: "uuid \<Rightarrow> tv \<Rightarrow> tv" where
  "cancel_command u n =
     TTagged ''list'' (TArr [TSym ''run/cancel'', TMap [(TKw ''run/id'', TUuid u), (TKw ''run/name'', n)]])"

section \<open>Lemmas\<close>

lemma cancel_template_read:
  "transitReader_read cancel_template =
     Inr (TTagged ''list'' (TArr [TSym ''run/cancel'', TMap [(TKw ''run/id'', TStr ''''), (TKw ''run/name'', TStr '''')]]))"
proof -
  let ?j = "JArr [JStr ''~#list'', JArr [JStr ''~$run/cancel'',
              JArr [JStr ''^ '', JStr ''~:run/id'', JStr '''', JStr ''~:run/name'', JStr '''']]]"
  have eq: "cancel_template = json_stringify ?j"
    by (simp add: cancel_template_def quote_json_def quote_char_def)
  have "json_parse (json_stringify ?j) = Inr ?j" by (rule json_parse_stringify) simp
  then have "json_parse cancel_template = Inr ?j" by (simp only: eq)
  then show ?thesis
    by (simp add: transitReader_read_def transit_read_def decode_string_def is_cacheable_def is_cache_code_def
        parse_string_def reserved_tags_def apply_decoder_def rcache_write_def rcache_empty_def Let_def
        cache_max_def)
qed

lemma cancelBuild_Some:
  "id' w = Some i \<Longrightarrow>
   cancelBuild st w =
     Inr \<lparr>req_url = CIRCLE_QUERY_API,
          req_data = transit_write (cancel_command (UUIDfromString i) (undefined_as_null (workflowName w))),
          req_headers = REQUEST_HEADERS st\<rparr>"
  by (simp add: cancelBuild_def cancel_template_read lodash_get_rep1_def map_keySet_def keySet_def
      set_rep1_def cancel_command_def json_parse_write)

lemma cancelBuild_None:
  "id' w = None \<Longrightarrow>
   cancelBuild st w = Inl (TypeError ''Cannot read properties of undefined (reading replace)'')"
  by (simp add: cancelBuild_def cancel_template_read lodash_get_rep1_def map_keySet_def keySet_def)

text \<open>The writer emits every key and tag of the command in full: each is the first
  occurrence of its string, so none is replaced by a cache code.\<close>

lemma cancel_command_wire:
  "\<exists>b. transit_write (cancel_command u n) =
     JArr [JStr ''~#list'', JArr [JStr ''~$run/cancel'',
       JArr [JStr ''^ '', JStr ''~:run/id'', JStr (''~u'' @ uuid_toString u), JStr ''~:run/name'', b]]]"
  by (simp add: transit_write_def cancel_command_def emit_def wcache_write_def is_cacheable_def
      wcache_empty_def cache_max_def Let_def split: prod.split)

text \<open>
  C7 (functional, errors included): \<^verbatim>\<open>cancelBuild\<close> issues one request to the query endpoint
  with the module's headers, whose body is the transit encoding of the cancel command for the
  record's id (parsed as a UUID) and its workflow name; a record without an id makes the
  promise reject with a \<^verbatim>\<open>TypeError\<close> from \<^verbatim>\<open>UUIDfromString\<close>, before any request.
\<close>

theorem cancelBuild_spec:
  "cancelBuild st w =
     (case id' w of
        None \<Rightarrow> Inl (TypeError ''Cannot read properties of undefined (reading replace)'')
      | Some i \<Rightarrow> Inr \<lparr>req_url = CIRCLE_QUERY_API,
                       req_data = transit_write (cancel_command (UUIDfromString i) (undefined_as_null (workflowName w))),
                       req_headers = REQUEST_HEADERS st\<rparr>)"
  by (cases "id' w") (simp_all add: cancelBuild_Some cancelBuild_None)

text \<open>
  C8 (key identity, spec \<section>8): whatever the workflow name, the cancel request carries the
  template's tag and keys byte for byte -- \<^verbatim>\<open>~#list\<close>, \<^verbatim>\<open>~$run/cancel\<close>, \<^verbatim>\<open>~:run/id\<close>,
  \<^verbatim>\<open>~:run/name\<close> -- with the run id as the UUID string \<^verbatim>\<open>~u...\<close> of the record's id.
\<close>

theorem cancelBuild_key_identity:
  assumes "id' w = Some i"
  shows "\<exists>r b. cancelBuild st w = Inr r \<and>
           req_data r = JArr [JStr ''~#list'', JArr [JStr ''~$run/cancel'',
             JArr [JStr ''^ '', JStr ''~:run/id'', JStr (''~u'' @ uuid_toString (UUIDfromString i)),
                   JStr ''~:run/name'', b]]]"
  using cancelBuild_Some [OF assms] cancel_command_wire by simp

theorem cancelBuild_key_identity_witness:
  "id' \<lparr>id' = Some ''a1'', status = Some (TStr ''running''), commitSha = None, branchName = Some (TStr ''main''),
        workflowName = Some (TStr ''build''), createdAt = None\<rparr> = Some ''a1'' \<and>
   (\<exists>r b. cancelBuild (module_init \<lparr>CIRCLE_BRANCH = Some ''main'', CIRCLE_PROJECT_USERNAME = None, CIRCLE_PROJECT_REPONAME = None\<rparr>) \<lparr>id' = Some ''a1'', status = Some (TStr ''running''), commitSha = None,
                           branchName = Some (TStr ''main''), workflowName = Some (TStr ''build''), createdAt = None\<rparr> = Inr r \<and>
      req_data r = JArr [JStr ''~#list'', JArr [JStr ''~$run/cancel'',
        JArr [JStr ''^ '', JStr ''~:run/id'', JStr (''~u'' @ uuid_toString (UUIDfromString ''a1'')),
              JStr ''~:run/name'', b]]])"
  using cancelBuild_key_identity [of "\<lparr>id' = Some ''a1'', status = Some (TStr ''running''), commitSha = None,
      branchName = Some (TStr ''main''), workflowName = Some (TStr ''build''), createdAt = None\<rparr>" "''a1''" "module_init \<lparr>CIRCLE_BRANCH = Some ''main'', CIRCLE_PROJECT_USERNAME = None, CIRCLE_PROJECT_REPONAME = None\<rparr>"]
  by simp

text \<open>
  C22 (bounds): \<^verbatim>\<open>UUIDfromString\<close> accepts any id string -- a string that is not a UUID is
  read with \<^verbatim>\<open>NaN\<close> digits as zero -- so the run id of every cancel request is the
  \<^verbatim>\<open>~u\<close> tag followed by a UUID in canonical form -- 36 characters, lowercase hex
  digits in groups of 8, 4, 4, 4 and 12 separated by dashes -- whatever the record's id.
\<close>

theorem cancelBuild_id_width:
  assumes "id' w = Some i"
  shows "\<exists>r u b. cancelBuild st w = Inr r \<and> uuid_shape u \<and>
           req_data r = JArr [JStr ''~#list'', JArr [JStr ''~$run/cancel'',
             JArr [JStr ''^ '', JStr ''~:run/id'', JStr (''~u'' @ u), JStr ''~:run/name'', b]]]"
  using cancelBuild_Some [OF assms] cancel_command_wire [of "UUIDfromString i"] uuid_toString_shape
  by fastforce

theorem cancelBuild_id_width_witness:
  "id' \<lparr>id' = Some ''not-a-uuid'', status = None, commitSha = None, branchName = None,
        workflowName = None, createdAt = None\<rparr> = Some ''not-a-uuid'' \<and>
   (\<exists>r u b. cancelBuild (module_init \<lparr>CIRCLE_BRANCH = None, CIRCLE_PROJECT_USERNAME = None, CIRCLE_PROJECT_REPONAME = None\<rparr>)
      \<lparr>id' = Some ''not-a-uuid'', status = None, commitSha = None, branchName = None,
       workflowName = None, createdAt = None\<rparr> = Inr r \<and> uuid_shape u \<and>
      req_data r = JArr [JStr ''~#list'', JArr [JStr ''~$run/cancel'',
        JArr [JStr ''^ '', JStr ''~:run/id'', JStr (''~u'' @ u), JStr ''~:run/name'', b]]])"
  using cancelBuild_id_width [of "\<lparr>id' = Some ''not-a-uuid'', status = None, commitSha = None, branchName = None,
      workflowName = None, createdAt = None\<rparr>" "''not-a-uuid''"
      "module_init \<lparr>CIRCLE_BRANCH = None, CIRCLE_PROJECT_USERNAME = None, CIRCLE_PROJECT_REPONAME = None\<rparr>"]
  by simp

text \<open>
  C29 (round trip): when a record's id is a UUID string in canonical form -- lowercase hex
  digits in groups of 8, 4, 4, 4 and 12 -- the cancel request names the run by exactly that
  string: \<^verbatim>\<open>UUIDfromString\<close> followed by the writer's \<^verbatim>\<open>toString\<close> gives the id back.
\<close>

theorem cancelBuild_id_preserved:
  assumes "id' w = Some i" "uuid_shape i"
  shows "\<exists>r b. cancelBuild st w = Inr r \<and>
           req_data r = JArr [JStr ''~#list'', JArr [JStr ''~$run/cancel'',
             JArr [JStr ''^ '', JStr ''~:run/id'', JStr (''~u'' @ i), JStr ''~:run/name'', b]]]"
  using cancelBuild_Some [OF assms(1)] cancel_command_wire [of "UUIDfromString i"]
    uuid_toString_of_shape [OF assms(2)]
  by fastforce

theorem cancelBuild_id_preserved_witness:
  "id' \<lparr>id' = Some ''123e4567-e89b-12d3-a456-426614174000'', status = None, commitSha = None,
        branchName = None, workflowName = None, createdAt = None\<rparr> = Some ''123e4567-e89b-12d3-a456-426614174000'' \<and>
   uuid_shape ''123e4567-e89b-12d3-a456-426614174000'' \<and>
   (\<exists>r b. cancelBuild (module_init \<lparr>CIRCLE_BRANCH = None, CIRCLE_PROJECT_USERNAME = None, CIRCLE_PROJECT_REPONAME = None\<rparr>)
      \<lparr>id' = Some ''123e4567-e89b-12d3-a456-426614174000'', status = None, commitSha = None,
       branchName = None, workflowName = None, createdAt = None\<rparr> = Inr r \<and>
      req_data r = JArr [JStr ''~#list'', JArr [JStr ''~$run/cancel'',
        JArr [JStr ''^ '', JStr ''~:run/id'', JStr (''~u'' @ ''123e4567-e89b-12d3-a456-426614174000''),
              JStr ''~:run/name'', b]]])"
proof -
  have s: "uuid_shape ''123e4567-e89b-12d3-a456-426614174000''"
    by (simp add: uuid_shape_def lower_hex_def)
  show ?thesis
    using cancelBuild_id_preserved [OF _ s, of "\<lparr>id' = Some ''123e4567-e89b-12d3-a456-426614174000'', status = None,
        commitSha = None, branchName = None, workflowName = None, createdAt = None\<rparr>"
        "module_init \<lparr>CIRCLE_BRANCH = None, CIRCLE_PROJECT_USERNAME = None, CIRCLE_PROJECT_REPONAME = None\<rparr>"] s
    by simp
qed

end
