(* ===== verification/Selection.thy ===== *)
theory Selection
  imports Workflow
begin

text \<open>
  The selection of \<^verbatim>\<open>src/src/index.ts\<close> lines 107-110:
  \<^verbatim>\<open>const [thisBuild, ...oldBuilds] = _.filter(workflows, { branchName: CIRCLE_BRANCH })\<close>
  and \<^verbatim>\<open>_.filter(oldBuilds, build => _.includes([RUNNING, BLOCKED], build.status))\<close>.
  \<^verbatim>\<open>_.filter(xs, { branchName: b })\<close> keeps the records whose \<^verbatim>\<open>branchName\<close> is strictly
  equal to \<open>b\<close>: for a string \<open>b\<close> that is a decoded string equal to it, and for an unset
  \<^verbatim>\<open>CIRCLE_BRANCH\<close> (\<^verbatim>\<open>undefined\<close>) it is a record whose \<^verbatim>\<open>branchName\<close> is \<^verbatim>\<open>undefined\<close>,
  since every record has the property. \<^verbatim>\<open>_.includes\<close> compares with SameValueZero, so a
  status is cancelable when it is the string \<^verbatim>\<open>running\<close> or \<^verbatim>\<open>blocked\<close>. The
  destructuring of an empty array gives \<^verbatim>\<open>thisBuild = undefined\<close> and no old builds.
  The list keeps the server's order, which the code takes to be newest first.
\<close>

definition branch_matches :: "string option \<Rightarrow> WorkflowInfo \<Rightarrow> bool" where
  "branch_matches b w =
     (case b of None \<Rightarrow> branchName w = None | Some s \<Rightarrow> branchName w = Some (TStr s))"

definition is_cancelable :: "WorkflowInfo \<Rightarrow> bool" where
  "is_cancelable build \<longleftrightarrow>
     status build = Some (TStr (status_value RUNNING)) \<or>
     status build = Some (TStr (status_value BLOCKED))"

definition thisBuild :: "string option \<Rightarrow> WorkflowInfo list \<Rightarrow> WorkflowInfo option" where
  "thisBuild b workflows =
     (case filter (branch_matches b) workflows of [] \<Rightarrow> None | w # _ \<Rightarrow> Some w)"

definition oldBuilds :: "string option \<Rightarrow> WorkflowInfo list \<Rightarrow> WorkflowInfo list" where
  "oldBuilds b workflows = drop 1 (filter (branch_matches b) workflows)"

definition buildsToCancel :: "string option \<Rightarrow> WorkflowInfo list \<Rightarrow> WorkflowInfo list" where
  "buildsToCancel b workflows = filter is_cancelable (oldBuilds b workflows)"

text \<open>
  The positions of the records the selection cancels, in the server's list: records of the
  branch that are running or blocked and come after an earlier record of the branch. Kept
  as positions, so that the statement covers lists with repeated records.
\<close>

definition cancel_positions :: "string option \<Rightarrow> WorkflowInfo list \<Rightarrow> nat list" where
  "cancel_positions b ws =
     filter (\<lambda>i. branch_matches b (ws ! i) \<and> is_cancelable (ws ! i) \<and>
                 (\<exists>j < i. branch_matches b (ws ! j)))
       [0..<length ws]"

section \<open>Lemmas\<close>

lemma filter_upt_Suc:
  "filter P [0..<Suc n] = filter P [0..<n] @ (if P n then [n] else [])"
  by simp

lemma drop1_filter_upt:
  "drop 1 (filter R [0..<n]) = filter (\<lambda>i. R i \<and> (\<exists>j < i. R j)) [0..<n]"
proof (induction n)
  case 0
  then show ?case by simp
next
  case (Suc n)
  show ?case
  proof (cases "filter R [0..<n] = []")
    case True
    then have none: "\<forall>j < n. \<not> R j" by (auto simp: filter_empty_conv)
    then have "filter (\<lambda>i. R i \<and> (\<exists>j < i. R j)) [0..<n] = []"
      by (auto simp: filter_empty_conv)
    moreover have "\<not> (\<exists>j < n. R j)" using none by blast
    ultimately show ?thesis using True by (simp add: less_Suc_eq)
  next
    case False
    then obtain j where "j < n" "R j" by (auto simp: filter_empty_conv)
    then have "drop 1 (filter R [0..<Suc n]) = drop 1 (filter R [0..<n]) @ (if R n then [n] else [])"
      using False by (cases "filter R [0..<n]") simp_all
    with Suc.IH \<open>j < n\<close> \<open>R j\<close> show ?thesis by auto
  qed
qed

lemma filter_map_nth:
  "filter P (map (nth xs) is) = map (nth xs) (filter (\<lambda>i. P (xs ! i)) is)"
  by (induction "is") auto

lemma filter_as_positions:
  "filter P xs = map (nth xs) (filter (\<lambda>i. P (xs ! i)) [0..<length xs])"
proof (induction xs rule: rev_induct)
  case Nil
  then show ?case by simp
next
  case (snoc x xs)
  have f: "filter (\<lambda>i. P ((xs @ [x]) ! i)) [0..<length xs] = filter (\<lambda>i. P (xs ! i)) [0..<length xs]"
    by (rule filter_cong) (auto simp: nth_append)
  have "map (nth (xs @ [x])) (filter (\<lambda>i. P (xs ! i)) [0..<length xs]) =
        map (nth xs) (filter (\<lambda>i. P (xs ! i)) [0..<length xs])"
    by (rule map_cong) (auto simp: nth_append)
  with snoc.IH f show ?case by simp
qed

lemma buildsToCancel_as_positions:
  "buildsToCancel b ws = map (nth ws) (cancel_positions b ws)"
proof -
  have "oldBuilds b ws =
        map (nth ws) (filter (\<lambda>i. branch_matches b (ws ! i) \<and> (\<exists>j < i. branch_matches b (ws ! j)))
                       [0..<length ws])"
    using drop1_filter_upt [of "\<lambda>i. branch_matches b (ws ! i)" "length ws"]
    by (simp add: oldBuilds_def filter_as_positions [of "branch_matches b" ws] drop_map)
  then show ?thesis
    by (simp add: buildsToCancel_def filter_map_nth cancel_positions_def conj_ac)
qed

text \<open>C1 (functional): the code cancels exactly the records that are on the active branch,
  are running or blocked, and come after an earlier record of the branch (the current
  build); they are cancelled in the server's order.\<close>

theorem buildsToCancel_positions:
  "buildsToCancel b ws = map (nth ws) (cancel_positions b ws)"
  by (rule buildsToCancel_as_positions)

text \<open>
  C13 (type): the status cast \<^verbatim>\<open>as WorkflowStatus\<close> of line 74 is unchecked, but every
  record the code selects for cancellation does carry a status of the enum: its
  \<^verbatim>\<open>status\<close> reads as \<^verbatim>\<open>RUNNING\<close> or \<^verbatim>\<open>BLOCKED\<close>.
\<close>

theorem buildsToCancel_typed_status:
  assumes "w \<in> set (buildsToCancel b ws)"
  shows "parse_status (status w) = Some RUNNING \<or> parse_status (status w) = Some BLOCKED"
proof -
  from assms have "is_cancelable w" by (simp add: buildsToCancel_def)
  then show ?thesis by (auto simp: is_cancelable_def parse_status_def)
qed

theorem buildsToCancel_typed_status_witness:
  "\<lparr>id' = Some ''w2'', status = Some (TStr ''blocked''), commitSha = None, branchName = Some (TStr ''main''),
    workflowName = None, createdAt = None\<rparr>
     \<in> set (buildsToCancel (Some ''main'')
          [\<lparr>id' = Some ''w1'', status = Some (TStr ''running''), commitSha = None, branchName = Some (TStr ''main''),
            workflowName = None, createdAt = None\<rparr>,
           \<lparr>id' = Some ''w2'', status = Some (TStr ''blocked''), commitSha = None, branchName = Some (TStr ''main''),
            workflowName = None, createdAt = None\<rparr>]) \<and>
   (parse_status (status \<lparr>id' = Some ''w2'', status = Some (TStr ''blocked''), commitSha = None,
      branchName = Some (TStr ''main''), workflowName = None, createdAt = None\<rparr>) = Some RUNNING \<or>
    parse_status (status \<lparr>id' = Some ''w2'', status = Some (TStr ''blocked''), commitSha = None,
      branchName = Some (TStr ''main''), workflowName = None, createdAt = None\<rparr>) = Some BLOCKED)"
proof -
  have m: "\<lparr>id' = Some ''w2'', status = Some (TStr ''blocked''), commitSha = None, branchName = Some (TStr ''main''),
    workflowName = None, createdAt = None\<rparr>
     \<in> set (buildsToCancel (Some ''main'')
          [\<lparr>id' = Some ''w1'', status = Some (TStr ''running''), commitSha = None, branchName = Some (TStr ''main''),
            workflowName = None, createdAt = None\<rparr>,
           \<lparr>id' = Some ''w2'', status = Some (TStr ''blocked''), commitSha = None, branchName = Some (TStr ''main''),
            workflowName = None, createdAt = None\<rparr>])"
    by (simp add: buildsToCancel_def oldBuilds_def branch_matches_def is_cancelable_def)
  show ?thesis using buildsToCancel_typed_status [OF m] m by simp
qed

text \<open>
  C23 (safety): the code never cancels a build of another branch, a build that is not
  running or blocked, or -- when the records of the list are distinct -- the current build.
\<close>

theorem buildsToCancel_safe:
  assumes "w \<in> set (buildsToCancel b ws)"
  shows "branch_matches b w \<and> is_cancelable w \<and> (distinct ws \<longrightarrow> thisBuild b ws \<noteq> Some w)"
proof -
  have old: "w \<in> set (oldBuilds b ws)" and c: "is_cancelable w"
    using assms by (simp_all add: buildsToCancel_def)
  have "distinct ws \<Longrightarrow> thisBuild b ws \<noteq> Some w"
  proof
    assume d: "distinct ws" and t: "thisBuild b ws = Some w"
    obtain rest where f: "filter (branch_matches b) ws = w # rest"
      using t by (auto simp: thisBuild_def split: list.splits)
    then have "w \<notin> set rest" using distinct_filter [OF d, of "branch_matches b"] by simp
    with old f show False by (simp add: oldBuilds_def)
  qed
  moreover have "branch_matches b w"
    using old by (auto simp: oldBuilds_def dest: in_set_dropD)
  ultimately show ?thesis using c by blast
qed

theorem buildsToCancel_safe_witness:
  "\<lparr>id' = Some ''w2'', status = Some (TStr ''running''), commitSha = None, branchName = Some (TStr ''main''),
    workflowName = None, createdAt = None\<rparr>
     \<in> set (buildsToCancel (Some ''main'')
          [\<lparr>id' = Some ''w1'', status = Some (TStr ''running''), commitSha = None, branchName = Some (TStr ''main''),
            workflowName = None, createdAt = None\<rparr>,
           \<lparr>id' = Some ''w2'', status = Some (TStr ''running''), commitSha = None, branchName = Some (TStr ''main''),
            workflowName = None, createdAt = None\<rparr>]) \<and>
   thisBuild (Some ''main'')
          [\<lparr>id' = Some ''w1'', status = Some (TStr ''running''), commitSha = None, branchName = Some (TStr ''main''),
            workflowName = None, createdAt = None\<rparr>,
           \<lparr>id' = Some ''w2'', status = Some (TStr ''running''), commitSha = None, branchName = Some (TStr ''main''),
            workflowName = None, createdAt = None\<rparr>] \<noteq>
     Some \<lparr>id' = Some ''w2'', status = Some (TStr ''running''), commitSha = None, branchName = Some (TStr ''main''),
    workflowName = None, createdAt = None\<rparr>"
proof -
  have m: "\<lparr>id' = Some ''w2'', status = Some (TStr ''running''), commitSha = None, branchName = Some (TStr ''main''),
    workflowName = None, createdAt = None\<rparr>
     \<in> set (buildsToCancel (Some ''main'')
          [\<lparr>id' = Some ''w1'', status = Some (TStr ''running''), commitSha = None, branchName = Some (TStr ''main''),
            workflowName = None, createdAt = None\<rparr>,
           \<lparr>id' = Some ''w2'', status = Some (TStr ''running''), commitSha = None, branchName = Some (TStr ''main''),
            workflowName = None, createdAt = None\<rparr>])"
    by (simp add: buildsToCancel_def oldBuilds_def branch_matches_def is_cancelable_def)
  show ?thesis using buildsToCancel_safe [OF m] m by simp
qed

end
