(* ===== verification/Entry.thy ===== *)
theory Entry
  imports Cancel Selection
begin

text \<open>
  The default export of \<^verbatim>\<open>src/src/index.ts\<close> (lines 103-112) and the module state across
  its invocations. One invocation checks the cookie, stores it in the module variable
  \<^verbatim>\<open>cookie\<close>, issues the list request, decodes and converts the workflows, selects the
  targets, starts one \<^verbatim>\<open>cancelBuild\<close> per target in order and awaits
  \<^verbatim>\<open>Promise.all\<close> of them. A run is the final module state, the requests issued in order,
  and the value or the error of the returned promise.

  \<^verbatim>\<open>Promise.all\<close> rejects with the first rejection that settles. A \<^verbatim>\<open>cancelBuild\<close> that
  throws before its \<^verbatim>\<open>await\<close> returns an already rejected promise, whose rejection reaches
  \<^verbatim>\<open>Promise.all\<close> in a microtask, in index order, before any response arrives. The
  network settles the issued requests in an order the program does not control; it is the
  parameter \<open>rank\<close> (the time at which each target's request settles), ties in index
  order.
\<close>

record run =
  run_state :: module_state
  run_requests :: "request list"
  run_result :: "(unit list) result"

text \<open>The requests that the started \<^verbatim>\<open>cancelBuild\<close> calls issue, in the order of the calls.\<close>

definition issued :: "request result list \<Rightarrow> request list" where
  "issued outs = concat (map (\<lambda>out. case out of Inl _ \<Rightarrow> [] | Inr r \<Rightarrow> [r]) outs)"

text \<open>The settled value of one \<^verbatim>\<open>cancelBuild\<close> promise: its synchronous error, or the
  outcome of its request (the response itself is discarded).\<close>

definition cancel_outcome :: "transport \<Rightarrow> request result \<Rightarrow> unit result" where
  "cancel_outcome net out = (case out of Inl e \<Rightarrow> Inl e | Inr r \<Rightarrow> bindr (net r) (\<lambda>_. Inr ()))"

definition settle_order :: "(nat \<Rightarrow> nat) \<Rightarrow> request result list \<Rightarrow> nat list" where
  "settle_order rank outs =
     filter (\<lambda>k. isl (outs ! k)) [0..<length outs] @
     sort_key rank (filter (\<lambda>k. \<not> isl (outs ! k)) [0..<length outs])"

definition promise_all :: "(nat \<Rightarrow> nat) \<Rightarrow> transport \<Rightarrow> request result list \<Rightarrow> (unit list) result" where
  "promise_all rank net outs =
     (case find (\<lambda>k. isl (cancel_outcome net (outs ! k))) (settle_order rank outs) of
        None \<Rightarrow> Inr (replicate (length outs) ())
      | Some k \<Rightarrow> Inl (projl (cancel_outcome net (outs ! k))))"

text \<open>The whole function. \<^verbatim>\<open>!userCookie\<close> holds for \<^verbatim>\<open>undefined\<close> and for the empty string.\<close>

definition default_export ::
  "(tv \<Rightarrow> string) \<Rightarrow> transport \<Rightarrow> (nat \<Rightarrow> nat) \<Rightarrow> module_state \<Rightarrow> string option \<Rightarrow> run" where
  "default_export rt net rank st userCookie =
     (if userCookie = None \<or> userCookie = Some ''''
      then \<lparr>run_state = st, run_requests = [], run_result = Inl InvalidCookie\<rparr>
      else
        (let st1 = st\<lparr>cookie := userCookie\<rparr> in
         case bindr (getRawWorkflows st1 net) (convertRawWorkflows rt) of
           Inl e \<Rightarrow> \<lparr>run_state = st1, run_requests = [list_request st1], run_result = Inl e\<rparr>
         | Inr workflows \<Rightarrow>
             (let buildsToCancel = buildsToCancel (CIRCLE_BRANCH (process_env st1)) workflows;
                  outs = map (cancelBuild st1) buildsToCancel in
              \<lparr>run_state = st1, run_requests = list_request st1 # issued outs,
               run_result = promise_all rank net outs\<rparr>)))"

text \<open>The module states a process reaches: the state after module evaluation, and the state
  after any number of invocations with any cookie, transport and settle order.\<close>

inductive reachable :: "env \<Rightarrow> module_state \<Rightarrow> bool" where
  init: "reachable e (module_init e)"
| call: "reachable e st \<Longrightarrow> reachable e (run_state (default_export rt net rank st c))"

text \<open>What stays true of the module state across invocations: the header object keeps the
  value it was built with at module evaluation, the environment is the one read at load
  time, and the stored cookie is never the empty string.\<close>

definition module_inv :: "env \<Rightarrow> module_state \<Rightarrow> bool" where
  "module_inv e st \<longleftrightarrow>
     REQUEST_HEADERS st = request_headers None \<and> process_env st = e \<and> cookie st \<noteq> Some ''''"

text \<open>An example run, used to instantiate the theorems below: four workflows of branch
  \<^verbatim>\<open>main\<close>, the newest first; the third has no \<^verbatim>\<open>workflow/id\<close>. The transport answers
  every request with the same body.\<close>

definition example_entry :: "string option \<Rightarrow> string \<Rightarrow> json" where
  "example_entry i s =
     JArr ([JStr ''^ ''] @ (case i of None \<Rightarrow> [] | Some x \<Rightarrow> [JStr ''~:workflow/id'', JStr x]) @
           [JStr ''~:workflow/status'', JStr s, JStr ''~:workflow/name'', JStr ''build'',
            JStr ''~:workflow/trigger-info'',
            JArr [JStr ''^ '', JStr ''~:trigger-info/branch'', JStr ''main'']])"

definition example_response :: json where
  "example_response =
     JArr [JStr ''^ '', JStr ''~:results'',
       JArr [example_entry (Some ''c0'') ''running'', example_entry (Some ''a1'') ''running'',
             example_entry None ''blocked'', example_entry (Some ''a3'') ''running'']]"

definition example_env :: env where
  "example_env =
     \<lparr>CIRCLE_BRANCH = Some ''main'', CIRCLE_PROJECT_USERNAME = Some ''vinsidious'',
      CIRCLE_PROJECT_REPONAME = Some ''cancel-circle-workflows''\<rparr>"

definition example_net :: transport where
  "example_net r = Inr (Some example_response)"

definition example_info :: "string option \<Rightarrow> string \<Rightarrow> WorkflowInfo" where
  "example_info i s =
     \<lparr>id' = i, status = Some (TStr s), commitSha = None, branchName = Some (TStr ''main''),
      workflowName = Some (TStr ''build''), createdAt = None\<rparr>"

definition example_workflows :: "WorkflowInfo list" where
  "example_workflows =
     [example_info (Some ''c0'') ''running'', example_info (Some ''a1'') ''running'',
      example_info None ''blocked'', example_info (Some ''a3'') ''running'']"

text \<open>A transport whose list response has no workflow.\<close>

definition example_empty_net :: transport where
  "example_empty_net r = Inr (Some (JArr [JStr ''^ '', JStr ''~:results'', JArr []]))"

text \<open>A transport that rejects every request, and one whose list response has two workflows
  of branch \<^verbatim>\<open>main\<close>, both with an id.\<close>

definition example_fail_net :: transport where
  "example_fail_net r = Inl (RequestFailed ''503'')"

definition example_ok_net :: transport where
  "example_ok_net r =
     Inr (Some (JArr [JStr ''^ '', JStr ''~:results'',
       JArr [example_entry (Some ''c0'') ''running'', example_entry (Some ''a1'') ''blocked'']]))"

definition example_rt :: "tv \<Rightarrow> string" where
  "example_rt v = []"

definition example_rank :: "nat \<Rightarrow> nat" where
  "example_rank k = k"

definition example_state :: module_state where
  "example_state = (module_init example_env)\<lparr>cookie := Some ''session''\<rparr>"

text \<open>A settle order that lets one request settle before all others.\<close>

definition first_rank :: "nat \<Rightarrow> nat \<Rightarrow> nat" where
  "first_rank k i = (if i = k then 0 else 1)"

text \<open>A transport that answers the list request with the two workflows of
  \<open>example_ok_net\<close> and rejects every other request.\<close>

definition example_cancel_fail_net :: transport where
  "example_cancel_fail_net r =
     (if req_data r = list_query_data (Some ''vinsidious'') (Some ''cancel-circle-workflows'')
      then example_ok_net r else Inl (RequestFailed ''503''))"

text \<open>A transport that answers every request with a plain JSON error object.\<close>

definition example_unauth_net :: transport where
  "example_unauth_net r = Inr (Some (JObj [(''message'', JStr ''You must log in first'')]))"

section \<open>Lemmas\<close>

lemma default_export_state:
  "run_state (default_export rt net rank st c) = (if c = None \<or> c = Some '''' then st else st\<lparr>cookie := c\<rparr>)"
  by (simp add: default_export_def Let_def split: sum.split)

lemma reachable_headers:
  "reachable e st \<Longrightarrow> REQUEST_HEADERS st = request_headers None \<and> process_env st = e"
  by (induction rule: reachable.induct) (simp_all add: module_init_def default_export_state)

lemma set_issued: "r \<in> set (issued outs) \<longleftrightarrow> Inr r \<in> set outs"
  by (induction outs) (auto simp: issued_def split: sum.splits)

lemma cancelBuild_headers: "cancelBuild st w = Inr r \<Longrightarrow> req_headers r = REQUEST_HEADERS st"
  by (cases "id' w") (auto simp: cancelBuild_Some cancelBuild_None)

lemma default_export_requests:
  "r \<in> set (run_requests (default_export rt net rank st c)) \<Longrightarrow> req_headers r = REQUEST_HEADERS st"
  by (auto simp: default_export_def Let_def list_request_def set_issued cancelBuild_headers
      split: if_splits sum.splits)

lemma set_settle_order: "set (settle_order rank outs) = {0..<length outs}"
  by (auto simp: settle_order_def)

lemma length_issued: "length (issued outs) \<le> length outs"
  by (induction outs) (auto simp: issued_def split: sum.splits)

lemma length_buildsToCancel: "length (buildsToCancel b ws) \<le> length ws - 1"
proof -
  have "length (buildsToCancel b ws) \<le> length (oldBuilds b ws)"
    by (simp add: buildsToCancel_def)
  also have "\<dots> \<le> length ws - 1"
    using length_filter_le [of "branch_matches b" ws] by (simp add: oldBuilds_def diff_le_mono)
  finally show ?thesis .
qed

lemma default_export_fetched:
  assumes "c \<noteq> None" "c \<noteq> Some ''''"
    and "bindr (getRawWorkflows (st\<lparr>cookie := c\<rparr>) net) (convertRawWorkflows rt) = Inr ws"
  shows "default_export rt net rank st c =
     (let outs = map (cancelBuild (st\<lparr>cookie := c\<rparr>)) (buildsToCancel (CIRCLE_BRANCH (process_env st)) ws) in
      \<lparr>run_state = st\<lparr>cookie := c\<rparr>, run_requests = list_request (st\<lparr>cookie := c\<rparr>) # issued outs,
       run_result = promise_all rank net outs\<rparr>)"
  using assms by (simp add: default_export_def Let_def)

lemma example_fetch:
  "bindr (getRawWorkflows example_state example_net) (convertRawWorkflows rt) = Inr example_workflows"
  by (simp add: getRawWorkflows_def read_response_Some example_net_def example_response_def
      example_entry_def transit_read_def decode_keyword decode_literal literal_safe_def
      extractFromTransitMapByName_def keySet_def map_get_def convertRawWorkflows_def
      getInfoForWorkflow_def example_workflows_def example_info_def)

lemma example_empty_fetch:
  "bindr (getRawWorkflows st example_empty_net) (convertRawWorkflows rt) = Inr []"
  by (simp add: getRawWorkflows_def read_response_Some example_empty_net_def transit_read_def decode_keyword
      extractFromTransitMapByName_def keySet_def map_get_def convertRawWorkflows_def)

lemma cancel_outcome_ok: "out = Inr r \<Longrightarrow> \<not> isl (net r) \<Longrightarrow> \<not> isl (cancel_outcome net out)"
  by (cases "net r") (simp_all add: cancel_outcome_def)

lemma example_ok_fetch:
  "bindr (getRawWorkflows st example_ok_net) (convertRawWorkflows rt) =
     Inr [example_info (Some ''c0'') ''running'', example_info (Some ''a1'') ''blocked'']"
  by (simp add: getRawWorkflows_def read_response_Some example_ok_net_def
      example_entry_def transit_read_def decode_keyword decode_literal literal_safe_def
      extractFromTransitMapByName_def keySet_def map_get_def convertRawWorkflows_def
      getInfoForWorkflow_def example_info_def)

text \<open>The requests of the started \<^verbatim>\<open>cancelBuild\<close> calls: one per target with an id, in the
  order of the targets.\<close>

lemma issued_cancelBuild:
  "issued (map (cancelBuild st) ts) =
     map (\<lambda>w. \<lparr>req_url = CIRCLE_QUERY_API,
               req_data = transit_write (cancel_command (UUIDfromString (the (id' w))) (undefined_as_null (workflowName w))),
               req_headers = REQUEST_HEADERS st\<rparr>)
       (filter (\<lambda>w. id' w \<noteq> None) ts)"
proof (induction ts)
  case Nil
  then show ?case by (simp add: issued_def)
next
  case (Cons w ts)
  then show ?case
    by (cases "id' w") (simp_all add: issued_def cancelBuild_Some cancelBuild_None)
qed

lemma example_targets:
  "buildsToCancel (CIRCLE_BRANCH (process_env example_state)) example_workflows =
     [example_info (Some ''a1'') ''running'', example_info None ''blocked'', example_info (Some ''a3'') ''running'']"
  by (simp add: buildsToCancel_def oldBuilds_def branch_matches_def is_cancelable_def
      example_workflows_def example_info_def example_state_def module_init_def example_env_def)

text \<open>A synchronous rejection settles before every response: when some started call threw,
  \<^verbatim>\<open>Promise.all\<close> rejects with the error of the first call, in index order, that threw.\<close>

lemma promise_all_sync_error:
  assumes "k < length outs" "isl (outs ! k)"
  shows "\<exists>j < length outs. isl (outs ! j) \<and> promise_all rank net outs = Inl (projl (outs ! j))"
proof -
  obtain j rest where f: "filter (\<lambda>k. isl (outs ! k)) [0..<length outs] = j # rest"
    using assms by (cases "filter (\<lambda>k. isl (outs ! k)) [0..<length outs]") (auto simp: filter_empty_conv)
  have "j \<in> set (filter (\<lambda>k. isl (outs ! k)) [0..<length outs])" by (simp add: f)
  then have j: "j < length outs" "isl (outs ! j)" by simp_all
  then have "isl (cancel_outcome net (outs ! j))" by (auto simp: cancel_outcome_def split: sum.split)
  then have "promise_all rank net outs = Inl (projl (cancel_outcome net (outs ! j)))"
    by (simp add: promise_all_def settle_order_def f)
  with j show ?thesis by (auto simp: cancel_outcome_def split: sum.splits)
qed

lemma cancelBuild_Inl:
  "cancelBuild st w = Inl e \<Longrightarrow> e = TypeError ''Cannot read properties of undefined (reading replace)''"
  by (cases "id' w") (simp_all add: cancelBuild_Some cancelBuild_None)

text \<open>Only the header object and the environment of the module state reach a request: the
  stored cookie does not.\<close>

lemma list_request_cookie: "list_request (st\<lparr>cookie := x\<rparr>) = list_request st"
  by (simp add: list_request_def)

lemma getRawWorkflows_cookie: "getRawWorkflows (st\<lparr>cookie := x\<rparr>) net = getRawWorkflows st net"
  by (simp add: getRawWorkflows_def list_request_cookie)

lemma cancelBuild_cookie: "cancelBuild (st\<lparr>cookie := x\<rparr>) = cancelBuild st"
proof
  fix w
  show "cancelBuild (st\<lparr>cookie := x\<rparr>) w = cancelBuild st w"
    by (cases "id' w") (simp_all add: cancelBuild_Some cancelBuild_None)
qed

lemma reachable_cookie: "reachable e st \<Longrightarrow> cookie st \<noteq> Some ''''"
  by (induction rule: reachable.induct) (simp_all add: module_init_def default_export_state)



text \<open>An invocation with a valid cookie, as a function of the module state without its
  cookie.\<close>

lemma default_export_valid:
  assumes "c \<noteq> None" "c \<noteq> Some ''''"
  shows "run_requests (default_export rt net rank st c) =
           (case bindr (getRawWorkflows st net) (convertRawWorkflows rt) of
              Inl _ \<Rightarrow> [list_request st]
            | Inr ws \<Rightarrow> list_request st # issued (map (cancelBuild st) (buildsToCancel (CIRCLE_BRANCH (process_env st)) ws)))
       \<and> run_result (default_export rt net rank st c) =
           (case bindr (getRawWorkflows st net) (convertRawWorkflows rt) of
              Inl err \<Rightarrow> Inl err
            | Inr ws \<Rightarrow> promise_all rank net (map (cancelBuild st) (buildsToCancel (CIRCLE_BRANCH (process_env st)) ws)))"
  using assms by (simp add: default_export_def Let_def getRawWorkflows_cookie cancelBuild_cookie list_request_cookie split: sum.split)

text \<open>The settled values of \<^verbatim>\<open>Promise.all\<close>: it resolves when no call fails, and otherwise
  rejects with the error of a failed call.\<close>

lemma promise_all_ok:
  "\<forall>k < length outs. \<not> isl (cancel_outcome net (outs ! k)) \<Longrightarrow>
   promise_all rank net outs = Inr (replicate (length outs) ())"
proof -
  assume "\<forall>k < length outs. \<not> isl (cancel_outcome net (outs ! k))"
  then have "find (\<lambda>k. isl (cancel_outcome net (outs ! k))) (settle_order rank outs) = None"
    by (auto simp: find_None_iff set_settle_order)
  then show ?thesis by (simp add: promise_all_def)
qed

lemma promise_all_fail:
  assumes "k < length outs" "isl (cancel_outcome net (outs ! k))"
  obtains j where "j < length outs" "isl (cancel_outcome net (outs ! j))"
    "promise_all rank net outs = Inl (projl (cancel_outcome net (outs ! j)))"
proof -
  have "k \<in> set (settle_order rank outs)" using assms(1) by (simp add: set_settle_order)
  with assms(2) obtain j where f: "find (\<lambda>k. isl (cancel_outcome net (outs ! k))) (settle_order rank outs) = Some j"
    by (metis find_None_iff option.exhaust)
  then have "j < length outs" "isl (cancel_outcome net (outs ! j))"
    using find_SomeD set_settle_order by fastforce+
  with f show ?thesis using that by (simp add: promise_all_def)
qed

lemma sort_key_first_rank:
  assumes "k \<in> set xs"
  obtains rest where "sort_key (first_rank k) xs = k # rest"
proof (cases "sort_key (first_rank k) xs")
  case Nil
  then show ?thesis using assms by (metis empty_iff set_sort set_empty)
next
  case (Cons y rest)
  have "sorted (map (first_rank k) (y # rest))" by (metis Cons sorted_sort_key)
  moreover have "k \<in> set (y # rest)" by (metis Cons assms set_sort)
  ultimately have "first_rank k y \<le> first_rank k k" by auto
  then have "y = k" by (simp add: first_rank_def split: if_splits)
  with Cons that show ?thesis by simp
qed

text \<open>
  C9 (safety; the cookie is never sent): in every module state a process reaches, every
  request an invocation issues -- the list query and every cancellation -- has the header
  \<^verbatim>\<open>Cookie\<close> with the value \<^verbatim>\<open>undefined\<close>: \<^verbatim>\<open>REQUEST_HEADERS\<close> is built once, at module
  evaluation, when \<^verbatim>\<open>cookie\<close> has no value, and assigning \<^verbatim>\<open>cookie\<close> later does not change it.
\<close>

theorem cookie_never_sent:
  assumes "reachable e st" "r \<in> set (run_requests (default_export rt net rank st c))"
  shows "map_of (req_headers r) ''Cookie'' = Some None"
  using default_export_requests [OF assms(2)] reachable_headers [OF assms(1)]
  by (simp add: request_headers_def)

theorem cookie_never_sent_witness:
  "reachable example_env (module_init example_env) \<and>
   list_request example_state \<in> set (run_requests (default_export example_rt example_net example_rank (module_init example_env) (Some ''session''))) \<and>
   map_of (req_headers (list_request example_state)) ''Cookie'' = Some None"
  using cookie_never_sent [where e = example_env and st = "module_init example_env" and r = "list_request example_state"
      and net = example_net and c = "Some ''session''" and rt = example_rt and rank = example_rank, OF reachable.init]
    example_fetch [of example_rt]
  by (simp add: reachable.init default_export_fetched example_state_def Let_def)

text \<open>
  C10 (error reporting; diverges from spec \<section>4.6): when some target fails, the invocation
  rejects with the error of one failed target -- the first to settle -- and reports neither
  the other outcomes nor which target failed; it never returns the per-target list of
  successes and failures that the specification asks for.
\<close>

theorem default_export_one_error:
  assumes "c \<noteq> None" "c \<noteq> Some ''''"
    and "bindr (getRawWorkflows (st\<lparr>cookie := c\<rparr>) net) (convertRawWorkflows rt) = Inr ws"
    and "outs = map (cancelBuild (st\<lparr>cookie := c\<rparr>)) (buildsToCancel (CIRCLE_BRANCH (process_env st)) ws)"
    and "k < length outs" "isl (cancel_outcome net (outs ! k))"
  shows "\<exists>j < length outs. isl (cancel_outcome net (outs ! j)) \<and>
           run_result (default_export rt net rank st c) = Inl (projl (cancel_outcome net (outs ! j)))"
proof -
  obtain j where "j < length outs" "isl (cancel_outcome net (outs ! j))"
      "promise_all rank net outs = Inl (projl (cancel_outcome net (outs ! j)))"
    using promise_all_fail [OF assms(5,6)] by blast
  moreover have "run_result (default_export rt net rank st c) = promise_all rank net outs"
    using assms(4) by (simp add: default_export_fetched [OF assms(1-3)] Let_def)
  ultimately show ?thesis by auto
qed

theorem default_export_one_error_witness:
  "Some ''session'' \<noteq> None \<and> Some ''session'' \<noteq> Some [] \<and>
   bindr (getRawWorkflows ((module_init example_env)\<lparr>cookie := Some ''session''\<rparr>) example_net) (convertRawWorkflows example_rt) = Inr example_workflows \<and>
   1 < length (map (cancelBuild ((module_init example_env)\<lparr>cookie := Some ''session''\<rparr>)) (buildsToCancel (CIRCLE_BRANCH (process_env (module_init example_env))) example_workflows)) \<and>
   isl (cancel_outcome example_net (map (cancelBuild ((module_init example_env)\<lparr>cookie := Some ''session''\<rparr>)) (buildsToCancel (CIRCLE_BRANCH (process_env (module_init example_env))) example_workflows) ! 1)) \<and>
   (\<exists>j < 3. isl (cancel_outcome example_net (map (cancelBuild ((module_init example_env)\<lparr>cookie := Some ''session''\<rparr>)) (buildsToCancel (CIRCLE_BRANCH (process_env (module_init example_env))) example_workflows) ! j)) \<and>
      run_result (default_export example_rt example_net example_rank (module_init example_env) (Some ''session'')) =
        Inl (projl (cancel_outcome example_net (map (cancelBuild ((module_init example_env)\<lparr>cookie := Some ''session''\<rparr>)) (buildsToCancel (CIRCLE_BRANCH (process_env (module_init example_env))) example_workflows) ! j))))"
proof -
  have f: "bindr (getRawWorkflows ((module_init example_env)\<lparr>cookie := Some ''session''\<rparr>) example_net) (convertRawWorkflows example_rt) = Inr example_workflows"
    using example_fetch by (simp add: example_state_def)
  have t: "buildsToCancel (CIRCLE_BRANCH (process_env (module_init example_env))) example_workflows =
     [example_info (Some ''a1'') ''running'', example_info None ''blocked'', example_info (Some ''a3'') ''running'']"
    using example_targets by (simp add: example_state_def)
  have o: "isl (cancel_outcome example_net (map (cancelBuild ((module_init example_env)\<lparr>cookie := Some ''session''\<rparr>)) (buildsToCancel (CIRCLE_BRANCH (process_env (module_init example_env))) example_workflows) ! 1))"
    by (simp add: t cancel_outcome_def cancelBuild_None example_info_def)
  have l: "1 < length (map (cancelBuild ((module_init example_env)\<lparr>cookie := Some ''session''\<rparr>)) (buildsToCancel (CIRCLE_BRANCH (process_env (module_init example_env))) example_workflows))"
    by (simp add: t)
  show ?thesis
    using default_export_one_error [where c = "Some ''session''" and st = "module_init example_env" and net = example_net
        and rt = example_rt and ws = example_workflows and k = 1 and rank = example_rank, OF _ _ f refl l o] f o l
    by (simp add: t numeral_3_eq_3)
qed

text \<open>
  C15 (invariant): in every module state a process reaches, through module evaluation and
  any sequence of invocations with any cookies, transports and settle orders, the header
  object is the one built at load time (its \<^verbatim>\<open>Cookie\<close> is \<^verbatim>\<open>undefined\<close>), the
  environment is the one read at load time, and the stored cookie is never the empty string.
\<close>

theorem reachable_module_inv:
  assumes "reachable e st"
  shows "module_inv e st"
  using reachable_headers [OF assms] reachable_cookie [OF assms] by (simp add: module_inv_def)

theorem reachable_module_inv_witness:
  "reachable example_env (run_state (default_export example_rt example_net example_rank (module_init example_env) (Some ''session''))) \<and>
   module_inv example_env (run_state (default_export example_rt example_net example_rank (module_init example_env) (Some ''session'')))"
  using reachable_module_inv [OF reachable.call [OF reachable.init, of example_env example_rt example_net example_rank "Some ''session''"]]
  by (simp add: reachable.call reachable.init)

text \<open>
  C16 (bounds): an invocation issues at most one request per fetched workflow, and one
  when there is none: the list query, and at most one cancellation for each record of the
  branch after the current build.
\<close>

theorem default_export_request_bound:
  assumes "bindr (getRawWorkflows (st\<lparr>cookie := c\<rparr>) net) (convertRawWorkflows rt) = Inr ws"
  shows "length (run_requests (default_export rt net rank st c)) \<le> max 1 (length ws)"
proof (cases "c = None \<or> c = Some ''''")
  case True
  then show ?thesis by (auto simp: default_export_def)
next
  case False
  let ?outs = "map (cancelBuild (st\<lparr>cookie := c\<rparr>)) (buildsToCancel (CIRCLE_BRANCH (process_env st)) ws)"
  have "length (issued ?outs) \<le> length ws - 1"
    using length_issued [of ?outs] length_buildsToCancel [of "CIRCLE_BRANCH (process_env st)" ws] by simp
  then show ?thesis
    using False by (simp add: default_export_fetched [OF _ _ assms] Let_def)
qed

theorem default_export_request_bound_witness:
  "bindr (getRawWorkflows ((module_init example_env)\<lparr>cookie := Some ''session''\<rparr>) example_net) (convertRawWorkflows example_rt) = Inr example_workflows \<and>
   length (run_requests (default_export example_rt example_net example_rank (module_init example_env) (Some ''session''))) \<le>
     max 1 (length example_workflows)"
proof -
  have f: "bindr (getRawWorkflows ((module_init example_env)\<lparr>cookie := Some ''session''\<rparr>) example_net) (convertRawWorkflows example_rt) = Inr example_workflows"
    using example_fetch by (simp add: example_state_def)
  show ?thesis using default_export_request_bound [OF f, of example_rank] f by simp
qed

text \<open>
  C17 (functional; no target): when the branch has no stale running or blocked build --
  in particular when it has no build at all, which the specification calls
  \<open>NoMatchingBuild\<close> -- an invocation with a valid cookie issues the list query only and
  resolves with the empty list.
\<close>

theorem default_export_no_target:
  assumes "c \<noteq> None" "c \<noteq> Some ''''"
    and "bindr (getRawWorkflows (st\<lparr>cookie := c\<rparr>) net) (convertRawWorkflows rt) = Inr ws"
    and "buildsToCancel (CIRCLE_BRANCH (process_env st)) ws = []"
  shows "run_requests (default_export rt net rank st c) = [list_request (st\<lparr>cookie := c\<rparr>)] \<and>
         run_result (default_export rt net rank st c) = Inr []"
  using assms by (simp add: default_export_fetched issued_def promise_all_def settle_order_def)

theorem default_export_no_target_witness:
  "Some ''session'' \<noteq> None \<and> Some ''session'' \<noteq> Some [] \<and>
   bindr (getRawWorkflows ((module_init example_env)\<lparr>cookie := Some ''session''\<rparr>) example_empty_net)
     (convertRawWorkflows example_rt) = Inr [] \<and>
   buildsToCancel (CIRCLE_BRANCH (process_env (module_init example_env))) [] = [] \<and>
   run_requests (default_export example_rt example_empty_net example_rank (module_init example_env) (Some ''session'')) =
     [list_request ((module_init example_env)\<lparr>cookie := Some ''session''\<rparr>)] \<and>
   run_result (default_export example_rt example_empty_net example_rank (module_init example_env) (Some ''session'')) = Inr []"
proof -
  have f: "bindr (getRawWorkflows ((module_init example_env)\<lparr>cookie := Some ''session''\<rparr>) example_empty_net)
     (convertRawWorkflows example_rt) = Inr []"
    by (rule example_empty_fetch)
  have b: "buildsToCancel (CIRCLE_BRANCH (process_env (module_init example_env))) [] = []"
    by (simp add: buildsToCancel_def oldBuilds_def)
  show ?thesis using default_export_no_target [OF _ _ f b, of example_rank] f b by simp
qed

text \<open>
  C18 (errors; line 104): an invocation without a cookie -- \<^verbatim>\<open>undefined\<close> or the empty
  string -- rejects with the entry point's own error before touching the module state or the
  network.
\<close>

theorem default_export_invalid_cookie:
  assumes "c = None \<or> c = Some ''''"
  shows "default_export rt net rank st c = \<lparr>run_state = st, run_requests = [], run_result = Inl InvalidCookie\<rparr>"
  using assms by (auto simp: default_export_def)

theorem default_export_invalid_cookie_witness:
  "(Some '''' = None \<or> Some '''' = Some '''') \<and>
   default_export example_rt example_net example_rank example_state (Some '''') =
     \<lparr>run_state = example_state, run_requests = [], run_result = Inl InvalidCookie\<rparr>"
  using default_export_invalid_cookie [of "Some ''''" example_rt example_net example_rank example_state] by simp

text \<open>
  C19 (errors; fatal fetch): when the list request, its decoding or the conversion of the
  workflows fails, the invocation rejects with that error after the list request alone: no
  cancellation is started.
\<close>

theorem default_export_fetch_error:
  assumes "c \<noteq> None" "c \<noteq> Some ''''"
    and "bindr (getRawWorkflows (st\<lparr>cookie := c\<rparr>) net) (convertRawWorkflows rt) = Inl e"
  shows "run_requests (default_export rt net rank st c) = [list_request (st\<lparr>cookie := c\<rparr>)] \<and>
         run_result (default_export rt net rank st c) = Inl e"
  using assms by (simp add: default_export_def Let_def)

theorem default_export_fetch_error_witness:
  "Some ''session'' \<noteq> None \<and> Some ''session'' \<noteq> Some [] \<and>
   bindr (getRawWorkflows ((module_init example_env)\<lparr>cookie := Some ''session''\<rparr>) example_fail_net)
     (convertRawWorkflows example_rt) = Inl (RequestFailed ''503'') \<and>
   run_requests (default_export example_rt example_fail_net example_rank (module_init example_env) (Some ''session'')) =
     [list_request ((module_init example_env)\<lparr>cookie := Some ''session''\<rparr>)] \<and>
   run_result (default_export example_rt example_fail_net example_rank (module_init example_env) (Some ''session'')) =
     Inl (RequestFailed ''503'')"
proof -
  have f: "bindr (getRawWorkflows ((module_init example_env)\<lparr>cookie := Some ''session''\<rparr>) example_fail_net)
     (convertRawWorkflows example_rt) = Inl (RequestFailed ''503'')"
    by (simp add: getRawWorkflows_def example_fail_net_def)
  show ?thesis using default_export_fetch_error [OF _ _ f, of example_rank] f by simp
qed

text \<open>
  C20 (functional; order of the requests): after the list query, an invocation issues one
  cancel request for each target that has an id, in the order of the targets (the server's
  order), each for the cancel command of that target.
\<close>

theorem default_export_request_order:
  assumes "c \<noteq> None" "c \<noteq> Some ''''"
    and "bindr (getRawWorkflows (st\<lparr>cookie := c\<rparr>) net) (convertRawWorkflows rt) = Inr ws"
  shows "run_requests (default_export rt net rank st c) =
           list_request (st\<lparr>cookie := c\<rparr>) #
           map (\<lambda>w. \<lparr>req_url = CIRCLE_QUERY_API,
                     req_data = transit_write (cancel_command (UUIDfromString (the (id' w))) (undefined_as_null (workflowName w))),
                     req_headers = REQUEST_HEADERS st\<rparr>)
             (filter (\<lambda>w. id' w \<noteq> None) (buildsToCancel (CIRCLE_BRANCH (process_env st)) ws))"
  using assms by (simp add: default_export_fetched issued_cancelBuild Let_def)

theorem default_export_request_order_witness:
  "Some ''session'' \<noteq> None \<and> Some ''session'' \<noteq> Some [] \<and>
   bindr (getRawWorkflows ((module_init example_env)\<lparr>cookie := Some ''session''\<rparr>) example_net) (convertRawWorkflows example_rt) = Inr example_workflows \<and>
   run_requests (default_export example_rt example_net example_rank (module_init example_env) (Some ''session'')) =
     list_request ((module_init example_env)\<lparr>cookie := Some ''session''\<rparr>) #
     map (\<lambda>w. \<lparr>req_url = CIRCLE_QUERY_API,
               req_data = transit_write (cancel_command (UUIDfromString (the (id' w))) (undefined_as_null (workflowName w))),
               req_headers = REQUEST_HEADERS (module_init example_env)\<rparr>)
       (filter (\<lambda>w. id' w \<noteq> None) (buildsToCancel (CIRCLE_BRANCH (process_env (module_init example_env))) example_workflows))"
proof -
  have f: "bindr (getRawWorkflows ((module_init example_env)\<lparr>cookie := Some ''session''\<rparr>) example_net) (convertRawWorkflows example_rt) = Inr example_workflows"
    using example_fetch by (simp add: example_state_def)
  show ?thesis using default_export_request_order [OF _ _ f, of example_rank] f by simp
qed

text \<open>
  C21 (functional; success): when every target has an id and the network accepts every
  request, the invocation resolves with one value per target.
\<close>

theorem default_export_all_cancelled:
  assumes "c \<noteq> None" "c \<noteq> Some ''''"
    and "bindr (getRawWorkflows (st\<lparr>cookie := c\<rparr>) net) (convertRawWorkflows rt) = Inr ws"
    and "list_all (\<lambda>w. id' w \<noteq> None) (buildsToCancel (CIRCLE_BRANCH (process_env st)) ws)"
    and "\<And>r. \<not> isl (net r)"
  shows "run_result (default_export rt net rank st c) =
           Inr (replicate (length (buildsToCancel (CIRCLE_BRANCH (process_env st)) ws)) ())"
proof -
  let ?outs = "map (cancelBuild (st\<lparr>cookie := c\<rparr>)) (buildsToCancel (CIRCLE_BRANCH (process_env st)) ws)"
  have "\<not> isl (cancel_outcome net (?outs ! k))" if k: "k < length ?outs" for k
  proof -
    obtain i where "id' (buildsToCancel (CIRCLE_BRANCH (process_env st)) ws ! k) = Some i"
      using assms(4) k by (auto simp: list_all_length)
    then have "?outs ! k = Inr \<lparr>req_url = CIRCLE_QUERY_API,
        req_data = transit_write (cancel_command (UUIDfromString i)
          (undefined_as_null (workflowName (buildsToCancel (CIRCLE_BRANCH (process_env st)) ws ! k)))),
        req_headers = REQUEST_HEADERS (st\<lparr>cookie := c\<rparr>)\<rparr>"
      using k by (simp add: cancelBuild_Some)
    then show ?thesis using assms(5) by (rule cancel_outcome_ok)
  qed
  then show ?thesis
    using assms(1-3) by (simp add: default_export_fetched promise_all_ok Let_def)
qed

theorem default_export_all_cancelled_witness:
  "Some ''session'' \<noteq> None \<and> Some ''session'' \<noteq> Some [] \<and>
   bindr (getRawWorkflows ((module_init example_env)\<lparr>cookie := Some ''session''\<rparr>) example_ok_net)
     (convertRawWorkflows example_rt) = Inr [example_info (Some ''c0'') ''running'', example_info (Some ''a1'') ''blocked''] \<and>
   list_all (\<lambda>w. id' w \<noteq> None) (buildsToCancel (CIRCLE_BRANCH (process_env (module_init example_env)))
     [example_info (Some ''c0'') ''running'', example_info (Some ''a1'') ''blocked'']) \<and>
   \<not> isl (example_ok_net (list_request example_state)) \<and>
   run_result (default_export example_rt example_ok_net example_rank (module_init example_env) (Some ''session'')) =
     Inr (replicate (length (buildsToCancel (CIRCLE_BRANCH (process_env (module_init example_env)))
       [example_info (Some ''c0'') ''running'', example_info (Some ''a1'') ''blocked''])) ())"
proof -
  have f: "bindr (getRawWorkflows ((module_init example_env)\<lparr>cookie := Some ''session''\<rparr>) example_ok_net)
     (convertRawWorkflows example_rt) = Inr [example_info (Some ''c0'') ''running'', example_info (Some ''a1'') ''blocked'']"
    by (rule example_ok_fetch)
  have t: "list_all (\<lambda>w. id' w \<noteq> None) (buildsToCancel (CIRCLE_BRANCH (process_env (module_init example_env)))
     [example_info (Some ''c0'') ''running'', example_info (Some ''a1'') ''blocked''])"
    by (simp add: buildsToCancel_def oldBuilds_def branch_matches_def is_cancelable_def example_info_def
        module_init_def example_env_def)
  have n: "\<And>r. \<not> isl (example_ok_net r)" by (simp add: example_ok_net_def)
  show ?thesis using default_export_all_cancelled [OF _ _ f t n, of example_rank] f t n by simp
qed

text \<open>
  C24 (error; ordering of settlement): when a target has no \<^verbatim>\<open>workflow/id\<close>, the invocation
  rejects with the \<^verbatim>\<open>TypeError\<close> of that \<^verbatim>\<open>cancelBuild\<close>, whatever the transport answers
  and in whatever order the requests settle: the synchronous rejection reaches
  \<^verbatim>\<open>Promise.all\<close> before any response.
\<close>

theorem default_export_missing_id:
  assumes "c \<noteq> None" "c \<noteq> Some ''''"
    and "bindr (getRawWorkflows (st\<lparr>cookie := c\<rparr>) net) (convertRawWorkflows rt) = Inr ws"
    and "w \<in> set (buildsToCancel (CIRCLE_BRANCH (process_env st)) ws)" "id' w = None"
  shows "run_result (default_export rt net rank st c) =
           Inl (TypeError ''Cannot read properties of undefined (reading replace)'')"
proof -
  define outs where "outs = map (cancelBuild (st\<lparr>cookie := c\<rparr>)) (buildsToCancel (CIRCLE_BRANCH (process_env st)) ws)"
  obtain k where "k < length outs" "isl (outs ! k)"
    using assms(4,5) by (auto simp: outs_def in_set_conv_nth cancelBuild_None)
  then obtain j where j: "j < length outs" "isl (outs ! j)" and p: "promise_all rank net outs = Inl (projl (outs ! j))"
    using promise_all_sync_error by blast
  have "outs ! j = Inl (TypeError ''Cannot read properties of undefined (reading replace)'')"
    using j by (cases "outs ! j") (auto simp: outs_def dest: cancelBuild_Inl)
  with p show ?thesis
    by (simp add: default_export_fetched [OF assms(1-3)] Let_def outs_def)
qed

theorem default_export_missing_id_witness:
  "Some ''session'' \<noteq> None \<and> Some ''session'' \<noteq> Some [] \<and>
   bindr (getRawWorkflows ((module_init example_env)\<lparr>cookie := Some ''session''\<rparr>) example_net) (convertRawWorkflows example_rt) = Inr example_workflows \<and>
   example_info None ''blocked'' \<in> set (buildsToCancel (CIRCLE_BRANCH (process_env (module_init example_env))) example_workflows) \<and>
   id' (example_info None ''blocked'') = None \<and>
   run_result (default_export example_rt example_net example_rank (module_init example_env) (Some ''session'')) =
     Inl (TypeError ''Cannot read properties of undefined (reading replace)'')"
proof -
  have f: "bindr (getRawWorkflows ((module_init example_env)\<lparr>cookie := Some ''session''\<rparr>) example_net) (convertRawWorkflows example_rt) = Inr example_workflows"
    using example_fetch by (simp add: example_state_def)
  have t: "example_info None ''blocked'' \<in> set (buildsToCancel (CIRCLE_BRANCH (process_env (module_init example_env))) example_workflows)"
    using example_targets by (simp add: example_state_def)
  show ?thesis
    using default_export_missing_id [OF _ _ f t, of example_rank] f t by (simp add: example_info_def)
qed

text \<open>
  C25 (ordering; independence of the settle order): when every target that fails fails with
  the same error, the outcome of the invocation does not depend on the order in which the
  network settles the requests.
\<close>

theorem default_export_order_independent:
  assumes "c \<noteq> None" "c \<noteq> Some ''''"
    and "bindr (getRawWorkflows (st\<lparr>cookie := c\<rparr>) net) (convertRawWorkflows rt) = Inr ws"
    and "\<forall>w \<in> set (buildsToCancel (CIRCLE_BRANCH (process_env st)) ws).
           isl (cancel_outcome net (cancelBuild st w)) \<longrightarrow> cancel_outcome net (cancelBuild st w) = Inl e"
  shows "run_result (default_export rt net rank st c) = run_result (default_export rt net rank' st c)"
proof -
  define outs where "outs = map (cancelBuild st) (buildsToCancel (CIRCLE_BRANCH (process_env st)) ws)"
  have same: "isl (cancel_outcome net (outs ! k)) \<Longrightarrow> k < length outs \<Longrightarrow> cancel_outcome net (outs ! k) = Inl e" for k
    using assms(4) by (auto simp: outs_def)
  have "promise_all rank net outs = promise_all rank' net outs"
  proof (cases "\<exists>k < length outs. isl (cancel_outcome net (outs ! k))")
    case True
    then obtain k where k: "k < length outs" "isl (cancel_outcome net (outs ! k))" by blast
    obtain j where "j < length outs" "isl (cancel_outcome net (outs ! j))"
        "promise_all rank net outs = Inl (projl (cancel_outcome net (outs ! j)))"
      using promise_all_fail [OF k] by blast
    moreover obtain j' where "j' < length outs" "isl (cancel_outcome net (outs ! j'))"
        "promise_all rank' net outs = Inl (projl (cancel_outcome net (outs ! j')))"
      using promise_all_fail [OF k] by blast
    ultimately show ?thesis using same [of j] same [of j'] by simp
  next
    case False
    then show ?thesis by (simp add: promise_all_ok)
  qed
  then show ?thesis
    using default_export_valid [OF assms(1,2)] assms(3) by (simp add: outs_def getRawWorkflows_cookie)
qed

theorem default_export_order_independent_witness:
  "Some ''session'' \<noteq> None \<and> Some ''session'' \<noteq> Some [] \<and>
   bindr (getRawWorkflows ((module_init example_env)\<lparr>cookie := Some ''session''\<rparr>) example_net) (convertRawWorkflows example_rt) = Inr example_workflows \<and>
   map (\<lambda>w. cancel_outcome example_net (cancelBuild (module_init example_env) w))
     (buildsToCancel (CIRCLE_BRANCH (process_env (module_init example_env))) example_workflows) =
     [Inr (), Inl (TypeError ''Cannot read properties of undefined (reading replace)''), Inr ()] \<and>
   run_result (default_export example_rt example_net example_rank (module_init example_env) (Some ''session'')) =
     run_result (default_export example_rt example_net (\<lambda>k. 0) (module_init example_env) (Some ''session''))"
proof -
  have f: "bindr (getRawWorkflows ((module_init example_env)\<lparr>cookie := Some ''session''\<rparr>) example_net) (convertRawWorkflows example_rt) = Inr example_workflows"
    using example_fetch by (simp add: example_state_def)
  have t: "buildsToCancel (CIRCLE_BRANCH (process_env (module_init example_env))) example_workflows =
     [example_info (Some ''a1'') ''running'', example_info None ''blocked'', example_info (Some ''a3'') ''running'']"
    using example_targets by (simp add: example_state_def)
  have o: "map (\<lambda>w. cancel_outcome example_net (cancelBuild (module_init example_env) w))
     (buildsToCancel (CIRCLE_BRANCH (process_env (module_init example_env))) example_workflows) =
     [Inr (), Inl (TypeError ''Cannot read properties of undefined (reading replace)''), Inr ()]"
    by (simp add: t cancel_outcome_def cancelBuild_Some cancelBuild_None example_info_def example_net_def)
  have "\<forall>w \<in> set (buildsToCancel (CIRCLE_BRANCH (process_env (module_init example_env))) example_workflows).
           isl (cancel_outcome example_net (cancelBuild (module_init example_env) w)) \<longrightarrow>
           cancel_outcome example_net (cancelBuild (module_init example_env) w) =
             Inl (TypeError ''Cannot read properties of undefined (reading replace)'')"
    using o by (auto simp: t)
  then show ?thesis
    using default_export_order_independent [OF _ _ f, of _ example_rank "\<lambda>k. 0"] f o by simp
qed

text \<open>
  C26 (ordering; the reported error depends on timing): when every target has an id, the
  error of every failed cancel request is the one the invocation rejects with under some
  order in which the network settles the requests; which error the user sees is decided by
  the network, not by the program.
\<close>

theorem default_export_failure_reportable:
  assumes "c \<noteq> None" "c \<noteq> Some ''''"
    and "bindr (getRawWorkflows (st\<lparr>cookie := c\<rparr>) net) (convertRawWorkflows rt) = Inr ws"
    and "\<forall>w' \<in> set (buildsToCancel (CIRCLE_BRANCH (process_env st)) ws). id' w' \<noteq> None"
    and "w \<in> set (buildsToCancel (CIRCLE_BRANCH (process_env st)) ws)"
    and "cancelBuild st w = Inr r" "net r = Inl e"
  shows "\<exists>rank. run_result (default_export rt net rank st c) = Inl e"
proof -
  define outs where "outs = map (cancelBuild st) (buildsToCancel (CIRCLE_BRANCH (process_env st)) ws)"
  obtain k where k: "k < length outs" "outs ! k = Inr r"
    using assms(5,6) by (auto simp: outs_def in_set_conv_nth)
  have "\<not> isl (outs ! i)" if i: "i < length outs" for i
  proof -
    have "buildsToCancel (CIRCLE_BRANCH (process_env st)) ws ! i \<in> set (buildsToCancel (CIRCLE_BRANCH (process_env st)) ws)"
      using i by (simp add: outs_def)
    then obtain y where "id' (buildsToCancel (CIRCLE_BRANCH (process_env st)) ws ! i) = Some y"
      using assms(4) by blast
    then show ?thesis using i by (simp add: outs_def cancelBuild_Some)
  qed
  then have nosync: "filter (\<lambda>i. isl (outs ! i)) [0..<length outs] = []"
    by (auto simp: filter_empty_conv)
  have "k \<in> set (filter (\<lambda>i. \<not> isl (outs ! i)) [0..<length outs])" using k by simp
  then obtain rest where "sort_key (first_rank k) (filter (\<lambda>i. \<not> isl (outs ! i)) [0..<length outs]) = k # rest"
    by (rule sort_key_first_rank)
  then have "settle_order (first_rank k) outs = k # rest" by (simp add: settle_order_def nosync)
  then have "promise_all (first_rank k) net outs = Inl e"
    using k assms(7) by (simp add: promise_all_def cancel_outcome_def)
  then show ?thesis
    using default_export_valid [OF assms(1,2)] assms(3) by (auto simp: outs_def getRawWorkflows_cookie)
qed

theorem default_export_failure_reportable_witness:
  "Some ''session'' \<noteq> None \<and> Some ''session'' \<noteq> Some [] \<and>
   bindr (getRawWorkflows ((module_init example_env)\<lparr>cookie := Some ''session''\<rparr>) example_cancel_fail_net)
     (convertRawWorkflows example_rt) = Inr [example_info (Some ''c0'') ''running'', example_info (Some ''a1'') ''blocked''] \<and>
   list_all (\<lambda>w. id' w \<noteq> None) (buildsToCancel (CIRCLE_BRANCH (process_env (module_init example_env)))
     [example_info (Some ''c0'') ''running'', example_info (Some ''a1'') ''blocked'']) \<and>
   example_info (Some ''a1'') ''blocked'' \<in> set (buildsToCancel (CIRCLE_BRANCH (process_env (module_init example_env)))
     [example_info (Some ''c0'') ''running'', example_info (Some ''a1'') ''blocked'']) \<and>
   cancelBuild (module_init example_env) (example_info (Some ''a1'') ''blocked'') =
     Inr \<lparr>req_url = CIRCLE_QUERY_API,
          req_data = transit_write (cancel_command (UUIDfromString ''a1'') (TStr ''build'')),
          req_headers = REQUEST_HEADERS (module_init example_env)\<rparr> \<and>
   example_cancel_fail_net
     \<lparr>req_url = CIRCLE_QUERY_API,
      req_data = transit_write (cancel_command (UUIDfromString ''a1'') (TStr ''build'')),
      req_headers = REQUEST_HEADERS (module_init example_env)\<rparr> = Inl (RequestFailed ''503'') \<and>
   (\<exists>rank. run_result (default_export example_rt example_cancel_fail_net rank (module_init example_env) (Some ''session'')) =
      Inl (RequestFailed ''503''))"
proof -
  have f: "bindr (getRawWorkflows ((module_init example_env)\<lparr>cookie := Some ''session''\<rparr>) example_cancel_fail_net)
     (convertRawWorkflows example_rt) = Inr [example_info (Some ''c0'') ''running'', example_info (Some ''a1'') ''blocked'']"
  proof -
    have "example_cancel_fail_net (list_request (module_init example_env)) = example_ok_net (list_request (module_init example_env))"
      by (simp add: example_cancel_fail_net_def list_request_def module_init_def example_env_def)
    then have "getRawWorkflows (module_init example_env) example_cancel_fail_net = getRawWorkflows (module_init example_env) example_ok_net"
      by (simp add: getRawWorkflows_def)
    then show ?thesis using example_ok_fetch by (simp add: getRawWorkflows_cookie)
  qed
  have t: "buildsToCancel (CIRCLE_BRANCH (process_env (module_init example_env)))
     [example_info (Some ''c0'') ''running'', example_info (Some ''a1'') ''blocked''] = [example_info (Some ''a1'') ''blocked'']"
    by (simp add: buildsToCancel_def oldBuilds_def branch_matches_def is_cancelable_def example_info_def
        module_init_def example_env_def)
  have c: "cancelBuild (module_init example_env) (example_info (Some ''a1'') ''blocked'') =
     Inr \<lparr>req_url = CIRCLE_QUERY_API,
          req_data = transit_write (cancel_command (UUIDfromString ''a1'') (TStr ''build'')),
          req_headers = REQUEST_HEADERS (module_init example_env)\<rparr>"
    by (simp add: cancelBuild_Some example_info_def undefined_as_null_def)
  obtain b where "transit_write (cancel_command (UUIDfromString ''a1'') (TStr ''build'')) =
     JArr [JStr ''~#list'', JArr [JStr ''~$run/cancel'',
       JArr [JStr ''^ '', JStr ''~:run/id'', JStr (''~u'' @ uuid_toString (UUIDfromString ''a1'')), JStr ''~:run/name'', b]]]"
    using cancel_command_wire by blast
  then have n: "example_cancel_fail_net
     \<lparr>req_url = CIRCLE_QUERY_API,
      req_data = transit_write (cancel_command (UUIDfromString ''a1'') (TStr ''build'')),
      req_headers = REQUEST_HEADERS (module_init example_env)\<rparr> = Inl (RequestFailed ''503'')"
    by (simp add: example_cancel_fail_net_def list_query_data_def)
  have m: "example_info (Some ''a1'') ''blocked'' \<in> set (buildsToCancel (CIRCLE_BRANCH (process_env (module_init example_env)))
     [example_info (Some ''c0'') ''running'', example_info (Some ''a1'') ''blocked''])"
    by (simp add: t)
  have "\<forall>w' \<in> set (buildsToCancel (CIRCLE_BRANCH (process_env (module_init example_env)))
     [example_info (Some ''c0'') ''running'', example_info (Some ''a1'') ''blocked'']). id' w' \<noteq> None"
    unfolding t by (simp add: example_info_def)
  then show ?thesis
    using default_export_failure_reportable [OF _ _ f _ m c n] f t c n
    by (simp add: example_info_def)
qed



text \<open>
  C28 (error path; silent success): when the list response decodes to a map without a
  \<^verbatim>\<open>results\<close> entry -- as a JSON error object such as \<^verbatim>\<open>{"message": ...}\<close> does --
  an invocation with a valid cookie issues only the list request and resolves with an
  empty array, as if there were nothing to cancel.
\<close>

theorem default_export_no_results:
  assumes "c \<noteq> None" "c \<noteq> Some ''''"
    and "net (list_request st) = Inr (Some j)" "read_response (Some j) = Inr (TMap m)"
    and "field_by_name m ''results'' = None"
  shows "run_requests (default_export rt net rank st c) = [list_request st] \<and>
         run_result (default_export rt net rank st c) = Inr []"
proof -
  have "bindr (getRawWorkflows st net) (convertRawWorkflows rt) = Inr []"
    using assms(3-5) by (simp add: getRawWorkflows_def extract_TMap convertRawWorkflows_def)
  moreover have "buildsToCancel b [] = []" for b by (simp add: buildsToCancel_def oldBuilds_def)
  ultimately show ?thesis
    using default_export_valid [OF assms(1,2)] by (simp add: issued_def promise_all_ok)
qed

theorem default_export_no_results_witness:
  "Some ''session'' \<noteq> None \<and> Some ''session'' \<noteq> Some [] \<and>
   example_unauth_net (list_request (module_init example_env)) =
     Inr (Some (JObj [(''message'', JStr ''You must log in first'')])) \<and>
   read_response (Some (JObj [(''message'', JStr ''You must log in first'')])) =
     Inr (TMap [(TStr ''message'', TStr ''You must log in first'')]) \<and>
   field_by_name [(TStr ''message'', TStr ''You must log in first'')] ''results'' = None \<and>
   run_requests (default_export example_rt example_unauth_net example_rank (module_init example_env) (Some ''session'')) =
     [list_request (module_init example_env)] \<and>
   run_result (default_export example_rt example_unauth_net example_rank (module_init example_env) (Some ''session'')) = Inr []"
proof -
  have r: "read_response (Some (JObj [(''message'', JStr ''You must log in first'')])) =
     Inr (TMap [(TStr ''message'', TStr ''You must log in first'')])"
    by (simp add: read_response_Some transit_read_def decode_string_def is_cacheable_def is_cache_code_def
        parse_string_def rcache_write_def rcache_empty_def Let_def cache_max_def)
  have n: "example_unauth_net (list_request (module_init example_env)) =
     Inr (Some (JObj [(''message'', JStr ''You must log in first'')]))"
    by (simp add: example_unauth_net_def)
  have f: "field_by_name [(TStr ''message'', TStr ''You must log in first'')] ''results'' = None"
    by (simp add: field_by_name_def)
  show ?thesis
    using default_export_no_results [where net = example_unauth_net and st = "module_init example_env"
        and c = "Some ''session''" and rt = example_rt and rank = example_rank, OF _ _ n r f] r n f
    by simp
qed



end
