(* ===== verification/Transit_Roundtrip.thy ===== *)
theory Transit_Roundtrip
  imports Transit_Codec
begin

text \<open>
  The transit codec round trip: what \<open>transit_write\<close> (the \<^verbatim>\<open>transit-js\<close> writer) produces,
  \<open>transit_read\<close> (the reader) decodes back to the value written, for every well-formed value.
  The proof relates the write cache and the read cache by the invariant
  \<open>cache_inv\<close>: every string the writer has cached under index \<open>i\<close> is one the reader
  has parsed and stored at \<open>i\<close>, and both caches have seen the same number of cacheable
  strings.  \<open>reads_back\<close>, \<open>elems_read_back\<close> and \<open>kvs_read_back\<close> state what one
  marshalled value, array body and map body decode to; \<open>marshal_reads_back\<close> proves them by
  computation induction over the writer.
\<close>

definition cache_inv :: "wcache \<Rightarrow> rcache \<Rightarrow> bool" where
  "cache_inv wc rc \<longleftrightarrow>
     wc_idx wc = rc_idx rc \<and> wc_idx wc \<le> cache_max \<and>
     (\<forall>s i. wc_map wc s = Some i \<longrightarrow>
        i < wc_idx wc \<and> (\<exists>x. parse_string s = Inr x \<and> rc_tab rc i = Some x))"

definition plain :: "string \<Rightarrow> bool" where
  "plain s \<longleftrightarrow> take 1 s \<noteq> ''^''"

fun transit_wf :: "tv \<Rightarrow> bool" where
  "transit_wf (TArr vs) = list_all transit_wf vs"
| "transit_wf (TMap ps) = list_all (\<lambda>(k, v). transit_wf k \<and> transit_wf v) ps"
| "transit_wf (TTagged t rep) =
     (if length t = 1
      then t \<notin> set reserved_tags \<and> t \<notin> {''#'', ''~'', ''^'', ''`''} \<and>
           (case rep of TStr _ \<Rightarrow> True | _ \<Rightarrow> False)
      else if t = ''list'' then (case rep of TArr _ \<Rightarrow> True | _ \<Rightarrow> False) \<and> transit_wf rep
      else t \<notin> set reserved_tags \<and> transit_wf rep)"
| "transit_wf _ = True"

definition reads_back :: "rcache \<Rightarrow> bool \<Rightarrow> json \<Rightarrow> tv \<Rightarrow> wcache \<Rightarrow> bool" where
  "reads_back rc km j v c' \<longleftrightarrow>
     (\<exists>rc'. decode rc km False j = Inr (DVal v, rc') \<and> cache_inv c' rc') \<and>
     (\<forall>vs. v = TArr vs \<longrightarrow> decode rc km True j = decode rc km False j) \<and>
     (\<forall>s. j = JStr s \<longrightarrow> s \<noteq> ''^ '')"

definition elems_read_back :: "rcache \<Rightarrow> json list \<Rightarrow> tv list \<Rightarrow> wcache \<Rightarrow> bool" where
  "elems_read_back rc js vs c' \<longleftrightarrow>
     (\<exists>rc'. decode_elems rc False js = Inr (vs, rc') \<and> cache_inv c' rc') \<and>
     (\<forall>rest. js \<noteq> JStr ''^ '' # rest)"

definition kvs_read_back :: "rcache \<Rightarrow> bool \<Rightarrow> json list \<Rightarrow> (tv \<times> tv) list \<Rightarrow> wcache \<Rightarrow> bool" where
  "kvs_read_back rc km js ps c' \<longleftrightarrow>
     (if km then \<exists>rc'. decode_kvs rc js = Inr (ps, rc') \<and> cache_inv c' rc'
      else elems_read_back rc js (concat (map (\<lambda>(k, v). [k, v]) ps)) c')"

lemma cache_inv_empty: "cache_inv wcache_empty rcache_empty"
  by (simp add: cache_inv_def wcache_empty_def rcache_empty_def)

lemma char_of_digit_ne_space: "48 \<le> n \<Longrightarrow> n < 256 \<Longrightarrow> char_of (n::nat) \<noteq> CHR '' ''"
proof
  assume "48 \<le> n" "n < 256" "char_of n = CHR '' ''"
  then have "of_char (char_of n) = (of_char (CHR '' '') :: nat)" by simp
  with \<open>48 \<le> n\<close> \<open>n < 256\<close> show False by simp
qed

lemma code_to_idx_idx_to_code:
  assumes "i < cache_max"
  shows "code_to_idx (idx_to_code i) = Some i"
proof -
  have hi: "i div 44 < 44" using assms by (simp add: cache_max_def less_mult_imp_div_less)
  have lo: "i mod 44 < 44" by simp
  show ?thesis
  proof (cases "i div 44 = 0")
    case True
    then have "i = i mod 44" by simp
    with True lo show ?thesis by (simp add: idx_to_code_def code_to_idx_def Let_def)
  next
    case False
    with hi lo show ?thesis
      by (simp add: idx_to_code_def code_to_idx_def Let_def)
  qed
qed

lemma idx_to_code_is_code: "i < cache_max \<Longrightarrow> is_cache_code (idx_to_code i)"
proof -
  assume "i < cache_max"
  then have "i div 44 < 44" by (simp add: cache_max_def less_mult_imp_div_less)
  show ?thesis
  proof (cases "i div 44 = 0")
    case True
    then have "i < 44" by simp
    with True show ?thesis
      by (simp add: idx_to_code_def is_cache_code_def Let_def char_of_digit_ne_space)
  next
    case False
    with \<open>i div 44 < 44\<close> show ?thesis
      by (simp add: idx_to_code_def is_cache_code_def Let_def char_of_digit_ne_space)
  qed
qed

lemma idx_to_code_not_cacheable: "\<not> is_cacheable (idx_to_code i) km"
  by (simp add: idx_to_code_def is_cacheable_def Let_def)

lemma idx_to_code_not_marker: "idx_to_code i \<noteq> ''^ ''"
proof (cases "i div 44 = 0")
  case True
  then have "i < 44" by simp
  with True show ?thesis by (simp add: idx_to_code_def Let_def char_of_digit_ne_space)
qed (simp add: idx_to_code_def Let_def)

lemma plain_not_code: "plain s \<Longrightarrow> \<not> is_cache_code s"
  by (simp add: plain_def is_cache_code_def)

lemma plain_not_marker: "plain s \<Longrightarrow> s \<noteq> ''^ ''"
  by (auto simp: plain_def)

text \<open>Writing one string and reading what was written.\<close>

lemma emit_decode_string:
  assumes inv: "cache_inv wc rc" and p: "parse_string s = Inr x" and pl: "plain s"
    and km: "is_cacheable s km2 = is_cacheable s km"
    and w: "wcache_write wc km s = (out, wc')"
  shows "\<exists>rc'. decode_string rc km2 out = Inr (x, rc') \<and> cache_inv wc' rc' \<and> out \<noteq> ''^ ''"
proof (cases "is_cacheable s km")
  case False
  with w have "out = s" "wc' = wc" by (simp_all add: wcache_write_def)
  with False km p pl inv show ?thesis
    by (simp add: decode_string_def plain_not_code plain_not_marker)
next
  case True
  define c1 where "c1 = (if wc_idx wc = cache_max then wcache_empty else wc)"
  have inv1: "wc_idx c1 < cache_max"
    "\<And>s i. wc_map c1 s = Some i \<Longrightarrow> i < wc_idx c1 \<and> (\<exists>x. parse_string s = Inr x \<and> rc_tab rc i = Some x)"
    "wc_idx c1 = (if rc_idx rc = cache_max then 0 else rc_idx rc)"
    using inv by (auto simp: c1_def cache_inv_def wcache_empty_def cache_max_def)
  have ww: "wcache_write wc km s =
     (case wc_map c1 s of
        None \<Rightarrow> (s, \<lparr>wc_map = (wc_map c1)(s \<mapsto> wc_idx c1), wc_idx = Suc (wc_idx c1)\<rparr>)
      | Some i \<Rightarrow> (idx_to_code i, c1))"
    unfolding wcache_write_def c1_def Let_def using True by simp
  show ?thesis
  proof (cases "wc_map c1 s")
    case None
    with ww w have out: "out = s"
      and wc': "wc' = \<lparr>wc_map = (wc_map c1)(s \<mapsto> wc_idx c1), wc_idx = Suc (wc_idx c1)\<rparr>"
      by simp_all
    have dec: "decode_string rc km2 s = Inr (x, rcache_write rc x)"
      using True km p by (simp add: decode_string_def)
    have a: "wc_idx wc' = rc_idx (rcache_write rc x)" "wc_idx wc' \<le> cache_max"
      using inv1(1,3) by (simp_all add: wc' rcache_write_def Let_def)
    have b: "\<forall>s' i. wc_map wc' s' = Some i \<longrightarrow>
       i < wc_idx wc' \<and> (\<exists>y. parse_string s' = Inr y \<and> rc_tab (rcache_write rc x) i = Some y)"
    proof (intro allI impI)
      fix s' i assume m: "wc_map wc' s' = Some i"
      show "i < wc_idx wc' \<and> (\<exists>y. parse_string s' = Inr y \<and> rc_tab (rcache_write rc x) i = Some y)"
      proof (cases "s' = s")
        case True
        with m p inv1(3) show ?thesis by (simp add: wc' rcache_write_def Let_def)
      next
        case False
        with m have "wc_map c1 s' = Some i" by (simp add: wc')
        from inv1(2) [OF this] inv1(3) show ?thesis
          by (auto simp: wc' rcache_write_def Let_def split: if_splits)
      qed
    qed
    from a b have "cache_inv wc' (rcache_write rc x)"
      unfolding cache_inv_def by blast
    with dec out pl show ?thesis by (simp add: plain_not_marker)
  next
    case (Some i)
    with ww w have out: "out = idx_to_code i" and wc': "wc' = c1"
      by simp_all
    from inv1(2) [OF Some] obtain x' where i: "i < wc_idx c1" "parse_string s = Inr x'" "rc_tab rc i = Some x'"
      by blast
    with p have "x' = x" by simp
    have "i < cache_max" using i(1) inv1(1) by simp
    then have "decode_string rc km2 out = Inr (x, rc)"
      using out i \<open>x' = x\<close>
      by (simp add: decode_string_def idx_to_code_not_cacheable idx_to_code_is_code rcache_read_def
          code_to_idx_idx_to_code)
    moreover have "cache_inv wc' rc"
      using inv inv1 wc' Some by (auto simp: cache_inv_def c1_def wcache_empty_def split: if_splits)
    ultimately show ?thesis using out by (simp add: idx_to_code_not_marker)
  qed
qed

lemma decode_string_rewind:
  assumes d: "decode_string rc km s = Inr (x, rc1)"
  shows "decode_string (rc1\<lparr>rc_idx := rc_idx rc\<rparr>) km s = Inr (x, rc1)"
proof (cases "is_cacheable s km")
  case True
  with d have p: "parse_string s = Inr x" and rc1: "rc1 = rcache_write rc x"
    by (auto simp: decode_string_def js_simps)
  have "rcache_write (rc1\<lparr>rc_idx := rc_idx rc\<rparr>) x = rc1"
    by (simp add: rc1 rcache_write_def Let_def)
  with True p show ?thesis by (simp add: decode_string_def)
next
  case False
  with d have "rc1 = rc"
    by (auto simp: decode_string_def js_simps split: if_splits)
  with d show ?thesis by simp
qed

lemma emit_ok:
  assumes "cache_inv c rc" "parse_string s = Inr x" "plain s"
    "is_cacheable s km2 = is_cacheable s km" "emit c km s = (j, c')"
  shows "\<exists>out rc'. j = JStr out \<and> decode_string rc km2 out = Inr (x, rc') \<and>
           cache_inv c' rc' \<and> out \<noteq> ''^ ''"
proof -
  obtain out c'' where w: "wcache_write c km s = (out, c'')" by fastforce
  with assms(5) have "j = JStr out" "c'' = c'" by (simp_all add: emit_def)
  with emit_decode_string [OF assms(1-4) w] show ?thesis by blast
qed

lemma parse_escape: "parse_string (escape s) = Inr (DVal (TStr s))"
  by (cases s) (auto simp: escape_def parse_string_def)

lemma plain_escape: "plain (escape s)"
  by (cases s) (auto simp: escape_def plain_def)

lemma plain_tilde: "plain (CHR ''~'' # s)"
  by (simp add: plain_def)

lemma parse_tilde_reserved:
  "[c] \<in> set reserved_tags \<Longrightarrow>
   parse_string (CHR ''~'' # c # v) = bindr (apply_decoder [c] (DVal (TStr v))) (\<lambda>x. Inr (DVal x))"
  by (auto simp: parse_string_def reserved_tags_def)

lemma parse_kw: "parse_string (''~:'' @ n) = Inr (DVal (TKw n))"
  by (simp add: parse_tilde_reserved reserved_tags_def apply_decoder_def)

lemma parse_sym: "parse_string (''~$'' @ n) = Inr (DVal (TSym n))"
  by (simp add: parse_tilde_reserved reserved_tags_def apply_decoder_def)

lemma parse_uuid: "parse_string (''~u'' @ uuid_toString u) = Inr (DVal (TUuid u))"
  by (simp add: parse_tilde_reserved reserved_tags_def apply_decoder_def uuid_roundtrip)

lemma parse_int_key: "parse_string (''~i'' @ int_dec i) = Inr (DVal (TInt i))"
  by (simp add: parse_tilde_reserved reserved_tags_def apply_decoder_def parseInt_int_dec)

lemma parse_date_key: "parse_string (''~m'' @ int_dec i) = Inr (DVal (TDate i))"
  by (simp add: parse_tilde_reserved reserved_tags_def apply_decoder_def parseInt_int_dec)

lemma parse_null_key: "parse_string ''~_'' = Inr (DVal TNull)"
  by (simp add: parse_tilde_reserved reserved_tags_def apply_decoder_def)

lemma parse_bool_key: "parse_string (if b then ''~?t'' else ''~?f'') = Inr (DVal (TBool b))"
  by (cases b) (simp_all add: parse_tilde_reserved reserved_tags_def apply_decoder_def)

lemma parse_tag: "parse_string (''~#'' @ t) = Inr (DTag t)"
  by (simp add: parse_string_def)

lemma parse_tagged1:
  "[c] \<notin> set reserved_tags \<Longrightarrow> [c] \<notin> {''#'', ''~'', ''^'', ''`''} \<Longrightarrow>
   parse_string (CHR ''~'' # c # s) = Inr (DVal (TTagged [c] (TStr s)))"
  by (auto simp: parse_string_def)

lemma cacheable_tag_any: "is_cacheable (''~#'' @ t) km2 = is_cacheable (''~#'' @ t) km"
  by (simp add: is_cacheable_def)

lemma decode_JArr_plain:
  "(\<forall>rest. js \<noteq> JStr ''^ '' # rest) \<Longrightarrow> decode c km tg (JArr js) = decode_array c km tg js"
  by (cases js rule: list.exhaust; cases "hd js") auto

lemma decode_tg_nonarr:
  "(\<forall>js. j \<noteq> JArr js) \<Longrightarrow> decode c km True j = decode c km False j"
  by (cases j) auto

lemma decode_array_False_other:
  "(\<forall>s0 r. js \<noteq> [JStr s0, r]) \<Longrightarrow>
   decode_array c km False js = bindr (decode_elems c km js) (\<lambda>(vs, c'). Inr (DVal (TArr vs), c'))"
proof (cases js)
  case Nil
  then show ?thesis by simp
next
  case (Cons a rest)
  assume h: "\<forall>s0 r. js \<noteq> [JStr s0, r]"
  show ?thesis
  proof (cases rest)
    case Nil
    with Cons show ?thesis by simp
  next
    case (Cons b rest')
    show ?thesis
    proof (cases rest')
      case Nil
      with h Cons \<open>js = a # rest\<close> obtain x where "a \<noteq> JStr x" "\<forall>x. a \<noteq> JStr x" by auto
      with Cons Nil \<open>js = a # rest\<close> show ?thesis by (cases a) simp_all
    next
      case (Cons c' rest'')
      with \<open>rest = b # rest'\<close> \<open>js = a # rest\<close> show ?thesis by (cases a) simp_all
    qed
  qed
qed

lemma decode_elems_first:
  "decode_elems rc km (JStr s0 # rest) = Inr (vs, rc') \<Longrightarrow>
   \<exists>v0 rc1. decode_string rc km s0 = Inr (DVal v0, rc1)"
  by (auto simp: js_simps split: dval.splits) (metis dval.exhaust)

lemma decode_elems_rewind_first:
  assumes "decode_string rc km s0 = Inr (x, rc1)"
  shows "decode_elems (rc1\<lparr>rc_idx := rc_idx rc\<rparr>) km (JStr s0 # rest) = decode_elems rc km (JStr s0 # rest)"
  using decode_string_rewind [OF assms] assms by simp

lemma decode_array_False_plain:
  assumes "decode_elems rc False js = Inr (vs, rc')"
  shows "decode_array rc False False js = Inr (DVal (TArr vs), rc')"
proof (cases "\<exists>s0 r. js = [JStr s0, r]")
  case True
  then obtain s0 r where js: "js = [JStr s0, r]" by blast
  from assms js obtain v0 rc1 where d: "decode_string rc False s0 = Inr (DVal v0, rc1)"
    using decode_elems_first by blast
  have "decode_elems (rc1\<lparr>rc_idx := rc_idx rc\<rparr>) False js = decode_elems rc False js"
    unfolding js by (rule decode_elems_rewind_first [OF d])
  with assms js d show ?thesis by simp
next
  case False
  with assms show ?thesis by (simp add: decode_array_False_other)
qed

lemma pairs_of_flat: "pairs_of (concat (map (\<lambda>(k, v). [k, v]) ps)) = Inr ps"
  by (induction ps) auto

lemma marshal_emit:
  assumes "cache_inv c rc" "marshal c km v = (j, c')" "marshal c km v = emit c km s"
    "parse_string s = Inr (DVal v)" "plain s" "\<forall>vs. v \<noteq> TArr vs"
  shows "reads_back rc km j v c'"
proof -
  from assms(2,3) have e: "emit c km s = (j, c')" by simp
  from emit_ok [OF assms(1,4,5) refl e] assms(6) show ?thesis
    by (auto simp: reads_back_def)
qed

lemma reads_back_same:
  "cache_inv c rc \<Longrightarrow> decode rc km False j = Inr (DVal v, rc) \<Longrightarrow> (\<forall>s. j \<noteq> JStr s) \<Longrightarrow>
   (\<forall>vs. v \<noteq> TArr vs) \<Longrightarrow> reads_back rc km j v c"
  by (auto simp: reads_back_def)

lemma marshal_null_reads_back: "cache_inv c rc \<Longrightarrow> marshal c km TNull = (j, c') \<Longrightarrow> reads_back rc km j TNull c'"
  by (cases km) (auto intro: marshal_emit [OF _ _ _ parse_null_key plain_tilde] reads_back_same)

lemma marshal_bool_reads_back: "cache_inv c rc \<Longrightarrow> marshal c km (TBool b) = (j, c') \<Longrightarrow> reads_back rc km j (TBool b) c'"
  by (cases km) (auto intro: marshal_emit [OF _ _ _ parse_bool_key] reads_back_same simp: plain_def)

lemma marshal_int_reads_back: "cache_inv c rc \<Longrightarrow> marshal c km (TInt i) = (j, c') \<Longrightarrow> reads_back rc km j (TInt i) c'"
  by (cases km) (auto intro: marshal_emit [OF _ _ _ parse_int_key] reads_back_same simp: plain_def)

lemma marshal_str_reads_back: "cache_inv c rc \<Longrightarrow> marshal c km (TStr s) = (j, c') \<Longrightarrow> reads_back rc km j (TStr s) c'"
  by (auto intro: marshal_emit [OF _ _ _ parse_escape plain_escape])

lemma marshal_kw_reads_back: "cache_inv c rc \<Longrightarrow> marshal c km (TKw n) = (j, c') \<Longrightarrow> reads_back rc km j (TKw n) c'"
  by (auto intro: marshal_emit [OF _ _ _ parse_kw] simp: plain_def)

lemma marshal_sym_reads_back: "cache_inv c rc \<Longrightarrow> marshal c km (TSym n) = (j, c') \<Longrightarrow> reads_back rc km j (TSym n) c'"
  by (auto intro: marshal_emit [OF _ _ _ parse_sym] simp: plain_def)

lemma marshal_uuid_reads_back: "cache_inv c rc \<Longrightarrow> marshal c km (TUuid u) = (j, c') \<Longrightarrow> reads_back rc km j (TUuid u) c'"
  by (auto intro: marshal_emit [OF _ _ _ parse_uuid] simp: plain_def)

lemma emit_tag:
  assumes "cache_inv c rc" "emit c True (''~#'' @ t) = (tg, c1)"
  obtains out rc1 where "tg = JStr out" "decode_string rc False out = Inr (DTag t, rc1)"
    "cache_inv c1 rc1" "out \<noteq> ''^ ''"
  using emit_ok [OF assms(1) parse_tag _ cacheable_tag_any assms(2), of False]
  by (auto simp: plain_def)

lemma marshal_date_reads_back: "cache_inv c rc \<Longrightarrow> marshal c km (TDate ms) = (j, c') \<Longrightarrow> reads_back rc km j (TDate ms) c'"
  by (auto intro: marshal_emit [OF _ _ _ parse_date_key] simp: plain_def)

lemma marshal_arr_reads_back:
  assumes "marshal c km (TArr vs) = (j, c')" "\<not> km"
    and "\<And>js c2. marshal_elems c vs = (js, c2) \<Longrightarrow> elems_read_back rc js vs c2"
  shows "reads_back rc km j (TArr vs) c'"
proof -
  obtain js c2 where m: "marshal_elems c vs = (js, c2)" by fastforce
  with assms(1) have j: "j = JArr js" "c' = c2" by simp_all
  from assms(3) [OF m] obtain rc' where d: "decode_elems rc False js = Inr (vs, rc')"
    "cache_inv c2 rc'" and nm: "\<forall>rest. js \<noteq> JStr ''^ '' # rest"
    by (auto simp: elems_read_back_def)
  have "\<And>tg. decode rc km tg (JArr js) = decode_array rc km tg js"
    using nm by (rule decode_JArr_plain)
  with j d assms(2) show ?thesis
    by (simp add: reads_back_def decode_array_False_plain)
qed

lemma marshal_keymap_reads_back:
  assumes "marshal c km (TMap ps) = (j, c')" "list_all (\<lambda>e. stringable (fst e)) ps"
    and "\<And>js c2. marshal_kvs c True ps = (js, c2) \<Longrightarrow> kvs_read_back rc True js ps c2"
  shows "reads_back rc km j (TMap ps) c'"
proof -
  obtain js c2 where m: "marshal_kvs c True ps = (js, c2)" by fastforce
  with assms(1,2) have "j = JArr (JStr ''^ '' # js)" "c' = c2" by simp_all
  with assms(3) [OF m] show ?thesis by (auto simp: reads_back_def kvs_read_back_def)
qed

lemma marshal_cmap_reads_back:
  assumes inv: "cache_inv c rc" and m: "marshal c km (TMap ps) = (j, c')" "\<not> km"
    and ns: "\<not> list_all (\<lambda>e. stringable (fst e)) ps"
    and IH: "\<And>tg c1 rc1 js c2. emit c True ''~#cmap'' = (tg, c1) \<Longrightarrow> cache_inv c1 rc1 \<Longrightarrow>
               marshal_kvs c1 False ps = (js, c2) \<Longrightarrow> kvs_read_back rc1 False js ps c2"
  shows "reads_back rc km j (TMap ps) c'"
proof -
  obtain tg c1 where e: "emit c True (''~#'' @ ''cmap'') = (tg, c1)" by fastforce
  obtain js c2 where mk: "marshal_kvs c1 False ps = (js, c2)" by fastforce
  from m ns e mk have j: "j = JArr [tg, JArr js]" "c' = c2" by simp_all
  from emit_tag [OF inv e] obtain out rc1 where t: "tg = JStr out"
    "decode_string rc False out = Inr (DTag ''cmap'', rc1)" "cache_inv c1 rc1" "out \<noteq> ''^ ''" .
  from IH [OF _ t(3) mk] e obtain rc2 where
    d: "decode_elems rc1 False js = Inr (concat (map (\<lambda>(k, v). [k, v]) ps), rc2)" "cache_inv c2 rc2"
    and nm: "\<forall>rest. js \<noteq> JStr ''^ '' # rest"
    by (auto simp: kvs_read_back_def elems_read_back_def)
  have "decode rc1 False True (JArr js) = decode_array rc1 False True js"
    using nm by (rule decode_JArr_plain)
  then show ?thesis
    using j m(2) t d
    by (simp add: reads_back_def decode_JArr_plain reserved_tags_def apply_decoder_def pairs_of_flat)
qed

lemma marshal_tagged_str_reads_back:
  assumes "cache_inv c rc" "marshal c km (TTagged [ch] (TStr s)) = (j, c')"
    "transit_wf (TTagged [ch] (TStr s))"
  shows "reads_back rc km j (TTagged [ch] (TStr s)) c'"
proof -
  from assms(3) have ok: "[ch] \<notin> set reserved_tags" "[ch] \<notin> {''#'', ''~'', ''^'', ''`''}" by simp_all
  show ?thesis
    using assms(2) by (intro marshal_emit [OF assms(1) _ _ parse_tagged1 [OF ok]]) (simp_all add: plain_def)
qed

lemma marshal_tagged_pair:
  "length t \<noteq> 1 \<Longrightarrow> marshal c km (TTagged t rep) =
     (case emit c True (''~#'' @ t) of
        (tg, c1) \<Rightarrow> (case marshal c1 False rep of (r, c2) \<Rightarrow> (JArr [tg, r], c2)))"
  by (cases rep) simp_all

lemma marshal_tagged_pair_reads_back:
  assumes inv: "cache_inv c rc" and m: "marshal c km (TTagged t rep) = (j, c')" "\<not> km"
    and t1: "length t \<noteq> 1" and wf: "transit_wf (TTagged t rep)"
    and IH: "\<And>tg c1 rc1 r c2. emit c True (''~#'' @ t) = (tg, c1) \<Longrightarrow> cache_inv c1 rc1 \<Longrightarrow>
               marshal c1 False rep = (r, c2) \<Longrightarrow> reads_back rc1 False r rep c2"
  shows "reads_back rc km j (TTagged t rep) c'"
proof -
  obtain tg c1 where e: "emit c True (''~#'' @ t) = (tg, c1)" by fastforce
  obtain r c2 where mr: "marshal c1 False rep = (r, c2)" by fastforce
  from m(1) have j: "j = JArr [tg, r]" "c' = c2"
    unfolding marshal_tagged_pair [OF t1] e by (simp_all add: mr)
  from emit_tag [OF inv e] obtain out rc1 where tg: "tg = JStr out"
    "decode_string rc False out = Inr (DTag t, rc1)" "cache_inv c1 rc1" "out \<noteq> ''^ ''" .
  from IH [OF e tg(3) mr] obtain rc2 where d: "decode rc1 False False r = Inr (DVal rep, rc2)"
    "cache_inv c2 rc2" and dt: "\<forall>vs. rep = TArr vs \<longrightarrow> decode rc1 False True r = decode rc1 False False r"
    by (auto simp: reads_back_def)
  have arr: "decode rc False False j = decode_array rc False False [JStr out, r]"
    using j(1) tg(1,4) by simp
  show ?thesis
  proof (cases "t \<in> set reserved_tags")
    case True
    with wf t1 obtain vs where "t = ''list''" "rep = TArr vs"
      by (auto split: if_splits tv.splits)
    with arr j m(2) tg d dt show ?thesis
      by (simp add: reads_back_def apply_decoder_def reserved_tags_def)
  next
    case False
    with arr j m(2) tg d show ?thesis by (simp add: reads_back_def)
  qed
qed

lemma marshal_elems_cons_reads_back:
  assumes m: "marshal_elems c (v # vs) = (js, c')"
    and IH1: "\<And>j1 c1. marshal c False v = (j1, c1) \<Longrightarrow> reads_back rc False j1 v c1"
    and IH2: "\<And>j1 c1 rc1 js1 c2. marshal c False v = (j1, c1) \<Longrightarrow> cache_inv c1 rc1 \<Longrightarrow>
                marshal_elems c1 vs = (js1, c2) \<Longrightarrow> elems_read_back rc1 js1 vs c2"
  shows "elems_read_back rc js (v # vs) c'"
proof -
  obtain j1 c1 where m1: "marshal c False v = (j1, c1)" by fastforce
  obtain js1 c2 where m2: "marshal_elems c1 vs = (js1, c2)" by fastforce
  from m m1 m2 have js: "js = j1 # js1" "c' = c2" by simp_all
  from IH1 [OF m1] obtain rc1 where d1: "decode rc False False j1 = Inr (DVal v, rc1)"
    "cache_inv c1 rc1" and s1: "\<forall>s. j1 = JStr s \<longrightarrow> s \<noteq> ''^ ''"
    by (auto simp: reads_back_def)
  from IH2 [OF m1 d1(2) m2] obtain rc2 where "decode_elems rc1 False js1 = Inr (vs, rc2)"
    "cache_inv c2 rc2" by (auto simp: elems_read_back_def)
  with js d1 s1 show ?thesis by (auto simp: elems_read_back_def)
qed

lemma marshal_kvs_cons_reads_back:
  assumes m: "marshal_kvs c km ((k, v) # ps) = (js, c')"
    and IH1: "\<And>jk c1. marshal c km k = (jk, c1) \<Longrightarrow> reads_back rc km jk k c1"
    and IH2: "\<And>jk c1 rc1 jv c2. marshal c km k = (jk, c1) \<Longrightarrow> cache_inv c1 rc1 \<Longrightarrow>
                marshal c1 False v = (jv, c2) \<Longrightarrow> reads_back rc1 False jv v c2"
    and IH3: "\<And>jk c1 jv c2 rc2 js1 c3. marshal c km k = (jk, c1) \<Longrightarrow> marshal c1 False v = (jv, c2) \<Longrightarrow>
                cache_inv c2 rc2 \<Longrightarrow> marshal_kvs c2 km ps = (js1, c3) \<Longrightarrow> kvs_read_back rc2 km js1 ps c3"
  shows "kvs_read_back rc km js ((k, v) # ps) c'"
proof -
  obtain jk c1 where m1: "marshal c km k = (jk, c1)" by fastforce
  obtain jv c2 where m2: "marshal c1 False v = (jv, c2)" by fastforce
  obtain js1 c3 where m3: "marshal_kvs c2 km ps = (js1, c3)" by fastforce
  from m m1 m2 m3 have js: "js = jk # jv # js1" "c' = c3" by simp_all
  from IH1 [OF m1] obtain rc1 where d1: "decode rc km False jk = Inr (DVal k, rc1)"
    "cache_inv c1 rc1" and s1: "\<forall>s. jk = JStr s \<longrightarrow> s \<noteq> ''^ ''"
    by (auto simp: reads_back_def)
  from IH2 [OF m1 d1(2) m2] obtain rc2 where d2: "decode rc1 False False jv = Inr (DVal v, rc2)"
    "cache_inv c2 rc2" by (auto simp: reads_back_def)
  have d3: "kvs_read_back rc2 km js1 ps c3" by (rule IH3 [OF m1 m2 d2(2) m3])
  show ?thesis
  proof (cases km)
    case True
    with d3 obtain rc3 where "decode_kvs rc2 js1 = Inr (ps, rc3)" "cache_inv c3 rc3"
      by (auto simp: kvs_read_back_def)
    with True js d1 d2 show ?thesis by (simp add: kvs_read_back_def)
  next
    case False
    with d3 obtain rc3 where "decode_elems rc2 False js1 = Inr (concat (map (\<lambda>(k, v). [k, v]) ps), rc3)"
      "cache_inv c3 rc3" by (auto simp: kvs_read_back_def elems_read_back_def)
    with False js d1 d2 s1 show ?thesis by (auto simp: kvs_read_back_def elems_read_back_def)
  qed
qed

lemma marshal_reads_back:
  "transit_wf v \<Longrightarrow> (km \<longrightarrow> stringable v) \<Longrightarrow> cache_inv c rc \<Longrightarrow> marshal c km v = (j, c') \<Longrightarrow>
     reads_back rc km j v c'"
  "list_all transit_wf vs \<Longrightarrow> cache_inv c rc \<Longrightarrow> marshal_elems c vs = (js, c') \<Longrightarrow>
     elems_read_back rc js vs c'"
  "list_all (\<lambda>(k, v). transit_wf k \<and> transit_wf v \<and> (km \<longrightarrow> stringable k)) ps \<Longrightarrow>
   cache_inv c rc \<Longrightarrow> marshal_kvs c km ps = (js, c') \<Longrightarrow> kvs_read_back rc km js ps c'"
proof (induction c km v and c vs and c km ps arbitrary: rc j c' and rc js c' and rc js c'
       rule: marshal_marshal_elems_marshal_kvs.induct)
  case (9 c km vs)
  then show ?case by (auto intro!: marshal_arr_reads_back)
next
  case (10 c km ps)
  show ?case
  proof (cases "list_all (\<lambda>e. stringable (fst e)) ps")
    case True
    with "10.prems"(1) have "list_all (\<lambda>(k, v). transit_wf k \<and> transit_wf v \<and> (True \<longrightarrow> stringable k)) ps"
      by (auto simp: list_all_iff)
    with True 10 show ?thesis by (auto intro!: marshal_keymap_reads_back)
  next
    case False
    from "10.prems"(2) have km: "\<not> km" by simp
    from "10.prems"(1) have wf: "list_all (\<lambda>(k, v). transit_wf k \<and> transit_wf v \<and> (False \<longrightarrow> stringable k)) ps"
      by (auto simp: list_all_iff)
    have IH: "\<And>tg c1 rc1 js c2. emit c True ''~#cmap'' = (tg, c1) \<Longrightarrow> cache_inv c1 rc1 \<Longrightarrow>
               marshal_kvs c1 False ps = (js, c2) \<Longrightarrow> kvs_read_back rc1 False js ps c2"
      using "10.IH"(2) [OF False] wf by (metis (no_types))
    show ?thesis by (rule marshal_cmap_reads_back [OF "10.prems"(3,4) km False IH])
  qed
next
  case (11 c km t rep)
  show ?case
  proof (cases "length t = 1")
    case True
    with "11.prems"(1) obtain ch s where "t = [ch]" "rep = TStr s"
      by (auto simp: length_Suc_conv split: tv.splits)
    with "11.prems" show ?thesis by (auto intro: marshal_tagged_str_reads_back)
  next
    case False
    have IH: "\<And>tg c1 rc1 r c2. emit c True (''~#'' @ t) = (tg, c1) \<Longrightarrow> cache_inv c1 rc1 \<Longrightarrow>
               marshal c1 False rep = (r, c2) \<Longrightarrow> reads_back rc1 False r rep c2"
      using "11.IH" "11.prems"(1) False by (cases rep) (auto split: if_splits)
    from "11.prems" False show ?thesis by (auto intro: marshal_tagged_pair_reads_back [OF _ _ _ _ _ IH])
  qed
next
  case (13 c v vs)
  then show ?case by (auto intro!: marshal_elems_cons_reads_back)
next
  case (15 c km k v ps)
  then show ?case by (auto intro!: marshal_kvs_cons_reads_back)
qed (auto intro: marshal_null_reads_back marshal_bool_reads_back marshal_int_reads_back marshal_str_reads_back marshal_kw_reads_back marshal_sym_reads_back marshal_uuid_reads_back marshal_date_reads_back simp: elems_read_back_def kvs_read_back_def)

lemma emit_not_arr: "fst (emit c km s) \<noteq> JArr js"
  by (simp add: emit_def split: prod.splits)

lemma marshal_stringable_not_arr:
  "stringable v \<Longrightarrow> transit_wf v \<Longrightarrow> fst (marshal c km v) \<noteq> JArr js"
  by (cases v) (auto simp: emit_not_arr length_Suc_conv split: tv.splits)

text \<open>A value that is not written under the top-level quote: arrays, maps and tagged values
  with a compound representation.\<close>

lemma read_write_compound:
  assumes wf: "transit_wf v" and ns: "\<not> stringable v"
  shows "transit_read (transit_write v) = Inr v"
proof -
  obtain j c' where m: "marshal wcache_empty False v = (j, c')" by fastforce
  from marshal_reads_back(1) [OF wf _ cache_inv_empty m] obtain rc' where
    "decode rcache_empty False False j = Inr (DVal v, rc')" by (auto simp: reads_back_def)
  with ns m show ?thesis by (simp add: transit_write_def transit_read_def)
qed

text \<open>
  The round trip: for every well-formed transit value, reading what
  the writer produces gives back the value written -- through the write and read caches, map
  keys, \<^verbatim>\<open>cmap\<close> maps, tagged values and the top-level quote.
\<close>

lemma transit_roundtrip:
  assumes wf: "transit_wf v"
  shows "transit_read (transit_write v) = Inr v"
proof (cases "stringable v")
  case True
  obtain tg c1 where e: "emit wcache_empty True (''~#'' @ [CHR 0x27]) = (tg, c1)" by fastforce
  obtain r c2 where m: "marshal c1 False v = (r, c2)" by fastforce
  from emit_tag [OF cache_inv_empty e] obtain out rc1 where t: "tg = JStr out"
    "decode_string rcache_empty False out = Inr (DTag [CHR 0x27], rc1)" "cache_inv c1 rc1" "out \<noteq> ''^ ''" .
  from marshal_reads_back(1) [OF wf _ t(3) m] obtain rc2 where
    d: "decode rc1 False False r = Inr (DVal v, rc2)" by (auto simp: reads_back_def)
  have "\<forall>js. r \<noteq> JArr js"
    using marshal_stringable_not_arr [OF True wf, of c1 False] m by simp
  then have "decode rc1 False True r = decode rc1 False False r" by (rule decode_tg_nonarr)
  with True e m t d show ?thesis
    by (simp add: transit_write_def transit_read_def reserved_tags_def apply_decoder_def)
next
  case False
  with wf show ?thesis by (rule read_write_compound)
qed

text \<open>
  The invariant and the bounds of the write cache: \<^verbatim>\<open>WriteCache.write\<close> keeps its index
  within \<open>44 * 44\<close> -- a full cache starts a new generation -- and every index it stores
  below the next free one; the string it emits is either the input or a cache code of two or
  three characters that names an index below \<open>44 * 44\<close> and that the reader's
  \<^verbatim>\<open>codeToIdx\<close> maps back to that index.
\<close>

lemma wcache_write_bounds:
  assumes "wc_idx c \<le> cache_max" "\<forall>s i. wc_map c s = Some i \<longrightarrow> i < wc_idx c"
    and "wcache_write c km s = (out, c')"
  shows "wc_idx c' \<le> cache_max \<and> (\<forall>s i. wc_map c' s = Some i \<longrightarrow> i < wc_idx c') \<and>
         (out = s \<or> (\<exists>i < cache_max. out = idx_to_code i \<and> code_to_idx out = Some i \<and>
                                        2 \<le> length out \<and> length out \<le> 3))"
proof (cases "is_cacheable s km")
  case False
  then show ?thesis using assms by (simp add: wcache_write_def)
next
  case True
  define c1 where "c1 = (if wc_idx c = cache_max then wcache_empty else c)"
  have c1: "wc_idx c1 < cache_max" "\<forall>s i. wc_map c1 s = Some i \<longrightarrow> i < wc_idx c1"
    using assms(1,2) by (auto simp: c1_def wcache_empty_def cache_max_def)
  have w: "wcache_write c km s =
     (case wc_map c1 s of
        None \<Rightarrow> (s, \<lparr>wc_map = (wc_map c1)(s \<mapsto> wc_idx c1), wc_idx = Suc (wc_idx c1)\<rparr>)
      | Some i \<Rightarrow> (idx_to_code i, c1))"
    unfolding wcache_write_def Let_def c1_def using True by simp
  show ?thesis
  proof (cases "wc_map c1 s")
    case None
    have "wc_map c1 x = Some i \<Longrightarrow> i < Suc (wc_idx c1)" for x i
      using c1(2) by (auto intro: less_SucI)
    then show ?thesis using None assms(3) c1(1) w by (auto split: if_splits)
  next
    case (Some i)
    then have "i < wc_idx c1" using c1(2) by blast
    then have "i < cache_max" using c1(1) by simp
    moreover have "2 \<le> length (idx_to_code i) \<and> length (idx_to_code i) \<le> 3"
      by (simp add: idx_to_code_def Let_def)
    ultimately show ?thesis
      using Some assms(3) c1 w code_to_idx_idx_to_code [of i] by auto
  qed
qed

end
