(* ===== verification/Spec2Isabelle.thy ===== *)
theory Spec2Isabelle
  imports Entry Transit_Roundtrip
begin

text \<open>
  \<^bold>\<open>A verification development of cancel-circle-workflows.\<close>
  The program (\<^verbatim>\<open>src/src/index.ts\<close>, 112 lines) is a CircleCI helper: called with a session
  cookie, it asks the CircleCI query API for the project's workflows, decodes the transit
  response, finds the newest workflow of the current branch and cancels every older one of
  that branch that is still running or blocked. Its parts and how they call each other:
  \<^item> the module state (lines 9-18, 39): the variable \<^verbatim>\<open>cookie\<close>, the header object
    \<^verbatim>\<open>REQUEST_HEADERS\<close> built once at load time, and the environment read once;
  \<^item> the transit reader and writer (lines 6-7), used through JSON text by
    \<^verbatim>\<open>getRawWorkflows\<close> (line 64) and \<^verbatim>\<open>cancelBuild\<close> (lines 90 and 98);
  \<^item> \<^verbatim>\<open>getRawWorkflows\<close> (lines 41-66): one GET with a hand-written transit payload, the
    response read back and its \<^verbatim>\<open>results\<close> extracted;
  \<^item> \<^verbatim>\<open>extractFromTransitMapByName\<close> (lines 84-87), the accessor every other part uses;
  \<^item> \<^verbatim>\<open>convertRawWorkflows\<close> and \<^verbatim>\<open>getInfoForWorkflow\<close> (lines 68-82): one record per entry;
  \<^item> the selection of the default export (lines 107-110);
  \<^item> \<^verbatim>\<open>cancelBuild\<close> (lines 89-101): fill a transit template and send it;
  \<^item> the default export (lines 103-112): check and store the cookie, run the steps above, and
    await \<^verbatim>\<open>Promise.all\<close> of the cancellations.

  \<^bold>\<open>Theories.\<close> Each part is one theory, in the order the code composes them.
  \<^item> \<open>Prelude\<close>: the error type (every \<^verbatim>\<open>throw\<close>, \<^verbatim>\<open>TypeError\<close> and rejection is an
    \<open>Inl\<close> of \<open>error + 'a\<close>, sequenced by \<open>bindr\<close>), \<^verbatim>\<open>parseInt\<close>, decimal printing,
    \<^verbatim>\<open>Array.prototype.join\<close>, and \<open>map_result\<close> for \<^verbatim>\<open>_.map\<close> with a throwing iteratee.
  \<^item> \<open>Uuid\<close>: transit-js UUIDs as two 64-bit words (\<open>64 word\<close>), \<^verbatim>\<open>UUIDfromString\<close> and
    \<^verbatim>\<open>toString\<close> with JavaScript's 32-bit shifts, the canonical string form
    \<open>uuid_shape\<close>, and both round trips between strings and UUIDs.
  \<^item> \<open>Transit_Value\<close>: JSON values (\<open>json\<close>) and decoded transit values (\<open>tv\<close>).
  \<^item> \<open>Json_Text\<close>: \<^verbatim>\<open>JSON.stringify\<close> (\<open>json_stringify\<close>, \<open>quote_char\<close>) and
    \<^verbatim>\<open>JSON.parse\<close> (\<open>json_parse\<close>, a mutual recursive-descent parser with fuel).
  \<^item> \<open>Transit_Codec\<close>: the transit-js reader and writer with their caches (\<open>decode\<close>,
    \<open>marshal\<close>, \<open>transit_read\<close>, \<open>transit_write\<close>; the reader also takes JSON
    objects, \<open>decode_hash\<close>), and the module's reader and writer on text,
    \<open>transitReader_read\<close> and \<open>transitWriter_write\<close>.
  \<^item> \<open>Transit_Roundtrip\<close>: the invariant relating the write and read caches and the proof
    that reading inverts writing.
  \<^item> \<open>Accessor\<close>: \<open>extractFromTransitMapByName\<close> over \<open>keySet\<close>, \<open>key_name\<close> and
    \<open>map_get\<close>; \<open>field_by_name\<close> is its contract.
  \<^item> \<open>Query\<close>: the records \<open>env\<close>, \<open>request\<close> and \<open>module_state\<close>, \<open>module_init\<close>,
    \<open>list_query_data\<close>, \<open>read_response\<close> and \<open>getRawWorkflows\<close>. The HTTP exchange is a
    parameter \<open>net :: transport\<close>, from a request to the body axios resolves to.
  \<^item> \<open>Workflow\<close>: \<open>WorkflowStatus\<close>, \<open>WorkflowInfo\<close>, \<open>getInfoForWorkflow\<close> (the seven
    accessor calls in source order) and \<open>convertRawWorkflows\<close>.
  \<^item> \<open>Selection\<close>: \<open>branch_matches\<close>, \<open>thisBuild\<close>, \<open>oldBuilds\<close>, \<open>is_cancelable\<close>,
    and \<open>buildsToCancel\<close>, with \<open>cancel_positions\<close>, the positions of the records
    it cancels.
  \<^item> \<open>Cancel\<close>: the template literal, \<^verbatim>\<open>_.get\<close>, \<^verbatim>\<open>keySet\<close> and the two in-place
    \<^verbatim>\<open>set\<close> calls on the map shared with the template (\<open>set_rep1\<close> makes the aliasing
    explicit; \<open>map_set\<close> is \<^verbatim>\<open>TransitArrayMap.set\<close>, which gives the new value to the
    first entry with an equal key, or appends one), and \<open>cancelBuild\<close>.
  \<^item> \<open>Entry\<close>: \<open>default_export\<close> as a function from the module state, the cookie, the
    transport and the settle order to a \<open>run\<close> (final state, requests issued in order,
    value of the promise), \<open>promise_all\<close> with an explicit settle order
    (\<open>settle_order\<close>: synchronous rejections first, in index order, then the responses in
    the order \<open>rank\<close> gives them), and the inductive relation \<open>reachable\<close> of module
    states across invocations.
  \<^item> this theory: the properties that span components.

  \<^bold>\<open>What is proved\<close>, by claim, in the order of the manifest:
  \<^item> selection: the targets are exactly the records at given positions (C1), selected
    records carry an enum status (C13), and no build of another
    branch, no build that is not running or blocked, and -- for distinct records -- not the
    current build is ever selected (C23);
  \<^item> round trips: the run id survives decoding, record building and cancelling (C2), reading
    a response inverts writing through the JSON text (C5), the cancel body decodes to the
    cancel command (C11);
  \<^item> accessor and records: refinement of the accessor contract (C3), the record built from an
    entry (C4), and all-or-nothing conversion of the entries (C12);
  \<^item> requests: the list payload is the query of spec \<section>4.3 (C6), \<open>cancelBuild\<close> on
    every branch (C7), the template's keys reach the wire unchanged (C8), every id string, a UUID or not, becomes a canonical 36-character run id (C22), and an id that
    is already a canonical UUID string is sent unchanged (C29);
  \<^item> the entry point: the cookie is never sent (C9), a failure is reported as one error
    (C10), at most one request per workflow
    (C16), no target means one request and an empty result (C17), a missing cookie is the
    entry point's own error (C18), a failed fetch stops the run after one request (C19), the
    cancel requests follow the order of the targets (C20), and a run whose requests all
    succeed resolves with one value per target (C21), and a target without an id makes the
    run reject with its \<^verbatim>\<open>TypeError\<close> whatever the network does, since a synchronous
    rejection settles first (C24);
  \<^item> ordering of settlement: the outcome does not depend on the settle order when all
    failures carry the same error (C25), but with different errors every failed request's
    error is the reported one under some settle order (C26);
  \<^item> the cookie has no effect: from any reachable states and with any valid cookies, an
    invocation sends the same requests and settles the same way (C27);
  \<^item> a list response without \<^verbatim>\<open>results\<close> -- a JSON error object, for instance -- makes the
    invocation resolve with nothing cancelled, as if there were nothing to do (C28);
  \<^item> end to end: for a response that is the transit encoding of a map of workflow entries,
    an invocation sends the list request and then exactly the cancel requests of the stale
    running or blocked workflows of the branch that have an id, in order (C30);
  \<^item> transit caches: the writer's cache index stays within \<open>44 * 44\<close> and every code it
    emits names an index the reader decodes back (\<open>wcache_write_bounds\<close>, a lemma of
    \<open>Transit_Roundtrip\<close>: a property of the library alone, not a claim about the program);
  \<^item> module state: an invariant of every reachable state, by rule induction (C15), and
    every reachable state is the loaded module or the state after a single invocation from
    it, so that later invocations reach nothing new (C31);
  \<^item> JSON text: reading a body through its text is equivalent to decoding it directly
    (C14).
  Each claim is the theorem that follows a text naming it; each with a hypothesis has a
  witness that applies it to a concrete input.

  \<^bold>\<open>Bounds and fuel.\<close> The JSON parser recurses into arrays and objects with a fuel
  argument. \<open>json_parse\<close> gives it one more than the length of the text. Every call
  consumes at least one character (\<open>parse_consumes\<close>), and the fuel never falls below the
  length of the remaining text, so it never runs out (\<open>parse_fuel_enough\<close>; the
  module's reader never returns the fuel error, \<open>transitReader_read_total\<close>).
  Running out would be the model-only error \<open>FuelExhausted\<close>. Every other recursion is
  structural, or a \<open>function\<close> with a measure (\<open>decode\<close>, \<open>marshal\<close>). The transit
  caches wrap after \<open>44 * 44\<close> entries, as transit-js does, and UUID words are kept at
  their width.

  \<^bold>\<open>Not modelled.\<close>
  \<^item> axios and the network: pure I/O of an external library. The transport is a parameter,
    and the order in which responses settle is the parameter \<open>rank\<close>. Retries and timing
    are outside the model, and so is header serialisation: what axios does with the header
    \<^verbatim>\<open>Cookie: undefined\<close> depends on its version, which the repository does not pin.
    Older versions pass the value on to Node's \<^verbatim>\<open>http\<close>, which refuses an undefined header
    value; newer ones drop the header. In neither case is the user's cookie sent (C9).
  \<^item> JavaScript numbers beyond the integers: a JSON fraction or exponent, and a
    \<^verbatim>\<open>\u\<close> escape above 255, are \<open>Unsupported\<close>. Characters are code units below 256.
  \<^item> Transit values outside the fragment the program exchanges (floats, big integers,
    binary, characters, URIs, sets, links) are \<open>Unsupported\<close>; so is a timestamp in
    the verbose form \<^verbatim>\<open>~t\<close>, whose ISO-8601 reading would need JavaScript's date parser.
    JSON objects are read as transit maps; the order in which JavaScript lists their
    integer-like keys first is not modelled.
  \<^item> The module's imports (lines 1-4) have no behaviour of their own, and
    \<^verbatim>\<open>fs\<close> is never used.
\<close>

text \<open>
  C2 (round trip of the run id across the pipeline): when a workflow entry's
  \<^verbatim>\<open>workflow/id\<close> is a UUID, the record \<^verbatim>\<open>getInfoForWorkflow\<close> builds keeps its printed
  form, and \<^verbatim>\<open>cancelBuild\<close> on that record parses it back to the same UUID: the request
  cancels exactly the run the server reported, under the entry's own workflow name.
\<close>

theorem cancel_targets_server_uuid:
  assumes "getInfoForWorkflow rt (Some (TMap m)) = Inr info"
    and "field_by_name m ''workflow/id'' = Some (TUuid u)"
  shows "cancelBuild st info =
     Inr \<lparr>req_url = CIRCLE_QUERY_API,
          req_data = transit_write (cancel_command u (undefined_as_null (field_by_name m ''workflow/name''))),
          req_headers = REQUEST_HEADERS st\<rparr>"
proof (cases "\<exists>t. field_by_name m ''workflow/trigger-info'' = Some (TMap t)")
  case True
  then obtain t where "field_by_name m ''workflow/trigger-info'' = Some (TMap t)" by blast
  with assms(1) have "info = info_of rt m t" by (simp add: getInfoForWorkflow_TMap)
  with assms(2) show ?thesis by (simp add: info_of_def cancelBuild_Some uuid_roundtrip)
next
  case False
  with assms(1) show ?thesis by (simp add: getInfoForWorkflow_no_trigger)
qed

theorem cancel_targets_server_uuid_witness:
  "getInfoForWorkflow example_rt (Some (TMap [(TKw ''workflow/id'', TUuid \<lparr>uuid_high = 1, uuid_low = 2\<rparr>),
                                     (TKw ''workflow/name'', TStr ''build''), (TKw ''workflow/trigger-info'', TMap [])])) =
     Inr (info_of example_rt [(TKw ''workflow/id'', TUuid \<lparr>uuid_high = 1, uuid_low = 2\<rparr>),
                      (TKw ''workflow/name'', TStr ''build''), (TKw ''workflow/trigger-info'', TMap [])] []) \<and>
   field_by_name [(TKw ''workflow/id'', TUuid \<lparr>uuid_high = 1, uuid_low = 2\<rparr>),
                  (TKw ''workflow/name'', TStr ''build''), (TKw ''workflow/trigger-info'', TMap [])] ''workflow/id'' =
     Some (TUuid \<lparr>uuid_high = 1, uuid_low = 2\<rparr>) \<and>
   cancelBuild example_state (info_of example_rt [(TKw ''workflow/id'', TUuid \<lparr>uuid_high = 1, uuid_low = 2\<rparr>),
                               (TKw ''workflow/name'', TStr ''build''), (TKw ''workflow/trigger-info'', TMap [])] []) =
     Inr \<lparr>req_url = CIRCLE_QUERY_API,
          req_data = transit_write (cancel_command \<lparr>uuid_high = 1, uuid_low = 2\<rparr> (TStr ''build'')),
          req_headers = REQUEST_HEADERS example_state\<rparr>"
proof -
  have g: "getInfoForWorkflow example_rt (Some (TMap [(TKw ''workflow/id'', TUuid \<lparr>uuid_high = 1, uuid_low = 2\<rparr>),
                                     (TKw ''workflow/name'', TStr ''build''), (TKw ''workflow/trigger-info'', TMap [])])) =
     Inr (info_of example_rt [(TKw ''workflow/id'', TUuid \<lparr>uuid_high = 1, uuid_low = 2\<rparr>),
                      (TKw ''workflow/name'', TStr ''build''), (TKw ''workflow/trigger-info'', TMap [])] [])"
    by (simp add: getInfoForWorkflow_TMap field_by_name_def)
  have f: "field_by_name [(TKw ''workflow/id'', TUuid \<lparr>uuid_high = 1, uuid_low = 2\<rparr>),
                  (TKw ''workflow/name'', TStr ''build''), (TKw ''workflow/trigger-info'', TMap [])] ''workflow/id'' =
     Some (TUuid \<lparr>uuid_high = 1, uuid_low = 2\<rparr>)"
    by (simp add: field_by_name_def)
  show ?thesis
    using cancel_targets_server_uuid [OF g f, of example_state] g f
    by (simp add: field_by_name_def undefined_as_null_def)
qed

text \<open>
  C5 (round trip, spec \<section>8): the code's reading of a response body
  (\<^verbatim>\<open>transitReader.read(JSON.stringify(data))\<close>) inverts the transit writer: for every
  well-formed transit value, reading what the writer produces gives
  back the value written -- through the write and read caches, map keys, \<^verbatim>\<open>cmap\<close> maps,
  tagged values and the top-level quote.
\<close>

theorem response_roundtrip:
  assumes "transit_wf v"
  shows "read_response (Some (transit_write v)) = Inr v"
  using transit_roundtrip [OF assms] by (simp add: read_response_Some transit_write_unique_keys)

text \<open>An instance: a map with a compound key (written as \<^verbatim>\<open>cmap\<close>), strings that need
  escaping, a date in value position and a tagged list.\<close>

theorem response_roundtrip_witness:
  "transit_wf (TArr [TMap [(TArr [TInt 1], TStr ''~a'')], TMap [(TKw ''run/id'', TDate 5), (TStr ''^x'', TNull)],
                     TTagged ''list'' (TArr [TSym ''run/cancel''])]) \<and>
   read_response (Some (transit_write (TArr [TMap [(TArr [TInt 1], TStr ''~a'')], TMap [(TKw ''run/id'', TDate 5), (TStr ''^x'', TNull)],
                                      TTagged ''list'' (TArr [TSym ''run/cancel''])]))) =
     Inr (TArr [TMap [(TArr [TInt 1], TStr ''~a'')], TMap [(TKw ''run/id'', TDate 5), (TStr ''^x'', TNull)],
                TTagged ''list'' (TArr [TSym ''run/cancel''])])"
  using response_roundtrip [of "TArr [TMap [(TArr [TInt 1], TStr ''~a'')], TMap [(TKw ''run/id'', TDate 5), (TStr ''^x'', TNull)],
                                     TTagged ''list'' (TArr [TSym ''run/cancel''])]"]
  by (simp add: reserved_tags_def)

text \<open>
  C11 (codec and dispatcher together): the body of every cancel request that
  \<^verbatim>\<open>cancelBuild\<close> issues decodes, with the transit reader, to the cancel command for the
  record's id and workflow name, whenever the name is a value the codec supports.
\<close>

theorem cancel_request_decodes:
  assumes "cancelBuild st w = Inr r" "transit_wf (undefined_as_null (workflowName w))"
  shows "\<exists>i. id' w = Some i \<and>
           transit_read (req_data r) = Inr (cancel_command (UUIDfromString i) (undefined_as_null (workflowName w)))"
proof (cases "id' w")
  case None
  with assms(1) show ?thesis by (simp add: cancelBuild_None)
next
  case (Some i)
  have "transit_wf (cancel_command (UUIDfromString i) (undefined_as_null (workflowName w)))"
    using assms(2) by (simp add: cancel_command_def)
  moreover have "\<not> stringable (cancel_command (UUIDfromString i) (undefined_as_null (workflowName w)))"
    by (simp add: cancel_command_def)
  ultimately have "transit_read (transit_write (cancel_command (UUIDfromString i) (undefined_as_null (workflowName w)))) =
      Inr (cancel_command (UUIDfromString i) (undefined_as_null (workflowName w)))"
    by (rule read_write_compound)
  with assms(1) Some show ?thesis by (auto simp: cancelBuild_Some)
qed

theorem cancel_request_decodes_witness:
  "cancelBuild example_state (example_info (Some ''a1'') ''running'') =
     Inr \<lparr>req_url = CIRCLE_QUERY_API,
          req_data = transit_write (cancel_command (UUIDfromString ''a1'') (TStr ''build'')),
          req_headers = REQUEST_HEADERS example_state\<rparr> \<and>
   transit_wf (undefined_as_null (workflowName (example_info (Some ''a1'') ''running''))) \<and>
   transit_read (transit_write (cancel_command (UUIDfromString ''a1'') (TStr ''build''))) =
     Inr (cancel_command (UUIDfromString ''a1'') (TStr ''build''))"
proof -
  have c: "cancelBuild example_state (example_info (Some ''a1'') ''running'') =
     Inr \<lparr>req_url = CIRCLE_QUERY_API,
          req_data = transit_write (cancel_command (UUIDfromString ''a1'') (TStr ''build'')),
          req_headers = REQUEST_HEADERS example_state\<rparr>"
    by (simp add: cancelBuild_Some example_info_def undefined_as_null_def)
  have n: "transit_wf (undefined_as_null (workflowName (example_info (Some ''a1'') ''running'')))"
    by (simp add: example_info_def undefined_as_null_def)
  show ?thesis
    using cancel_request_decodes [OF c n] c n by (simp add: example_info_def undefined_as_null_def)
qed

text \<open>
  C30 (composition, end to end): when the server answers the list request with the transit
  encoding of a map whose \<^verbatim>\<open>results\<close> are workflow entries, an invocation with a valid
  cookie issues the list request and then, in order, one cancel request for each stale
  running or blocked workflow of the branch that has an id, carrying its UUID and name:
  the codec, the accessor, the record extractor, the selection and the dispatcher together.
\<close>

theorem default_export_end_to_end:
  assumes "c \<noteq> None" "c \<noteq> Some ''''"
    and "net (list_request st) = Inr (Some (transit_write (TMap m)))" "transit_wf (TMap m)"
    and "field_by_name m ''results'' = Some (TArr es)" "list_all workflow_entry es"
  shows "run_requests (default_export rt net rank st c) =
     list_request st #
     map (\<lambda>w. \<lparr>req_url = CIRCLE_QUERY_API,
               req_data = transit_write (cancel_command (UUIDfromString (the (id' w))) (undefined_as_null (workflowName w))),
               req_headers = REQUEST_HEADERS st\<rparr>)
       (filter (\<lambda>w. id' w \<noteq> None) (buildsToCancel (CIRCLE_BRANCH (process_env st)) (map (entry_info rt) es)))"
proof -
  have "read_response (Some (transit_write (TMap m))) = Inr (TMap m)"
    using transit_roundtrip [OF assms(4)] by (simp add: read_response_Some transit_write_unique_keys)
  then have "bindr (getRawWorkflows st net) (convertRawWorkflows rt) = Inr (map (entry_info rt) es)"
    using assms(3,5,6) by (simp add: getRawWorkflows_def extract_TMap convertRawWorkflows_entries)
  then show ?thesis
    using default_export_valid [OF assms(1,2)] by (simp add: issued_cancelBuild)
qed

text \<open>A server map with two workflows of branch \<^verbatim>\<open>main\<close>, both running, the newest first.\<close>

theorem default_export_end_to_end_witness:
  "Some ''session'' \<noteq> None \<and> Some ''session'' \<noteq> Some [] \<and>
   (\<lambda>r. Inr (Some (transit_write (TMap [(TKw ''results'', TArr
      [TMap [(TKw ''workflow/id'', TUuid \<lparr>uuid_high = 1, uuid_low = 2\<rparr>), (TKw ''workflow/status'', TStr ''running''),
             (TKw ''workflow/trigger-info'', TMap [(TKw ''trigger-info/branch'', TStr ''main'')])],
       TMap [(TKw ''workflow/id'', TUuid \<lparr>uuid_high = 3, uuid_low = 4\<rparr>), (TKw ''workflow/status'', TStr ''running''),
             (TKw ''workflow/trigger-info'', TMap [(TKw ''trigger-info/branch'', TStr ''main'')])]])])))) (list_request example_state) =
     Inr (Some (transit_write (TMap [(TKw ''results'', TArr
      [TMap [(TKw ''workflow/id'', TUuid \<lparr>uuid_high = 1, uuid_low = 2\<rparr>), (TKw ''workflow/status'', TStr ''running''),
             (TKw ''workflow/trigger-info'', TMap [(TKw ''trigger-info/branch'', TStr ''main'')])],
       TMap [(TKw ''workflow/id'', TUuid \<lparr>uuid_high = 3, uuid_low = 4\<rparr>), (TKw ''workflow/status'', TStr ''running''),
             (TKw ''workflow/trigger-info'', TMap [(TKw ''trigger-info/branch'', TStr ''main'')])]])]))) \<and>
   transit_wf (TMap [(TKw ''results'', TArr
      [TMap [(TKw ''workflow/id'', TUuid \<lparr>uuid_high = 1, uuid_low = 2\<rparr>), (TKw ''workflow/status'', TStr ''running''),
             (TKw ''workflow/trigger-info'', TMap [(TKw ''trigger-info/branch'', TStr ''main'')])],
       TMap [(TKw ''workflow/id'', TUuid \<lparr>uuid_high = 3, uuid_low = 4\<rparr>), (TKw ''workflow/status'', TStr ''running''),
             (TKw ''workflow/trigger-info'', TMap [(TKw ''trigger-info/branch'', TStr ''main'')])]])]) \<and>
   list_all workflow_entry
      [TMap [(TKw ''workflow/id'', TUuid \<lparr>uuid_high = 1, uuid_low = 2\<rparr>), (TKw ''workflow/status'', TStr ''running''),
             (TKw ''workflow/trigger-info'', TMap [(TKw ''trigger-info/branch'', TStr ''main'')])],
       TMap [(TKw ''workflow/id'', TUuid \<lparr>uuid_high = 3, uuid_low = 4\<rparr>), (TKw ''workflow/status'', TStr ''running''),
             (TKw ''workflow/trigger-info'', TMap [(TKw ''trigger-info/branch'', TStr ''main'')])]] \<and>
   run_requests (default_export example_rt
      (\<lambda>r. Inr (Some (transit_write (TMap [(TKw ''results'', TArr
        [TMap [(TKw ''workflow/id'', TUuid \<lparr>uuid_high = 1, uuid_low = 2\<rparr>), (TKw ''workflow/status'', TStr ''running''),
               (TKw ''workflow/trigger-info'', TMap [(TKw ''trigger-info/branch'', TStr ''main'')])],
         TMap [(TKw ''workflow/id'', TUuid \<lparr>uuid_high = 3, uuid_low = 4\<rparr>), (TKw ''workflow/status'', TStr ''running''),
               (TKw ''workflow/trigger-info'', TMap [(TKw ''trigger-info/branch'', TStr ''main'')])]])]))))
      example_rank example_state (Some ''session'')) =
     [list_request example_state,
      \<lparr>req_url = CIRCLE_QUERY_API,
       req_data = transit_write (cancel_command \<lparr>uuid_high = 3, uuid_low = 4\<rparr> TNull),
       req_headers = REQUEST_HEADERS example_state\<rparr>]"
proof -
  define es where "es =
      [TMap [(TKw ''workflow/id'', TUuid \<lparr>uuid_high = 1, uuid_low = 2\<rparr>), (TKw ''workflow/status'', TStr ''running''),
             (TKw ''workflow/trigger-info'', TMap [(TKw ''trigger-info/branch'', TStr ''main'')])],
       TMap [(TKw ''workflow/id'', TUuid \<lparr>uuid_high = 3, uuid_low = 4\<rparr>), (TKw ''workflow/status'', TStr ''running''),
             (TKw ''workflow/trigger-info'', TMap [(TKw ''trigger-info/branch'', TStr ''main'')])]]"
  have wf: "transit_wf (TMap [(TKw ''results'', TArr es)])" by (simp add: es_def)
  have we: "list_all workflow_entry es" by (simp add: es_def workflow_entry_def field_by_name_def)
  have f: "field_by_name [(TKw ''results'', TArr es)] ''results'' = Some (TArr es)" by (simp add: field_by_name_def)
  have sel: "filter (\<lambda>w. id' w \<noteq> None) (buildsToCancel (CIRCLE_BRANCH (process_env example_state)) (map (entry_info example_rt) es)) =
     [entry_info example_rt (es ! 1)]"
    by (simp add: es_def entry_info_def info_of_def field_by_name_def buildsToCancel_def oldBuilds_def
        branch_matches_def is_cancelable_def example_state_def module_init_def example_env_def)
  have r: "run_requests (default_export example_rt (\<lambda>r. Inr (Some (transit_write (TMap [(TKw ''results'', TArr es)]))))
      example_rank example_state (Some ''session'')) =
     [list_request example_state,
      \<lparr>req_url = CIRCLE_QUERY_API,
       req_data = transit_write (cancel_command \<lparr>uuid_high = 3, uuid_low = 4\<rparr> TNull),
       req_headers = REQUEST_HEADERS example_state\<rparr>]"
    using default_export_end_to_end [OF _ _ _ wf f we, where net = "\<lambda>r. Inr (Some (transit_write (TMap [(TKw ''results'', TArr es)])))"
        and st = example_state and c = "Some ''session''" and rt = example_rt and rank = example_rank]
    unfolding sel by (simp add: es_def entry_info_def info_of_def field_by_name_def invoke_toString_def
        uuid_roundtrip undefined_as_null_def)
  show ?thesis using wf we r by (simp add: es_def)
qed

end
